theory Spec2Isabelle
  imports Complex_Main "HOL-Library.AList"
begin

section \<open>Values shared by the host library and the API server\<close>

text \<open>
  JSON values as the bodies of HTTP requests and the payloads of events carry them.
  A property that is absent from an object reads as JavaScript's \<open>undefined\<close>, which is
  \<open>None\<close> here. Numbers are kept as integers: the code only ever asks for their type.
\<close>

datatype json =
  JNull
| JBool bool
| JNum int
| JStr string
| JArr "json list"
| JObj "(string \<times> json) list"

text \<open>Reading a property. \<open>JSON.parse\<close> keeps the last of several members with the same
  name; a value that is not an object has none of the properties the code reads.\<close>

fun get_field :: "json \<Rightarrow> string \<Rightarrow> json option" where
  "get_field (JObj members) k = map_of (rev members) k"
| "get_field v k = None"

text \<open>What JavaScript takes for true in a condition.\<close>

fun js_truthy :: "json \<Rightarrow> bool" where
  "js_truthy JNull = False"
| "js_truthy (JBool b) = b"
| "js_truthy (JNum n) = (n \<noteq> 0)"
| "js_truthy (JStr s) = (s \<noteq> [])"
| "js_truthy (JArr xs) = True"
| "js_truthy (JObj members) = True"

definition truthy :: "json option \<Rightarrow> bool" where
  "truthy v = (case v of None \<Rightarrow> False | Some j \<Rightarrow> js_truthy j)"

text \<open>\<open>typeof v === "string"\<close>, \<open>typeof v === "number"\<close> and \<open>typeof v === "object"\<close> (which
  holds of \<open>null\<close> and of arrays too).\<close>

fun is_string :: "json option \<Rightarrow> bool" where
  "is_string (Some (JStr s)) = True"
| "is_string v = False"

fun is_number :: "json option \<Rightarrow> bool" where
  "is_number (Some (JNum n)) = True"
| "is_number v = False"

fun typeof_object :: "json \<Rightarrow> bool" where
  "typeof_object JNull = True"
| "typeof_object (JArr xs) = True"
| "typeof_object (JObj members) = True"
| "typeof_object v = False"

text \<open>
  Error codes of the MCP SDK (\<open>ErrorCode\<close> in \<open>@modelcontextprotocol/sdk/types.js\<close>)
  and the SDK's \<open>McpError\<close>, which carries a numeric code, a message and optional data.
\<close>

definition ErrorCode_RequestTimeout :: int where
  "ErrorCode_RequestTimeout = - 32001"

definition ErrorCode_InvalidRequest :: int where
  "ErrorCode_InvalidRequest = - 32600"

definition ErrorCode_MethodNotFound :: int where
  "ErrorCode_MethodNotFound = - 32601"

definition ErrorCode_InvalidParams :: int where
  "ErrorCode_InvalidParams = - 32602"

definition ErrorCode_InternalError :: int where
  "ErrorCode_InternalError = - 32603"

record McpError =
  err_code :: int
  err_message :: string
  err_data :: "json option"

section \<open>The resolver (\<open>src/lib/uri-utils.ts\<close>)\<close>

datatype matchType = Exact | Template | Scheme | Name

record ServerSuggestion =
  sg_serverId :: string
  sg_confidence :: real
  sg_matchType :: matchType

record AggregatedResource =
  res_serverId :: string
  res_uri :: string
  res_name :: string
  res_mimeType :: "string option"
  res_size :: "int option"

record AggregatedResourceTemplate =
  tpl_serverId :: string
  tpl_id :: string
  tpl_name :: string
  tpl_uriTemplate :: string
  tpl_description :: "string option"

text \<open>
  \<open>results.sort((a, b) => b.confidence - a.confidence)\<close>: the sort of JavaScript arrays is
  stable, and the comparator orders by decreasing confidence. \<open>sort_key\<close> is a stable
  insertion sort.
\<close>

definition sort_by_confidence :: "ServerSuggestion list \<Rightarrow> ServerSuggestion list" where
  "sort_by_confidence results = sort_key (\<lambda>s. - sg_confidence s) results"

text \<open>\<open>uri.split(":")[0] + ":"\<close>: everything before the first colon, then a colon.\<close>

definition uri_scheme :: "string \<Rightarrow> string" where
  "uri_scheme uri = takeWhile (\<lambda>c. c \<noteq> CHR '':'') uri @ '':''"

text \<open>
  \<open>template.replace(/\{[^}]+\}/g, ".*")\<close>: scanning from the left, an opening brace followed
  by at least one character other than a closing brace and then a closing brace is replaced
  by \<open>.*\<close>; any other character is kept.
\<close>

function replace_placeholders :: "string \<Rightarrow> string" where
  "replace_placeholders [] = []"
| "replace_placeholders (c # cs) =
     (if c = CHR ''{'' \<and> takeWhile (\<lambda>d. d \<noteq> CHR ''}'') cs \<noteq> []
           \<and> dropWhile (\<lambda>d. d \<noteq> CHR ''}'') cs \<noteq> []
      then ''.*'' @ replace_placeholders (tl (dropWhile (\<lambda>d. d \<noteq> CHR ''}'') cs))
      else c # replace_placeholders cs)"
  by pat_completeness auto
termination
proof (relation "measure length")
  show "wf (measure (length :: string \<Rightarrow> nat))" by simp
next
  fix c :: char and cs :: string
  assume "c = CHR ''{'' \<and> takeWhile (\<lambda>d. d \<noteq> CHR ''}'') cs \<noteq> []
           \<and> dropWhile (\<lambda>d. d \<noteq> CHR ''}'') cs \<noteq> []"
  have "length (tl (dropWhile (\<lambda>d. d \<noteq> CHR ''}'') cs)) \<le> length cs"
    using length_dropWhile_le [of "\<lambda>d. d \<noteq> CHR ''}''" cs] by simp
  then show "(tl (dropWhile (\<lambda>d. d \<noteq> CHR ''}'') cs), c # cs) \<in> measure length"
    by simp
next
  fix c :: char and cs :: string
  show "(cs, c # cs) \<in> measure length" by simp
qed

text \<open>
  The regular-expression engine belongs to the JavaScript runtime, so it is a parameter:
  \<open>rx pattern input\<close> is \<open>None\<close> when \<open>new RegExp(pattern)\<close> throws a syntax error, and
  otherwise \<open>Some\<close> of what \<open>test\<close> answers on the input.
\<close>

type_synonym regexp_engine = "string \<Rightarrow> string \<Rightarrow> bool option"

datatype resolve_error = SyntaxError string

definition canMatchTemplate :: "regexp_engine \<Rightarrow> string \<Rightarrow> string \<Rightarrow> bool option" where
  "canMatchTemplate rx uri template = rx (''^'' @ replace_placeholders template @ ''$'') uri"

definition exact_matches :: "string \<Rightarrow> AggregatedResource list \<Rightarrow> ServerSuggestion list" where
  "exact_matches uri resources =
     map (\<lambda>r. \<lparr>sg_serverId = res_serverId r, sg_confidence = 1, sg_matchType = Exact\<rparr>)
       (filter (\<lambda>r. res_uri r = uri) resources)"

text \<open>
  The loop over the templates. A template whose \<open>uriTemplate\<close> is empty is skipped (the
  string is falsy); an exception of the engine leaves the loop and the function.
\<close>

fun template_matches ::
  "regexp_engine \<Rightarrow> string \<Rightarrow> AggregatedResourceTemplate list
     \<Rightarrow> resolve_error + ServerSuggestion list" where
  "template_matches rx uri [] = Inr []"
| "template_matches rx uri (t # ts) =
     (if tpl_uriTemplate t = [] then template_matches rx uri ts
      else (case canMatchTemplate rx uri (tpl_uriTemplate t) of
              None \<Rightarrow> Inl (SyntaxError (''^'' @ replace_placeholders (tpl_uriTemplate t) @ ''$''))
            | Some b \<Rightarrow>
                (case template_matches rx uri ts of
                   Inl e \<Rightarrow> Inl e
                 | Inr rest \<Rightarrow>
                     Inr ((if b then [\<lparr>sg_serverId = tpl_serverId t, sg_confidence = 8 / 10,
                                        sg_matchType = Template\<rparr>] else []) @ rest))))"

text \<open>
  \<open>serversByScheme\<close> is a \<open>Map\<close> from a scheme to a \<open>Set\<close> of server ids. Both keep insertion
  order; adding to a set an element it already has changes nothing.
\<close>

definition set_add :: "'a \<Rightarrow> 'a list \<Rightarrow> 'a list" where
  "set_add x xs = (if x \<in> set xs then xs else xs @ [x])"

fun serversByScheme ::
  "AggregatedResource list \<Rightarrow> (string \<times> string list) list \<Rightarrow> (string \<times> string list) list" where
  "serversByScheme [] m = m"
| "serversByScheme (r # rs) m =
     (let resourceScheme = uri_scheme (res_uri r);
          m1 = (if map_of m resourceScheme = None then AList.update resourceScheme [] m else m);
          m2 = (case map_of m1 resourceScheme of
                  None \<Rightarrow> m1
                | Some servers \<Rightarrow> AList.update resourceScheme (set_add (res_serverId r) servers) m1)
      in serversByScheme rs m2)"

definition scheme_matches :: "string \<Rightarrow> AggregatedResource list \<Rightarrow> ServerSuggestion list" where
  "scheme_matches uri resources =
     (case map_of (serversByScheme resources []) (uri_scheme uri) of
        None \<Rightarrow> []
      | Some servers \<Rightarrow>
          map (\<lambda>sid. \<lparr>sg_serverId = sid, sg_confidence = 5 / 10, sg_matchType = Scheme\<rparr>) servers)"

definition resolveResourceServer ::
  "regexp_engine \<Rightarrow> string \<Rightarrow> AggregatedResource list \<Rightarrow> AggregatedResourceTemplate list
     \<Rightarrow> resolve_error + ServerSuggestion list" where
  "resolveResourceServer rx uri resources templates =
     (let results = exact_matches uri resources in
      if length results > 0 then Inr (sort_by_confidence results)
      else (case template_matches rx uri templates of
              Inl e \<Rightarrow> Inl e
            | Inr results \<Rightarrow>
                if length results = 0
                then Inr (sort_by_confidence (results @ scheme_matches uri resources))
                else Inr (sort_by_confidence results)))"

text \<open>
  What is known of the engine without modelling it: \<open>new RegExp(pattern)\<close> throws a syntax
  error on a pattern in which a group is opened and not closed, or closed and not opened.
  In a pattern with no character class and no backslash every parenthesis opens or closes
  a group, so such a pattern is rejected when its parentheses do not balance.
  \<open>strict_engine test\<close> rejects these patterns and answers \<open>test\<close> on every other one.
\<close>

fun paren_depth :: "nat \<Rightarrow> string \<Rightarrow> nat option" where
  "paren_depth d [] = Some d"
| "paren_depth d (c # cs) =
     (if c = CHR ''('' then paren_depth (Suc d) cs
      else if c = CHR '')'' then (case d of 0 \<Rightarrow> None | Suc e \<Rightarrow> paren_depth e cs)
      else paren_depth d cs)"

definition rejected_pattern :: "string \<Rightarrow> bool" where
  "rejected_pattern p =
     (CHR ''['' \<notin> set p \<and> CHR 0x5C \<notin> set p \<and> paren_depth 0 p \<noteq> Some 0)"

definition strict_engine :: "(string \<Rightarrow> string \<Rightarrow> bool) \<Rightarrow> regexp_engine" where
  "strict_engine test p u = (if rejected_pattern p then None else Some (test p u))"

section \<open>The host library (\<open>src/lib/core.ts\<close>, \<open>src/lib/api.ts\<close>, \<open>src/lib/errors.ts\<close>)\<close>

subsection \<open>Errors\<close>

text \<open>What a \<open>catch\<close> clause can receive: an \<open>Error\<close> with its message, an \<open>McpError\<close>
  (which is an \<open>Error\<close> too), or any other thrown value.\<close>

datatype js_thrown =
  ThrownError string
| ThrownMcpError McpError
| ThrownOther json

datatype 'a outcome = Resolved 'a | Rejected js_thrown

fun thrown_message :: "js_thrown \<Rightarrow> string option" where
  "thrown_message (ThrownError m) = Some m"
| "thrown_message (ThrownMcpError e) = Some (err_message e)"
| "thrown_message (ThrownOther v) = None"

datatype ErrorCodes =
  ROOTS_UPDATE_FAILED
| SERVER_NOT_FOUND
| INVALID_TRANSPORT
| CONNECTION_FAILED
| SUBSCRIPTION_FAILED
| TOOL_CALL_FAILED
| RESOURCE_READ_FAILED
| PROMPT_GET_FAILED

record McpHostError =
  he_message :: string
  he_code :: ErrorCodes
  he_serverId :: "string option"
  he_cause :: "js_thrown option"

text \<open>\<open>message.includes(part)\<close>.\<close>

fun js_includes :: "string \<Rightarrow> string \<Rightarrow> bool" where
  "js_includes [] part = (part = [])"
| "js_includes (c # cs) part = (take (length part) (c # cs) = part \<or> js_includes cs part)"

text \<open>The constructor of \<open>McpHostError\<close>: a cause whose message is not already part of
  the message is appended to it.\<close>

definition new_McpHostError ::
  "string \<Rightarrow> ErrorCodes \<Rightarrow> string option \<Rightarrow> js_thrown option \<Rightarrow> McpHostError" where
  "new_McpHostError message code serverId cause =
     \<lparr>he_message =
        (case cause of
           None \<Rightarrow> message
         | Some c \<Rightarrow>
             (case thrown_message c of
                None \<Rightarrow> message
              | Some cm \<Rightarrow>
                  if js_includes message cm then message
                  else message @ '' (Cause: '' @ cm @ '')'')),
      he_code = code, he_serverId = serverId, he_cause = cause\<rparr>"

text \<open>\<open>e instanceof Error ? e : undefined\<close>.\<close>

fun error_or_undefined :: "js_thrown \<Rightarrow> js_thrown option" where
  "error_or_undefined (ThrownOther v) = None"
| "error_or_undefined e = Some e"

subsection \<open>Listings and aggregated capabilities\<close>

record Tool =
  tool_name :: string
  tool_description :: "string option"
  tool_inputSchema :: json
  tool_annotations :: "json option"

record AggregatedTool =
  at_serverId :: string
  at_name :: string
  at_description :: "string option"
  at_inputSchema :: json
  at_annotations :: "json option"

record Resource =
  rs_uri :: string
  rs_name :: string
  rs_mimeType :: "string option"
  rs_size :: "int option"

record ResourceTemplate =
  rt_id :: string
  rt_name :: string
  rt_uriTemplate :: string
  rt_description :: "string option"

record Prompt =
  pr_name :: string
  pr_description :: "string option"
  pr_arguments :: "json option"

record AggregatedPrompt =
  ap_serverId :: string
  ap_name :: string
  ap_description :: "string option"
  ap_arguments :: "json option"

text \<open>The capabilities a server declares, each field being whether the JavaScript value
  the code tests is truthy: \<open>capabilities.tools\<close>, \<open>capabilities.resources\<close>,
  \<open>capabilities.resources.templates\<close> and \<open>capabilities.prompts\<close>; \<open>cap_roots\<close> is the
  value of \<open>capabilities.roots\<close> itself.\<close>

record ServerCapabilities =
  cap_tools :: bool
  cap_resources :: bool
  cap_templates :: bool
  cap_prompts :: bool
  cap_roots :: "json option"

text \<open>The SDK's \<open>Client\<close> for one server, as the host sees it: what the server declared and
  how each call the host makes on it ends.\<close>

record Client =
  cl_capabilities :: "ServerCapabilities option"
  cl_listTools :: "Tool list option outcome"
  cl_listResources :: "Resource list option outcome"
  cl_listResourceTemplates :: "ResourceTemplate list outcome"
  cl_listPrompts :: "Prompt list option outcome"
  cl_sendRootsListChanged :: "unit outcome"
  cl_callTool :: "json \<Rightarrow> json outcome"
  cl_readResource :: "json option \<Rightarrow> json outcome"
  cl_getPrompt :: "json option \<Rightarrow> json outcome"

datatype host_event =
  EvLog string string
| EvCapabilitiesUpdated
| EvServerConnected string
| EvServerDisconnected string "string option"
| EvServerError string string
| EvResourceUpdated string string

subsection \<open>The simplified sampling handler\<close>

record SimplifiedLlmResult =
  slr_content :: string
  slr_model :: "string option"
  slr_stopReason :: "string option"
  slr_usage :: "json option"

datatype handler_result = HResult SimplifiedLlmResult | HError McpError

type_synonym SimplifiedSamplingHandler = "string \<Rightarrow> json \<Rightarrow> handler_result outcome"

record TextContent =
  tc_type :: string
  tc_text :: string

record CreateMessageResult =
  cmr_role :: string
  cmr_content :: TextContent
  cmr_model :: string
  cmr_stopReason :: string
  cmr_usage :: "json option"

datatype sampling_reply = Reply CreateMessageResult | ReplyError McpError

subsection \<open>The state of the host\<close>

text \<open>
  The \<open>Map\<close>s of the class are association lists in insertion order: \<open>AList.update\<close> is
  \<open>Map.set\<close> (an existing key keeps its place), \<open>AList.delete\<close> is \<open>Map.delete\<close> and
  \<open>map_of\<close> is \<open>Map.get\<close>. \<open>notified\<close> records the servers on which
  \<open>sendRootsListChanged\<close> was called and \<open>emitted\<close> the events the host emitted, both
  oldest first. \<open>samplingListeners\<close> counts the listeners \<open>setSamplingHandler\<close> registered
  for \<open>samplingRequest\<close>.
\<close>

record host_state =
  clients :: "(string \<times> Client) list"
  aggregatedTools :: "(string \<times> AggregatedTool) list"
  aggregatedResources :: "(string \<times> AggregatedResource) list"
  aggregatedResourceTemplates :: "(string \<times> AggregatedResourceTemplate) list"
  aggregatedPrompts :: "(string \<times> AggregatedPrompt) list"
  serverCapabilities :: "(string \<times> ServerCapabilities) list"
  currentRoots :: "json list"
  simplifiedSamplingHandler :: "SimplifiedSamplingHandler option"
  samplingListeners :: nat
  notified :: "string list"
  emitted :: "host_event list"

definition new_host :: host_state where
  "new_host =
     \<lparr>clients = [], aggregatedTools = [], aggregatedResources = [],
      aggregatedResourceTemplates = [], aggregatedPrompts = [], serverCapabilities = [],
      currentRoots = [], simplifiedSamplingHandler = None, samplingListeners = 0,
      notified = [], emitted = []\<rparr>"

definition emit :: "host_event \<Rightarrow> host_state \<Rightarrow> host_state" where
  "emit ev st = st\<lparr>emitted := emitted st @ [ev]\<rparr>"

definition host_log :: "string \<Rightarrow> string \<Rightarrow> host_state \<Rightarrow> host_state" where
  "host_log level message st = emit (EvLog level message) st"

subsection \<open>Aggregation (\<open>core.ts\<close>)\<close>

text \<open>The key of an entry is the template string \<open>`${serverId}/${name}`\<close>.\<close>

definition entry_key :: "string \<Rightarrow> string \<Rightarrow> string" where
  "entry_key serverId n = serverId @ ''/'' @ n"

text \<open>\<open>tools || []\<close>.\<close>

definition or_empty :: "'a list option \<Rightarrow> 'a list" where
  "or_empty xs = (case xs of None \<Rightarrow> [] | Some ys \<Rightarrow> ys)"

definition addTools :: "string \<Rightarrow> Tool list option \<Rightarrow> host_state \<Rightarrow> host_state" where
  "addTools serverId tools st =
     st\<lparr>aggregatedTools :=
          fold (\<lambda>tool m.
                  AList.update (entry_key serverId (tool_name tool))
                    \<lparr>at_serverId = serverId, at_name = tool_name tool,
                     at_description = tool_description tool,
                     at_inputSchema = tool_inputSchema tool,
                     at_annotations = tool_annotations tool\<rparr> m)
            (or_empty tools) (aggregatedTools st)\<rparr>"

definition addResources :: "string \<Rightarrow> Resource list option \<Rightarrow> host_state \<Rightarrow> host_state" where
  "addResources serverId resources st =
     st\<lparr>aggregatedResources :=
          fold (\<lambda>resource m.
                  AList.update (entry_key serverId (rs_uri resource))
                    \<lparr>res_serverId = serverId, res_uri = rs_uri resource,
                     res_name = rs_name resource, res_mimeType = rs_mimeType resource,
                     res_size = rs_size resource\<rparr> m)
            (or_empty resources) (aggregatedResources st)\<rparr>"

definition addResourceTemplates ::
  "string \<Rightarrow> ResourceTemplate list \<Rightarrow> host_state \<Rightarrow> host_state" where
  "addResourceTemplates serverId templates st =
     st\<lparr>aggregatedResourceTemplates :=
          fold (\<lambda>template m.
                  AList.update (entry_key serverId (rt_id template))
                    \<lparr>tpl_serverId = serverId, tpl_id = rt_id template,
                     tpl_name = rt_name template, tpl_uriTemplate = rt_uriTemplate template,
                     tpl_description = rt_description template\<rparr> m)
            templates (aggregatedResourceTemplates st)\<rparr>"

definition addPrompts :: "string \<Rightarrow> Prompt list option \<Rightarrow> host_state \<Rightarrow> host_state" where
  "addPrompts serverId prompts st =
     st\<lparr>aggregatedPrompts :=
          fold (\<lambda>prompt m.
                  AList.update (entry_key serverId (pr_name prompt))
                    \<lparr>ap_serverId = serverId, ap_name = pr_name prompt,
                     ap_description = pr_description prompt,
                     ap_arguments = pr_arguments prompt\<rparr> m)
            (or_empty prompts) (aggregatedPrompts st)\<rparr>"

text \<open>\<open>keysToDelete\<close> collects the keys of the entries whose \<open>serverId\<close> is the given one;
  each of them is then deleted from the map.\<close>

definition keysToDelete :: "('v \<Rightarrow> string) \<Rightarrow> string \<Rightarrow> (string \<times> 'v) list \<Rightarrow> string list" where
  "keysToDelete sid_of serverId m = map fst (filter (\<lambda>(k, v). sid_of v = serverId) m)"

definition delete_keys :: "string list \<Rightarrow> (string \<times> 'v) list \<Rightarrow> (string \<times> 'v) list" where
  "delete_keys ks m = fold AList.delete ks m"

definition removeServerCapabilities :: "string \<Rightarrow> host_state \<Rightarrow> host_state" where
  "removeServerCapabilities serverId st =
     st\<lparr>aggregatedTools :=
          delete_keys (keysToDelete at_serverId serverId (aggregatedTools st)) (aggregatedTools st),
        aggregatedResources :=
          delete_keys (keysToDelete res_serverId serverId (aggregatedResources st))
            (aggregatedResources st),
        aggregatedResourceTemplates :=
          delete_keys (keysToDelete tpl_serverId serverId (aggregatedResourceTemplates st))
            (aggregatedResourceTemplates st),
        aggregatedPrompts :=
          delete_keys (keysToDelete ap_serverId serverId (aggregatedPrompts st))
            (aggregatedPrompts st),
        serverCapabilities := AList.delete serverId (serverCapabilities st)\<rparr>"

text \<open>
  \<open>updateServerCapabilities\<close> starts the list calls together and waits for all of them; each
  adds its entries when it resolves and logs when it rejects. The model takes the completions
  in the order tools, resources, templates, prompts.
\<close>

definition updateServerCapabilities :: "string \<Rightarrow> Client \<Rightarrow> host_state \<Rightarrow> host_state" where
  "updateServerCapabilities serverId client st =
     (let st1 = removeServerCapabilities serverId
                  (host_log ''info'' (''Updating capabilities for server: '' @ serverId) st)
      in case cl_capabilities client of
           None \<Rightarrow>
             emit EvCapabilitiesUpdated
               (host_log ''warn'' (''Server '' @ serverId @ '' reported no capabilities.'') st1)
         | Some capabilities \<Rightarrow>
             (let st2 = st1\<lparr>serverCapabilities :=
                              AList.update serverId capabilities (serverCapabilities st1)\<rparr>;
                  st3 = (if cap_resources capabilities then
                           (if cap_templates capabilities then st2
                            else host_log ''debug''
                                   (''Server '' @ serverId @ '' does not support resource templates.'') st2)
                         else host_log ''debug''
                                (''Server '' @ serverId @ '' does not declare resources capability.'') st2);
                  st4 = (if cap_tools capabilities then
                           (case cl_listTools client of
                              Resolved tools \<Rightarrow> addTools serverId tools st3
                            | Rejected e \<Rightarrow>
                                host_log ''error'' (''Failed to list tools for '' @ serverId) st3)
                         else st3);
                  st5 = (if cap_resources capabilities then
                           (case cl_listResources client of
                              Resolved resources \<Rightarrow> addResources serverId resources st4
                            | Rejected e \<Rightarrow>
                                host_log ''error'' (''Failed to list resources for '' @ serverId) st4)
                         else st4);
                  st6 = (if cap_resources capabilities \<and> cap_templates capabilities then
                           (case cl_listResourceTemplates client of
                              Resolved templates \<Rightarrow> addResourceTemplates serverId templates st5
                            | Rejected e \<Rightarrow>
                                host_log ''error''
                                  (''Failed to list resource templates for '' @ serverId) st5)
                         else st5);
                  st7 = (if cap_prompts capabilities then
                           (case cl_listPrompts client of
                              Resolved prompts \<Rightarrow> addPrompts serverId prompts st6
                            | Rejected e \<Rightarrow>
                                host_log ''error'' (''Failed to list prompts for '' @ serverId) st6)
                         else st6)
              in emit EvCapabilitiesUpdated
                   (host_log ''info''
                      (''Finished updating capabilities for server: '' @ serverId) st7)))"

text \<open>The end of \<open>connectToServer\<close>, once \<open>client.connect\<close> has resolved and the roots have
  been announced: the client enters the map, \<open>serverConnected\<close> is emitted and the
  capabilities are fetched.\<close>

definition connectToServer_connected :: "string \<Rightarrow> Client \<Rightarrow> host_state \<Rightarrow> host_state" where
  "connectToServer_connected serverId client st =
     updateServerCapabilities serverId client
       (emit (EvServerConnected serverId)
          (host_log ''info'' (''Successfully connected to server: '' @ serverId)
             (st\<lparr>clients := AList.update serverId client (clients st)\<rparr>)))"

text \<open>What \<open>handleServerDisconnection\<close> is given: nothing, an \<open>Error\<close> with its message, or
  the close data of a WebSocket.\<close>

datatype close_info = NoError | CloseError string | CloseData "string option" "string option"

fun close_message :: "close_info \<Rightarrow> string option" where
  "close_message NoError = None"
| "close_message (CloseError m) = Some m"
| "close_message (CloseData code reason) =
     Some (''Connection closed: ''
           @ (case reason of None \<Rightarrow> ''Unknown reason'' | Some r \<Rightarrow> if r = [] then ''Unknown reason'' else r)
           @ '' ('' @ (case code of None \<Rightarrow> ''unknown code'' | Some c \<Rightarrow> c) @ '')'')"

definition handleServerDisconnection :: "string \<Rightarrow> close_info \<Rightarrow> host_state \<Rightarrow> host_state" where
  "handleServerDisconnection serverId error st =
     (let errorObj = close_message error;
          st1 = host_log (if errorObj = None then ''info'' else ''error'')
                  (''Server disconnected: '' @ serverId
                   @ (case errorObj of None \<Rightarrow> [] | Some m \<Rightarrow> '' ('' @ m @ '')'')) st
      in case map_of (clients st1) serverId of
           None \<Rightarrow> st1
         | Some client \<Rightarrow>
             emit EvCapabilitiesUpdated
               (emit (EvServerDisconnected serverId errorObj)
                  (removeServerCapabilities serverId
                     (st1\<lparr>clients := AList.delete serverId (clients st1)\<rparr>))))"

text \<open>The handler of a \<open>resources/updated\<close> notification from a server.\<close>

definition on_resourceUpdated :: "string \<Rightarrow> string \<Rightarrow> host_state \<Rightarrow> host_state" where
  "on_resourceUpdated serverId uri st =
     emit (EvResourceUpdated serverId uri)
       (host_log ''info'' (''Resource updated on server '' @ serverId @ '': '' @ uri) st)"

definition getTools :: "host_state \<Rightarrow> AggregatedTool list" where
  "getTools st = map snd (aggregatedTools st)"

definition getResources :: "host_state \<Rightarrow> AggregatedResource list" where
  "getResources st = map snd (aggregatedResources st)"

definition getResourceTemplates :: "host_state \<Rightarrow> AggregatedResourceTemplate list" where
  "getResourceTemplates st = map snd (aggregatedResourceTemplates st)"

definition getPrompts :: "host_state \<Rightarrow> AggregatedPrompt list" where
  "getPrompts st = map snd (aggregatedPrompts st)"

subsection \<open>Requests to one server (\<open>api.ts\<close>)\<close>

text \<open>\<open>getClientOrThrow\<close> throws an \<open>McpHostError\<close>, which is an \<open>Error\<close> with the message
  \<open>Server not found\<close>; otherwise the call is the client's.\<close>

definition callTool :: "string \<Rightarrow> json \<Rightarrow> host_state \<Rightarrow> json outcome" where
  "callTool serverId params st =
     (case map_of (clients st) serverId of
        None \<Rightarrow> Rejected (ThrownError ''Server not found'')
      | Some client \<Rightarrow> cl_callTool client params)"

definition readResource :: "string \<Rightarrow> json option \<Rightarrow> host_state \<Rightarrow> json outcome" where
  "readResource serverId params st =
     (case map_of (clients st) serverId of
        None \<Rightarrow> Rejected (ThrownError ''Server not found'')
      | Some client \<Rightarrow> cl_readResource client params)"

definition getPrompt :: "string \<Rightarrow> json option \<Rightarrow> host_state \<Rightarrow> json outcome" where
  "getPrompt serverId params st =
     (case map_of (clients st) serverId of
        None \<Rightarrow> Rejected (ThrownError ''Server not found'')
      | Some client \<Rightarrow> cl_getPrompt client params)"

subsection \<open>Roots (\<open>api.ts\<close>)\<close>

text \<open>\<open>serverCaps?.roots?.listChanged\<close>, read as a condition.\<close>

definition roots_listChanged :: "ServerCapabilities option \<Rightarrow> bool" where
  "roots_listChanged serverCaps =
     (case serverCaps of
        None \<Rightarrow> False
      | Some caps \<Rightarrow>
          (case cap_roots caps of
             None \<Rightarrow> False
           | Some roots \<Rightarrow> truthy (get_field roots ''listChanged'')))"

text \<open>
  The body \<open>setRoots\<close> runs for every client. The calls of \<open>sendRootsListChanged\<close> are
  made in the order of the map; the model also takes their completions in that order.
\<close>

fun notify_roots ::
  "(string \<times> Client) list \<Rightarrow> host_state \<Rightarrow> McpHostError list
     \<Rightarrow> host_state \<times> McpHostError list" where
  "notify_roots [] st errors = (st, errors)"
| "notify_roots ((serverId, client) # rest) st errors =
     (if roots_listChanged (cl_capabilities client) then
        (case cl_sendRootsListChanged client of
           Resolved u \<Rightarrow>
             notify_roots rest
               (host_log ''info'' (''Sent roots list changed notification to '' @ serverId)
                  (st\<lparr>notified := notified st @ [serverId]\<rparr>))
               errors
         | Rejected e \<Rightarrow>
             (let error = new_McpHostError (''Failed to send roots to server '' @ serverId)
                            ROOTS_UPDATE_FAILED (Some serverId) (error_or_undefined e)
              in notify_roots rest
                   (host_log ''error'' (he_message error)
                      (st\<lparr>notified := notified st @ [serverId]\<rparr>))
                   (errors @ [error])))
      else notify_roots rest st errors)"

datatype setRoots_error = HostError McpHostError | AggregateError "McpHostError list" string

text \<open>The argument is any JavaScript value: \<open>None\<close> is \<open>undefined\<close>.\<close>

definition setRoots :: "json option \<Rightarrow> host_state \<Rightarrow> (setRoots_error + unit) \<times> host_state" where
  "setRoots roots st =
     (case roots of
        Some (JArr rs) \<Rightarrow>
          (case notify_roots (clients st) (st\<lparr>currentRoots := rs\<rparr>) [] of
             (st', errors) \<Rightarrow>
               if length errors > 0
               then (Inl (AggregateError errors ''Failed to update roots on some servers''), st')
               else (Inr (), st'))
      | _ \<Rightarrow>
          (Inl (HostError (new_McpHostError ''Roots must be an array'' ROOTS_UPDATE_FAILED
                             None None)), st))"

definition getCurrentRoots :: "host_state \<Rightarrow> json list" where
  "getCurrentRoots st = currentRoots st"

subsection \<open>The bridge of \<open>setSamplingHandler\<close> (\<open>core.ts\<close>)\<close>

definition setSamplingHandler :: "SimplifiedSamplingHandler \<Rightarrow> host_state \<Rightarrow> host_state" where
  "setSamplingHandler handler st =
     st\<lparr>simplifiedSamplingHandler := Some handler,
        samplingListeners := Suc (samplingListeners st)\<rparr>"

text \<open>\<open>value || fallback\<close> on an optional string: an absent or empty string is falsy.\<close>

definition or_default :: "string option \<Rightarrow> string \<Rightarrow> string" where
  "or_default v fallback =
     (case v of None \<Rightarrow> fallback | Some s \<Rightarrow> if s = [] then fallback else s)"

definition serverId_data :: "string \<Rightarrow> json option" where
  "serverId_data serverId = Some (JObj [(''data'', JObj [(''serverId'', JStr serverId)])])"

text \<open>The listener the bridge registers: the value it hands to the callback of the
  sampling request.\<close>

definition sampling_bridge :: "host_state \<Rightarrow> string \<Rightarrow> json \<Rightarrow> sampling_reply" where
  "sampling_bridge st serverId request =
     (case simplifiedSamplingHandler st of
        None \<Rightarrow>
          ReplyError \<lparr>err_code = ErrorCode_InternalError,
                      err_message = ''Simplified sampling handler was removed after being set'',
                      err_data = serverId_data serverId\<rparr>
      | Some handler \<Rightarrow>
          (case handler serverId request of
             Resolved (HError e) \<Rightarrow> ReplyError e
           | Resolved (HResult result) \<Rightarrow>
               Reply \<lparr>cmr_role = ''assistant'',
                      cmr_content = \<lparr>tc_type = ''text'', tc_text = slr_content result\<rparr>,
                      cmr_model = or_default (slr_model result) ''unknown'',
                      cmr_stopReason = or_default (slr_stopReason result) ''endTurn'',
                      cmr_usage = slr_usage result\<rparr>
           | Rejected (ThrownMcpError e) \<Rightarrow> ReplyError e
           | Rejected (ThrownError m) \<Rightarrow>
               ReplyError \<lparr>err_code = ErrorCode_InternalError,
                           err_message = ''Error in sampling handler: '' @ m,
                           err_data = serverId_data serverId\<rparr>
           | Rejected (ThrownOther v) \<Rightarrow>
               ReplyError \<lparr>err_code = ErrorCode_InternalError,
                           err_message = ''Unknown error in sampling handler'',
                           err_data = serverId_data serverId\<rparr>))"

text \<open>Emitting \<open>samplingRequest\<close> runs every registered listener; the result is what the
  callback receives, one value for each listener.\<close>

definition emit_samplingRequest :: "host_state \<Rightarrow> string \<Rightarrow> json \<Rightarrow> sampling_reply list" where
  "emit_samplingRequest st serverId request =
     replicate (samplingListeners st) (sampling_bridge st serverId request)"

section \<open>The API server (\<open>src/api/api-server.ts\<close>)\<close>

subsection \<open>Configuration\<close>

text \<open>
  \<open>parseInt\<close>: leading white space and a sign are skipped, then the longest run of digits
  of the radix is read; no digit at all gives \<open>NaN\<close>, which is \<open>None\<close>. Without a radix the
  prefix \<open>0x\<close> selects base sixteen.
\<close>

definition is_space :: "char \<Rightarrow> bool" where
  "is_space c = (c \<in> set [CHR '' '', CHR 0x09, CHR 0x0A, CHR 0x0B, CHR 0x0C, CHR 0x0D])"

definition digit_of :: "char \<Rightarrow> nat option" where
  "digit_of c =
     (let n = (of_char c :: nat) in
      if 48 \<le> n \<and> n \<le> 57 then Some (n - 48)
      else if 97 \<le> n \<and> n \<le> 122 then Some (n - 87)
      else if 65 \<le> n \<and> n \<le> 90 then Some (n - 55)
      else None)"

definition is_digit :: "nat \<Rightarrow> char \<Rightarrow> bool" where
  "is_digit radix c = (case digit_of c of None \<Rightarrow> False | Some d \<Rightarrow> d < radix)"

definition digits_value :: "nat \<Rightarrow> string \<Rightarrow> int" where
  "digits_value radix ds =
     foldl (\<lambda>acc c. acc * int radix + int (case digit_of c of None \<Rightarrow> 0 | Some d \<Rightarrow> d)) 0 ds"

definition parse_digits :: "nat \<Rightarrow> bool \<Rightarrow> string \<Rightarrow> int option" where
  "parse_digits radix negative s =
     (let ds = takeWhile (is_digit radix) s in
      if ds = [] then None
      else Some (if negative then - digits_value radix ds else digits_value radix ds))"

fun strip_sign :: "string \<Rightarrow> bool \<times> string" where
  "strip_sign [] = (False, [])"
| "strip_sign (c # cs) =
     (if c = CHR ''-'' then (True, cs) else if c = CHR ''+'' then (False, cs) else (False, c # cs))"

definition parseInt10 :: "string \<Rightarrow> int option" where
  "parseInt10 s = (case strip_sign (dropWhile is_space s) of (neg, t) \<Rightarrow> parse_digits 10 neg t)"

definition parseInt_auto :: "string \<Rightarrow> int option" where
  "parseInt_auto s =
     (case strip_sign (dropWhile is_space s) of
        (neg, t) \<Rightarrow>
          if take 2 t = ''0x'' \<or> take 2 t = ''0X'' then parse_digits 16 neg (drop 2 t)
          else parse_digits 10 neg t)"

text \<open>\<open>process.env.NAME || fallback\<close>: an unset or empty variable gives the fallback.\<close>

definition env_or :: "(string \<Rightarrow> string option) \<Rightarrow> string \<Rightarrow> string \<Rightarrow> string" where
  "env_or env n fallback = or_default (env n) fallback"

definition SAMPLING_REQUEST_TIMEOUT_MS :: "(string \<Rightarrow> string option) \<Rightarrow> int option" where
  "SAMPLING_REQUEST_TIMEOUT_MS env = parseInt10 (env_or env ''OMCPH_SAMPLING_TIMEOUT_MS'' ''30000'')"

definition SESSION_TIMEOUT_MS :: "(string \<Rightarrow> string option) \<Rightarrow> int option" where
  "SESSION_TIMEOUT_MS env = parseInt10 (env_or env ''OMCPH_SESSION_TIMEOUT_MS'' ''3600000'')"

subsection \<open>State\<close>

text \<open>
  A callback is the closure the host passes with a \<open>samplingRequest\<close> event; the model names
  it by a number and records each invocation with its argument in \<open>calls\<close>.
\<close>

type_synonym callback = nat

datatype callback_arg = CbResult json | CbError McpError

record sse_event =
  ev_id :: nat
  ev_name :: string
  ev_data :: json

text \<open>
  An HTTP response object that streams events: whether it is \<open>writable\<close>, whether \<open>write\<close>
  and \<open>end\<close> throw on it, and what has been written to it. The blank line that opens a stream
  and the three lines of one event are one frame each.
\<close>

datatype frame = Blank | EventFrame "nat option" string json

record response =
  writable :: bool
  failing :: bool
  written :: "frame list"

record sse_connection =
  sse_res :: nat
  sse_lastEventId :: int

record SessionState =
  ss_id :: string
  lastActivity :: int
  sseConnection :: "sse_connection option"
  eventQueue :: "sse_event list"
  nextEventId :: nat
  samplingRequests :: "(string \<times> callback) list option"

text \<open>A WebSocket together with the entry \<open>activeConnections\<close> holds for it.\<close>

record ws_peer =
  ws_id :: string
  subscriptions :: "string list"
  ws_samplingRequests :: "(string \<times> callback) list"
  readyOpen :: bool
  ws_sent :: "json list"

datatype sink = WsSink nat | SessionSink nat

record timer =
  tm_delay :: int
  tm_sink :: sink
  tm_requestId :: string
  tm_callback :: callback

text \<open>
  Session objects, sockets and responses live in heaps (lists indexed by address), because
  closures keep them after the maps have dropped them: a timer holds on to the session or
  connection it was armed for. \<open>activeSessions\<close> maps a session id to the address of its
  object; \<open>activeConnections\<close> lists the sockets that are keys of the map, in insertion
  order. The ids of events are JavaScript numbers counting up from 1, which are exact
  integers in the range a counter can reach.
\<close>

record api_state =
  host :: host_state
  hostInfo :: json
  hostCapabilities :: "json option"
  sessions :: "SessionState list"
  activeSessions :: "(string \<times> nat) list"
  peers :: "ws_peer list"
  activeConnections :: "nat list"
  responses :: "response list"
  timers :: "timer list"
  nextCallback :: nat
  calls :: "(callback \<times> callback_arg) list"

definition initial_state :: "host_state \<Rightarrow> json \<Rightarrow> json option \<Rightarrow> api_state" where
  "initial_state h info capabilities =
     \<lparr>host = h, hostInfo = info, hostCapabilities = capabilities, sessions = [],
      activeSessions = [], peers = [], activeConnections = [],
      responses = [], timers = [], nextCallback = 0, calls = []\<rparr>"

definition upd_session :: "nat \<Rightarrow> (SessionState \<Rightarrow> SessionState) \<Rightarrow> api_state \<Rightarrow> api_state" where
  "upd_session a f st = st\<lparr>sessions := (sessions st)[a := f (sessions st ! a)]\<rparr>"

definition upd_peer :: "nat \<Rightarrow> (ws_peer \<Rightarrow> ws_peer) \<Rightarrow> api_state \<Rightarrow> api_state" where
  "upd_peer w f st = st\<lparr>peers := (peers st)[w := f (peers st ! w)]\<rparr>"

definition invoke :: "callback \<Rightarrow> callback_arg \<Rightarrow> api_state \<Rightarrow> api_state" where
  "invoke cb arg st = st\<lparr>calls := calls st @ [(cb, arg)]\<rparr>"

text \<open>\<open>res.write\<close> of one frame and \<open>res.end()\<close>; the flag tells whether the call returned
  rather than threw.\<close>

definition res_write :: "nat \<Rightarrow> frame \<Rightarrow> api_state \<Rightarrow> bool \<times> api_state" where
  "res_write r fr st =
     (if r < length (responses st) \<and> \<not> failing (responses st ! r)
      then (True, st\<lparr>responses := (responses st)[r := (responses st ! r)
                                    \<lparr>written := written (responses st ! r) @ [fr]\<rparr>]\<rparr>)
      else (False, st))"

definition res_end :: "nat \<Rightarrow> api_state \<Rightarrow> bool \<times> api_state" where
  "res_end r st =
     (if r < length (responses st) \<and> \<not> failing (responses st ! r)
      then (True, st\<lparr>responses := (responses st)[r := (responses st ! r)\<lparr>writable := False\<rparr>]\<rparr>)
      else (False, st))"

definition new_response :: "api_state \<Rightarrow> nat \<times> api_state" where
  "new_response st =
     (length (responses st),
      st\<lparr>responses := responses st @ [\<lparr>writable = True, failing = False, written = []\<rparr>]\<rparr>)"

subsection \<open>Sessions\<close>

definition createSession :: "string \<Rightarrow> int \<Rightarrow> api_state \<Rightarrow> nat \<times> api_state" where
  "createSession sessionId now st =
     (length (sessions st),
      st\<lparr>sessions := sessions st @
            [\<lparr>ss_id = sessionId, lastActivity = now, sseConnection = None, eventQueue = [],
              nextEventId = 1, samplingRequests = Some []\<rparr>],
         activeSessions := AList.update sessionId (length (sessions st)) (activeSessions st)\<rparr>)"

definition getSession :: "string \<Rightarrow> int \<Rightarrow> api_state \<Rightarrow> nat option \<times> api_state" where
  "getSession sessionId now st =
     (case map_of (activeSessions st) sessionId of
        None \<Rightarrow> (None, st)
      | Some a \<Rightarrow> (Some a, upd_session a (\<lambda>s. s\<lparr>lastActivity := now\<rparr>) st))"

definition session_closed_error :: McpError where
  "session_closed_error =
     \<lparr>err_code = ErrorCode_InternalError,
      err_message = ''Session closed before sampling request could complete'',
      err_data = None\<rparr>"

definition deleteSession :: "string \<Rightarrow> api_state \<Rightarrow> bool \<times> api_state" where
  "deleteSession sessionId st =
     (case map_of (activeSessions st) sessionId of
        None \<Rightarrow> (False, st)
      | Some a \<Rightarrow>
          (let st1 =
             (case sseConnection (sessions st ! a) of
                None \<Rightarrow> st
              | Some conn \<Rightarrow>
                  (let st2 = snd (res_end (sse_res conn) st) in
                   case samplingRequests (sessions st2 ! a) of
                     None \<Rightarrow> st2
                   | Some pending \<Rightarrow>
                       upd_session a (\<lambda>s. s\<lparr>samplingRequests := Some []\<rparr>)
                         (fold (\<lambda>(requestId, cb). invoke cb (CbError session_closed_error))
                            pending st2)))
           in (True, st1\<lparr>activeSessions := AList.delete sessionId (activeSessions st1)\<rparr>)))"

definition sendEventToSession :: "string \<Rightarrow> string \<Rightarrow> json \<Rightarrow> api_state \<Rightarrow> bool \<times> api_state" where
  "sendEventToSession sessionId eventName data st =
     (case map_of (activeSessions st) sessionId of
        None \<Rightarrow> (False, st)
      | Some a \<Rightarrow>
          (let session = sessions st ! a;
               eventId = nextEventId session;
               queue = eventQueue session @ [\<lparr>ev_id = eventId, ev_name = eventName, ev_data = data\<rparr>];
               st1 = upd_session a
                       (\<lambda>s. s\<lparr>nextEventId := eventId + 1,
                              eventQueue := (if length queue > 100 then tl queue else queue)\<rparr>) st
           in case sseConnection session of
                None \<Rightarrow> (False, st1)
              | Some conn \<Rightarrow>
                  (case res_write (sse_res conn) (EventFrame (Some eventId) eventName data) st1 of
                     (True, st2) \<Rightarrow> (True, st2)
                   | (False, st2) \<Rightarrow> (False, upd_session a (\<lambda>s. s\<lparr>sseConnection := None\<rparr>) st2))))"

text \<open>The cleanup interval: every session idle for longer than the timeout is deleted. A
  timeout that is \<open>NaN\<close> makes the comparison false.\<close>

definition sweep_one :: "int option \<Rightarrow> int \<Rightarrow> string \<Rightarrow> api_state \<Rightarrow> api_state" where
  "sweep_one timeout now sessionId st =
     (case map_of (activeSessions st) sessionId of
        None \<Rightarrow> st
      | Some a \<Rightarrow>
          (case timeout of
             None \<Rightarrow> st
           | Some t \<Rightarrow>
               if now - lastActivity (sessions st ! a) > t then snd (deleteSession sessionId st)
               else st))"

definition cleanup_interval :: "int option \<Rightarrow> int \<Rightarrow> api_state \<Rightarrow> api_state" where
  "cleanup_interval timeout now st = fold (sweep_one timeout now) (map fst (activeSessions st)) st"

text \<open>The relay of a host event to every session.\<close>

definition broadcast :: "string \<Rightarrow> json \<Rightarrow> api_state \<Rightarrow> api_state" where
  "broadcast eventName data st =
     fold (\<lambda>sessionId s. snd (sendEventToSession sessionId eventName data s))
       (map fst (activeSessions st)) st"

subsection \<open>The sampling broker\<close>

definition timeout_error :: McpError where
  "timeout_error =
     \<lparr>err_code = ErrorCode_RequestTimeout,
      err_message = ''Sampling request timed out - no response received'',
      err_data = None\<rparr>"

definition no_client_error :: McpError where
  "no_client_error =
     \<lparr>err_code = ErrorCode_InternalError,
      err_message = ''No active client to handle sampling request'',
      err_data = None\<rparr>"

text \<open>The first socket of \<open>activeConnections\<close> whose \<open>readyState\<close> is \<open>OPEN\<close>, and the first
  session of \<open>activeSessions\<close> that has an SSE connection whose response is writable.\<close>

definition find_open_socket :: "api_state \<Rightarrow> nat option" where
  "find_open_socket st = find (\<lambda>w. readyOpen (peers st ! w)) (activeConnections st)"

definition has_writable_sse :: "api_state \<Rightarrow> nat \<Rightarrow> bool" where
  "has_writable_sse st a =
     (case sseConnection (sessions st ! a) of
        None \<Rightarrow> False
      | Some conn \<Rightarrow> writable (responses st ! sse_res conn))"

definition find_sse_session :: "api_state \<Rightarrow> (string \<times> nat) option" where
  "find_sse_session st = find (\<lambda>(sessionId, a). has_writable_sse st a) (activeSessions st)"

definition sampling_request_message :: "string \<Rightarrow> string \<Rightarrow> json \<Rightarrow> json" where
  "sampling_request_message requestId serverId params =
     JObj [(''type'', JStr ''sampling_request''), (''requestId'', JStr requestId),
           (''serverId'', JStr serverId), (''params'', params)]"

text \<open>
  The listener for \<open>samplingRequest\<close>. \<open>requestId\<close> is what \<open>randomUUID()\<close> returned; the
  callback is the closure the host created for this request, the next unused number. The
  timers are armed with the literal \<open>300000\<close>.
\<close>

definition on_samplingRequest :: "string \<Rightarrow> string \<Rightarrow> json \<Rightarrow> api_state \<Rightarrow> api_state" where
  "on_samplingRequest requestId serverId params st0 =
     (let callback = nextCallback st0;
          st = st0\<lparr>nextCallback := Suc callback\<rparr>
      in case find_open_socket st of
           Some clientWs \<Rightarrow>
             (let st1 = upd_peer clientWs
                          (\<lambda>p. p\<lparr>ws_samplingRequests :=
                                    AList.update requestId callback (ws_samplingRequests p)\<rparr>) st;
                  st2 = st1\<lparr>timers := timers st1 @
                              [\<lparr>tm_delay = 300000, tm_sink = WsSink clientWs,
                                tm_requestId = requestId, tm_callback = callback\<rparr>]\<rparr>
              in upd_peer clientWs
                   (\<lambda>p. p\<lparr>ws_sent := ws_sent p @
                                [sampling_request_message requestId serverId params]\<rparr>) st2)
         | None \<Rightarrow>
             (case find_sse_session st of
                Some (sessionId, a) \<Rightarrow>
                  (let st1 = upd_session a
                               (\<lambda>s. s\<lparr>samplingRequests :=
                                        Some (AList.update requestId callback
                                                (case samplingRequests s of
                                                   None \<Rightarrow> [] | Some pending \<Rightarrow> pending))\<rparr>) st;
                       st2 = st1\<lparr>timers := timers st1 @
                                   [\<lparr>tm_delay = 300000, tm_sink = SessionSink a,
                                     tm_requestId = requestId, tm_callback = callback\<rparr>]\<rparr>
                   in snd (sendEventToSession (ss_id (sessions st2 ! a)) ''sampling_request''
                             (JObj [(''requestId'', JStr requestId), (''serverId'', JStr serverId),
                                    (''params'', params)]) st2))
              | None \<Rightarrow> invoke callback (CbError no_client_error) st))"

text \<open>A timer fires: it leaves the pending timers, and its closure runs.\<close>

definition timer_body :: "timer \<Rightarrow> api_state \<Rightarrow> api_state" where
  "timer_body t st =
     (case tm_sink t of
        WsSink w \<Rightarrow>
          (if map_of (ws_samplingRequests (peers st ! w)) (tm_requestId t) \<noteq> None
           then invoke (tm_callback t) (CbError timeout_error)
                  (upd_peer w (\<lambda>p. p\<lparr>ws_samplingRequests :=
                                       AList.delete (tm_requestId t) (ws_samplingRequests p)\<rparr>) st)
           else st)
      | SessionSink a \<Rightarrow>
          (case samplingRequests (sessions st ! a) of
             None \<Rightarrow> st
           | Some pending \<Rightarrow>
               if map_of pending (tm_requestId t) \<noteq> None
               then invoke (tm_callback t) (CbError timeout_error)
                      (upd_session a (\<lambda>s. s\<lparr>samplingRequests :=
                                              Some (AList.delete (tm_requestId t) pending)\<rparr>) st)
               else st))"

definition fire_timer :: "nat \<Rightarrow> api_state \<Rightarrow> api_state" where
  "fire_timer i st =
     (if i < length (timers st)
      then timer_body (timers st ! i) (st\<lparr>timers := take i (timers st) @ drop (Suc i) (timers st)\<rparr>)
      else st)"

subsection \<open>The WebSocket endpoint\<close>

text \<open>The \<open>connection\<close> handler, for a socket that passed the authentication, and the
  \<open>close\<close> handler; a closed socket is no longer \<open>OPEN\<close>.\<close>

definition ws_connection :: "string \<Rightarrow> api_state \<Rightarrow> nat \<times> api_state" where
  "ws_connection connectionId st =
     (length (peers st),
      st\<lparr>peers := peers st @
            [\<lparr>ws_id = connectionId, subscriptions = [], ws_samplingRequests = [],
              readyOpen = True,
              ws_sent = [JObj [(''type'', JStr ''connection''), (''connectionId'', JStr connectionId),
                               (''message'', JStr ''Connected to MCP API WebSocket Server'')]]\<rparr>],
         activeConnections := activeConnections st @ [length (peers st)]\<rparr>)"

definition ws_close :: "nat \<Rightarrow> api_state \<Rightarrow> api_state" where
  "ws_close w st =
     (upd_peer w (\<lambda>p. p\<lparr>readyOpen := False\<rparr>) st)
       \<lparr>activeConnections := removeAll w (activeConnections st)\<rparr>"

text \<open>The error a \<open>sampling_error\<close> message or request describes:
  \<open>new McpError(error.code, error.message, { data: error.data })\<close>.\<close>

definition reported_error :: "json \<Rightarrow> McpError" where
  "reported_error error =
     \<lparr>err_code = (case get_field error ''code'' of Some (JNum n) \<Rightarrow> n | _ \<Rightarrow> 0),
      err_message = (case get_field error ''message'' of Some (JStr m) \<Rightarrow> m | _ \<Rightarrow> []),
      err_data = Some (JObj (case get_field error ''data'' of
                               None \<Rightarrow> [] | Some d \<Rightarrow> [(''data'', d)]))\<rparr>"

text \<open>\<open>!requestId || !error || typeof error.code !== "number" ||
  typeof error.message !== "string"\<close>.\<close>

definition invalid_error_body :: "json option \<Rightarrow> json option \<Rightarrow> bool" where
  "invalid_error_body requestId error =
     (\<not> truthy requestId \<or> \<not> truthy error
      \<or> (case error of
            None \<Rightarrow> True
          | Some e \<Rightarrow> \<not> is_number (get_field e ''code'') \<or> \<not> is_string (get_field e ''message'')))"

text \<open>\<open>Map.get(requestId)\<close> on a map whose keys are strings: only a string can be found.\<close>

definition lookup_request :: "(string \<times> callback) list \<Rightarrow> json option \<Rightarrow> (string \<times> callback) option" where
  "lookup_request pending requestId =
     (case requestId of
        Some (JStr rid) \<Rightarrow> (case map_of pending rid of None \<Rightarrow> None | Some cb \<Rightarrow> Some (rid, cb))
      | _ \<Rightarrow> None)"

definition handleSamplingResponseMessage :: "nat \<Rightarrow> json \<Rightarrow> api_state \<Rightarrow> api_state" where
  "handleSamplingResponseMessage ws data st =
     (if ws \<notin> set (activeConnections st) then st
      else if \<not> truthy (get_field data ''requestId'') \<or> \<not> truthy (get_field data ''result'')
      then st
      else (case lookup_request (ws_samplingRequests (peers st ! ws)) (get_field data ''requestId'') of
              None \<Rightarrow> st
            | Some (rid, cb) \<Rightarrow>
                upd_peer ws (\<lambda>p. p\<lparr>ws_samplingRequests := AList.delete rid (ws_samplingRequests p)\<rparr>)
                  (invoke cb (CbResult (case get_field data ''result'' of
                                          None \<Rightarrow> JNull | Some r \<Rightarrow> r)) st)))"

definition handleSamplingErrorMessage :: "nat \<Rightarrow> json \<Rightarrow> api_state \<Rightarrow> api_state" where
  "handleSamplingErrorMessage ws data st =
     (if ws \<notin> set (activeConnections st) then st
      else if invalid_error_body (get_field data ''requestId'') (get_field data ''error'') then st
      else (case lookup_request (ws_samplingRequests (peers st ! ws)) (get_field data ''requestId'') of
              None \<Rightarrow> st
            | Some (rid, cb) \<Rightarrow>
                upd_peer ws (\<lambda>p. p\<lparr>ws_samplingRequests := AList.delete rid (ws_samplingRequests p)\<rparr>)
                  (invoke cb (CbError (reported_error
                                         (case get_field data ''error'' of
                                            None \<Rightarrow> JNull | Some e \<Rightarrow> e))) st)))"

definition handleSubscribeMessage :: "nat \<Rightarrow> json \<Rightarrow> api_state \<Rightarrow> api_state" where
  "handleSubscribeMessage ws data st =
     (if ws \<notin> set (activeConnections st) then st
      else (case get_field data ''topic'' of
              Some (JStr topic) \<Rightarrow>
                if topic = [] then st
                else upd_peer ws
                       (\<lambda>p. p\<lparr>subscriptions := set_add topic (subscriptions p),
                              ws_sent := ws_sent p @
                                [JObj [(''type'', JStr ''subscribed''), (''topic'', JStr topic)]]\<rparr>) st
            | _ \<Rightarrow> st))"

definition handleUnsubscribeMessage :: "nat \<Rightarrow> json \<Rightarrow> api_state \<Rightarrow> api_state" where
  "handleUnsubscribeMessage ws data st =
     (if ws \<notin> set (activeConnections st) then st
      else (case get_field data ''topic'' of
              Some (JStr topic) \<Rightarrow>
                if topic = [] then st
                else upd_peer ws
                       (\<lambda>p. p\<lparr>subscriptions := removeAll topic (subscriptions p),
                              ws_sent := ws_sent p @
                                [JObj [(''type'', JStr ''unsubscribed''), (''topic'', JStr topic)]]\<rparr>) st
            | _ \<Rightarrow> st))"

text \<open>The \<open>message\<close> handler, on the parsed message.\<close>

definition ws_message :: "nat \<Rightarrow> json \<Rightarrow> api_state \<Rightarrow> api_state" where
  "ws_message ws data st =
     (case get_field data ''type'' of
        Some (JStr t) \<Rightarrow>
          if t = ''subscribe'' then handleSubscribeMessage ws data st
          else if t = ''unsubscribe'' then handleUnsubscribeMessage ws data st
          else if t = ''sampling_response'' then handleSamplingResponseMessage ws data st
          else if t = ''sampling_error'' then handleSamplingErrorMessage ws data st
          else st
      | _ \<Rightarrow> st)"

subsection \<open>HTTP: replies and JSON-RPC messages\<close>

text \<open>What a handler sends: \<open>res.status(n).json(v)\<close>, \<open>res.status(n).send()\<close>, or the head of
  an event stream (\<open>res.writeHead(200, ...)\<close> with \<open>text/event-stream\<close>) on the response
  object at the given address, which stays open.\<close>

datatype http_reply = Json_reply nat json | Empty_reply nat | Stream_reply nat

definition opt_member :: "string \<Rightarrow> json option \<Rightarrow> (string \<times> json) list" where
  "opt_member k v = (case v of None \<Rightarrow> [] | Some j \<Rightarrow> [(k, j)])"

definition error_reply :: "nat \<Rightarrow> string \<Rightarrow> string \<Rightarrow> http_reply" where
  "error_reply code error message =
     Json_reply code (JObj [(''error'', JStr error), (''message'', JStr message)])"

text \<open>A header that is absent or empty is falsy.\<close>

definition present :: "string option \<Rightarrow> bool" where
  "present h = (case h of None \<Rightarrow> False | Some v \<Rightarrow> v \<noteq> [])"

definition isRequest :: "json \<Rightarrow> bool" where
  "isRequest msg =
     (js_truthy msg \<and> is_string (get_field msg ''method'')
      \<and> get_field msg ''id'' \<noteq> None \<and> get_field msg ''id'' \<noteq> Some JNull)"

definition isNotification :: "json \<Rightarrow> bool" where
  "isNotification msg =
     (js_truthy msg \<and> is_string (get_field msg ''method'') \<and> get_field msg ''id'' = None)"

definition isResponse :: "json \<Rightarrow> bool" where
  "isResponse msg =
     (js_truthy msg \<and> get_field msg ''id'' \<noteq> None
      \<and> (get_field msg ''result'' \<noteq> None \<or> get_field msg ''error'' \<noteq> None))"

definition createErrorResponse :: "json \<Rightarrow> int \<Rightarrow> string \<Rightarrow> json option \<Rightarrow> json" where
  "createErrorResponse i code message data =
     JObj [(''jsonrpc'', JStr ''2.0''), (''id'', i),
           (''error'', JObj ([(''code'', JNum code), (''message'', JStr message)]
                             @ opt_member ''data'' data))]"

definition tool_json :: "AggregatedTool \<Rightarrow> json" where
  "tool_json t =
     JObj ([(''name'', JStr (at_name t))]
           @ opt_member ''description'' (map_option JStr (at_description t))
           @ [(''inputSchema'', at_inputSchema t)]
           @ opt_member ''annotations'' (at_annotations t)
           @ [(''serverId'', JStr (at_serverId t))])"

definition resource_json :: "AggregatedResource \<Rightarrow> json" where
  "resource_json r =
     JObj ([(''uri'', JStr (res_uri r)), (''name'', JStr (res_name r))]
           @ opt_member ''mimeType'' (map_option JStr (res_mimeType r))
           @ opt_member ''size'' (map_option JNum (res_size r))
           @ [(''serverId'', JStr (res_serverId r))])"

definition template_json :: "AggregatedResourceTemplate \<Rightarrow> json" where
  "template_json t =
     JObj ([(''id'', JStr (tpl_id t)), (''name'', JStr (tpl_name t)),
            (''uriTemplate'', JStr (tpl_uriTemplate t))]
           @ opt_member ''description'' (map_option JStr (tpl_description t))
           @ [(''serverId'', JStr (tpl_serverId t))])"

definition prompt_json :: "AggregatedPrompt \<Rightarrow> json" where
  "prompt_json p =
     JObj ([(''name'', JStr (ap_name p))]
           @ opt_member ''description'' (map_option JStr (ap_description p))
           @ opt_member ''arguments'' (ap_arguments p)
           @ [(''serverId'', JStr (ap_serverId p))])"

text \<open>\<open>method.split("/")\<close>, and a part of it inside a template string, where a missing part
  prints as \<open>undefined\<close>.\<close>

fun split_on :: "char \<Rightarrow> string \<Rightarrow> string list" where
  "split_on c [] = [[]]"
| "split_on c (x # xs) =
     (if x = c then [] # split_on c xs
      else (case split_on c xs of
              [] \<Rightarrow> [[x]]
            | seg # segs \<Rightarrow> (x # seg) # segs))"

definition part :: "string list \<Rightarrow> nat \<Rightarrow> string" where
  "part ps i = (if i < length ps then ps ! i else ''undefined'')"

text \<open>The \<open>switch\<close> over the method of a request, with what the \<open>try\<close> block ends in.\<close>

definition dispatch_request :: "host_state \<Rightarrow> string \<Rightarrow> json option \<Rightarrow> json outcome" where
  "dispatch_request h method params =
     (let methodParts = split_on CHR ''/'' method;
          serverId = part methodParts 1;
          toolName = part methodParts 3
      in if method = ''tools/list'' then Resolved (JArr (map tool_json (getTools h)))
         else if method = ''resources/list'' then Resolved (JArr (map resource_json (getResources h)))
         else if method = ''resources/templates/list''
           then Resolved (JArr (map template_json (getResourceTemplates h)))
         else if method = ''prompts/list'' then Resolved (JArr (map prompt_json (getPrompts h)))
         else if method = ''servers/'' @ serverId @ ''/tools/'' @ toolName @ ''/call''
           then callTool serverId
                  (JObj ([(''name'', JStr toolName)] @ opt_member ''arguments'' params)) h
         else if method = ''servers/'' @ serverId @ ''/resource/read''
           then readResource serverId params h
         else if method = ''servers/'' @ serverId @ ''/prompt/get''
           then getPrompt serverId params h
         else Rejected (ThrownMcpError
                          \<lparr>err_code = ErrorCode_MethodNotFound,
                           err_message = ''Method not found: '' @ method,
                           err_data = None\<rparr>))"

definition request_id :: "json \<Rightarrow> json" where
  "request_id msg = (case get_field msg ''id'' of None \<Rightarrow> JNull | Some i \<Rightarrow> i)"

definition request_method :: "json \<Rightarrow> string" where
  "request_method msg = (case get_field msg ''method'' of Some (JStr m) \<Rightarrow> m | _ \<Rightarrow> [])"

definition handle_request :: "host_state \<Rightarrow> json \<Rightarrow> json" where
  "handle_request h message =
     (case dispatch_request h (request_method message) (get_field message ''params'') of
        Resolved result \<Rightarrow>
          JObj [(''jsonrpc'', JStr ''2.0''), (''id'', request_id message), (''result'', result)]
      | Rejected (ThrownMcpError e) \<Rightarrow>
          createErrorResponse (request_id message) (err_code e) (err_message e) (err_data e)
      | Rejected (ThrownError m) \<Rightarrow>
          createErrorResponse (request_id message) ErrorCode_InternalError m None
      | Rejected (ThrownOther v) \<Rightarrow>
          createErrorResponse (request_id message) ErrorCode_InternalError ''Unknown error'' None)"

text \<open>
  \<open>processSingleMessage\<close> gives the response to one message (\<open>None\<close> is \<open>null\<close>) and the
  \<open>Mcp-Session-Id\<close> header it set, if it set one. \<open>uuid\<close> is the id \<open>randomUUID()\<close> returns
  should this message create a session.
\<close>

definition processSingleMessage ::
  "string option \<Rightarrow> int \<Rightarrow> string \<Rightarrow> json \<Rightarrow> api_state
     \<Rightarrow> json option \<times> string option \<times> api_state" where
  "processSingleMessage sessionId now uuid message st =
     (if isRequest message \<and> get_field message ''method'' = Some (JStr ''initialize'') then
        (if present sessionId
         then (Some (createErrorResponse (request_id message) (- 32600)
                       ''Cannot initialize an existing session'' None), None, st)
         else (case createSession uuid now st of
                 (a, st1) \<Rightarrow>
                   (Some (JObj [(''jsonrpc'', JStr ''2.0''), (''id'', request_id message),
                                (''result'',
                                 JObj [(''protocolVersion'', JStr ''2025-03-26''),
                                       (''capabilities'',
                                        (case hostCapabilities st of
                                           None \<Rightarrow> JObj []
                                         | Some c \<Rightarrow> if js_truthy c then c else JObj [])),
                                       (''serverInfo'', hostInfo st)])]),
                    Some uuid, st1)))
      else if \<not> present sessionId
      then (Some (createErrorResponse (if isRequest message then request_id message else JNull)
                    (- 32600) ''Mcp-Session-Id header required after initialization'' None),
            None, st)
      else (case getSession (case sessionId of None \<Rightarrow> [] | Some v \<Rightarrow> v) now st of
              (None, st1) \<Rightarrow>
                (Some (createErrorResponse (if isRequest message then request_id message else JNull)
                         (- 32600) ''Invalid or expired session ID'' None), None, st1)
            | (Some a, st1) \<Rightarrow>
                if isRequest message then (Some (handle_request (host st1) message), None, st1)
                else if isNotification message \<or> isResponse message then (None, None, st1)
                else (Some (createErrorResponse JNull (- 32600)
                              ''Invalid JSON-RPC message structure'' None), None, st1)))"

fun process_batch ::
  "string option \<Rightarrow> int \<Rightarrow> (nat \<Rightarrow> string) \<Rightarrow> nat \<Rightarrow> json list \<Rightarrow> api_state
     \<Rightarrow> json option list \<times> string option \<times> api_state" where
  "process_batch sessionId now uuids i [] st = ([], None, st)"
| "process_batch sessionId now uuids i (m # ms) st =
     (case processSingleMessage sessionId now (uuids i) m st of
        (r, h, st1) \<Rightarrow>
          (case process_batch sessionId now uuids (Suc i) ms st1 of
             (rs, h', st2) \<Rightarrow> (r # rs, (case h' of None \<Rightarrow> h | Some v \<Rightarrow> Some v), st2)))"

definition is_array :: "json \<Rightarrow> bool" where
  "is_array v = (case v of JArr xs \<Rightarrow> True | _ \<Rightarrow> False)"

text \<open>\<open>acceptsSSE && (body.params?.options?.onprogress !== undefined ||
  body.method === "initialize")\<close>.\<close>

definition preferSSE :: "bool \<Rightarrow> json \<Rightarrow> bool" where
  "preferSSE acceptsSSE body =
     (acceptsSSE \<and>
      ((case get_field body ''params'' of
          None \<Rightarrow> False
        | Some params \<Rightarrow>
            (case get_field params ''options'' of
               None \<Rightarrow> False
             | Some options \<Rightarrow> get_field options ''onprogress'' \<noteq> None))
       \<or> get_field body ''method'' = Some (JStr ''initialize'')))"

definition response_payload :: "json \<Rightarrow> json list \<Rightarrow> json" where
  "response_payload body validResponses =
     (if length validResponses = 1 \<and> \<not> is_array body then hd validResponses
      else JArr validResponses)"

text \<open>
  \<open>POST\<close> on the MCP endpoint. The handler is given the \<open>Mcp-Session-Id\<close> header, whether the
  request accepts \<open>text/event-stream\<close>, the parsed body, the time, and the ids \<open>randomUUID()\<close>
  would return for the messages of the body by position. It yields the reply, the
  \<open>Mcp-Session-Id\<close> header of the reply and the new state.
\<close>

definition post_mcp ::
  "string option \<Rightarrow> bool \<Rightarrow> json \<Rightarrow> int \<Rightarrow> (nat \<Rightarrow> string) \<Rightarrow> api_state
     \<Rightarrow> http_reply \<times> string option \<times> api_state" where
  "post_mcp sessionId acceptsSSE body now uuids st0 =
     (case (case body of
              JArr messages \<Rightarrow>
                (list_ex isRequest messages, process_batch sessionId now uuids 0 messages st0)
            | _ \<Rightarrow>
                (isRequest body,
                 (case processSingleMessage sessionId now (uuids 0) body st0 of
                    (r, h, st1) \<Rightarrow> ([r], h, st1)))) of
        (containsRequest, results, header, st) \<Rightarrow>
          (let validResponses = List.map_filter id results in
           if preferSSE acceptsSSE body \<and> present sessionId then
             (case new_response st of
                (res, st1) \<Rightarrow>
                  (let st2 = snd (res_write res Blank st1) in
                   case getSession (case sessionId of None \<Rightarrow> [] | Some v \<Rightarrow> v) now st2 of
                     (None, st3) \<Rightarrow> (Stream_reply res, header, st3)
                   | (Some a, st3) \<Rightarrow>
                       (let st4 = (if length validResponses > 0
                                   then snd (res_write res
                                               (EventFrame None ''response''
                                                  (response_payload body validResponses)) st3)
                                   else st3)
                        in (Stream_reply res, header,
                            upd_session a
                              (\<lambda>s. s\<lparr>sseConnection :=
                                       Some \<lparr>sse_res = res,
                                             sse_lastEventId = int (nextEventId s)\<rparr>\<rparr>) st4))))
           else if \<not> containsRequest then (Empty_reply 202, header, st)
           else if length validResponses = 0 then (Empty_reply 204, header, st)
           else (Json_reply 200 (response_payload body validResponses), header, st)))"

subsection \<open>HTTP: the event stream, session deletion and the sampling endpoints\<close>

definition initialState_data :: "api_state \<Rightarrow> json" where
  "initialState_data st =
     JObj [(''tools'', JArr (map tool_json (getTools (host st)))),
           (''resources'', JArr (map resource_json (getResources (host st)))),
           (''resourceTemplates'', JArr (map template_json (getResourceTemplates (host st)))),
           (''prompts'', JArr (map prompt_json (getPrompts (host st)))),
           (''connectedServers'', JArr (map (\<lambda>(serverId, c). JStr serverId) (clients (host st))))]"

text \<open>The replay of the events a client missed: those of the queue whose id is greater than
  the number in \<open>Last-Event-ID\<close>.\<close>

definition replay_events :: "nat \<Rightarrow> string option \<Rightarrow> sse_event list \<Rightarrow> api_state \<Rightarrow> api_state" where
  "replay_events res lastEventId queue st =
     (if present lastEventId then
        (case parseInt_auto (case lastEventId of None \<Rightarrow> [] | Some v \<Rightarrow> v) of
           None \<Rightarrow> st
         | Some eventIdNum \<Rightarrow>
             fold (\<lambda>event s.
                     if int (ev_id event) > eventIdNum
                     then snd (res_write res
                                 (EventFrame (Some (ev_id event)) (ev_name event) (ev_data event)) s)
                     else s) queue st)
      else st)"

definition get_mcp ::
  "string option \<Rightarrow> string option \<Rightarrow> bool \<Rightarrow> int \<Rightarrow> api_state \<Rightarrow> http_reply \<times> api_state" where
  "get_mcp sessionId lastEventId acceptsSSE now st =
     (if \<not> present sessionId
      then (error_reply 400 ''bad_request'' ''Mcp-Session-Id header required'', st)
      else (case getSession (case sessionId of None \<Rightarrow> [] | Some v \<Rightarrow> v) now st of
              (None, st1) \<Rightarrow> (error_reply 404 ''not_found'' ''Invalid or expired session ID'', st1)
            | (Some a, st1) \<Rightarrow>
                if acceptsSSE then
                  (case new_response st1 of
                     (res, st2) \<Rightarrow>
                       (let st3 = snd (res_write res Blank st2);
                            st4 = replay_events res lastEventId (eventQueue (sessions st3 ! a)) st3;
                            st5 = upd_session a
                                    (\<lambda>s. s\<lparr>sseConnection :=
                                             Some \<lparr>sse_res = res,
                                                   sse_lastEventId = int (nextEventId s) - 1\<rparr>\<rparr>) st4
                        in (Stream_reply res,
                            snd (sendEventToSession (case sessionId of None \<Rightarrow> [] | Some v \<Rightarrow> v)
                                   ''initialState'' (initialState_data st5) st5))))
                else (error_reply 406 ''not_acceptable'' ''Client must accept text/event-stream'',
                      st1)))"

text \<open>The \<open>close\<close> handlers of the two kinds of stream. The one of \<open>GET\<close> holds the session
  object; the one of \<open>POST\<close> looks the session up again by its id.\<close>

definition drop_connection :: "nat \<Rightarrow> nat \<Rightarrow> api_state \<Rightarrow> api_state" where
  "drop_connection a res st =
     (case sseConnection (sessions st ! a) of
        None \<Rightarrow> st
      | Some conn \<Rightarrow>
          if sse_res conn = res then upd_session a (\<lambda>s. s\<lparr>sseConnection := None\<rparr>) st else st)"

definition get_stream_closed :: "nat \<Rightarrow> nat \<Rightarrow> api_state \<Rightarrow> api_state" where
  "get_stream_closed a res st = drop_connection a res st"

definition post_stream_closed :: "string \<Rightarrow> nat \<Rightarrow> int \<Rightarrow> api_state \<Rightarrow> api_state" where
  "post_stream_closed sessionId res now st =
     (case getSession sessionId now st of
        (None, st1) \<Rightarrow> st1
      | (Some a, st1) \<Rightarrow> drop_connection a res st1)"

definition delete_mcp :: "string option \<Rightarrow> api_state \<Rightarrow> http_reply \<times> api_state" where
  "delete_mcp sessionId st =
     (if \<not> present sessionId
      then (error_reply 400 ''bad_request'' ''Mcp-Session-Id header required'', st)
      else (case deleteSession (case sessionId of None \<Rightarrow> [] | Some v \<Rightarrow> v) st of
              (True, st1) \<Rightarrow> (Empty_reply 204, st1)
            | (False, st1) \<Rightarrow> (error_reply 404 ''not_found'' ''Session ID not found'', st1)))"

definition success_reply :: http_reply where
  "success_reply = Json_reply 200 (JObj [(''status'', JStr ''success'')])"

definition post_sampling_response ::
  "string option \<Rightarrow> json \<Rightarrow> int \<Rightarrow> api_state \<Rightarrow> http_reply \<times> api_state" where
  "post_sampling_response sessionId body now st =
     (if \<not> present sessionId
      then (error_reply 400 ''bad_request'' ''Mcp-Session-Id header required'', st)
      else (case getSession (case sessionId of None \<Rightarrow> [] | Some v \<Rightarrow> v) now st of
              (None, st1) \<Rightarrow> (error_reply 404 ''not_found'' ''Invalid or expired session ID'', st1)
            | (Some a, st1) \<Rightarrow>
                if \<not> truthy (get_field body ''requestId'') \<or> \<not> truthy (get_field body ''result'')
                then (error_reply 400 ''bad_request''
                        ''Invalid request body: requestId and result are required'', st1)
                else (case samplingRequests (sessions st1 ! a) of
                        None \<Rightarrow>
                          (error_reply 404 ''not_found''
                             ''No sampling requests registered for this session'', st1)
                      | Some pending \<Rightarrow>
                          (case lookup_request pending (get_field body ''requestId'') of
                             None \<Rightarrow>
                               (error_reply 404 ''not_found''
                                  ''Request ID not found or already handled'', st1)
                           | Some (rid, cb) \<Rightarrow>
                               (success_reply,
                                upd_session a
                                  (\<lambda>s. s\<lparr>samplingRequests := Some (AList.delete rid pending)\<rparr>)
                                  (invoke cb (CbResult (case get_field body ''result'' of
                                                          None \<Rightarrow> JNull | Some r \<Rightarrow> r)) st1))))))"

definition post_sampling_error ::
  "string option \<Rightarrow> json \<Rightarrow> int \<Rightarrow> api_state \<Rightarrow> http_reply \<times> api_state" where
  "post_sampling_error sessionId body now st =
     (if \<not> present sessionId
      then (error_reply 400 ''bad_request'' ''Mcp-Session-Id header required'', st)
      else (case getSession (case sessionId of None \<Rightarrow> [] | Some v \<Rightarrow> v) now st of
              (None, st1) \<Rightarrow> (error_reply 404 ''not_found'' ''Invalid or expired session ID'', st1)
            | (Some a, st1) \<Rightarrow>
                if invalid_error_body (get_field body ''requestId'') (get_field body ''error'')
                then (error_reply 400 ''bad_request''
                        ''Invalid request body: requestId and properly formatted error are required'',
                      st1)
                else (case samplingRequests (sessions st1 ! a) of
                        None \<Rightarrow>
                          (error_reply 404 ''not_found''
                             ''No sampling requests registered for this session'', st1)
                      | Some pending \<Rightarrow>
                          (case lookup_request pending (get_field body ''requestId'') of
                             None \<Rightarrow>
                               (error_reply 404 ''not_found''
                                  ''Request ID not found or already handled'', st1)
                           | Some (rid, cb) \<Rightarrow>
                               (success_reply,
                                upd_session a
                                  (\<lambda>s. s\<lparr>samplingRequests := Some (AList.delete rid pending)\<rparr>)
                                  (invoke cb (CbError (reported_error
                                                         (case get_field body ''error'' of
                                                            None \<Rightarrow> JNull | Some e \<Rightarrow> e))) st1))))))"

subsection \<open>The relay of host events to the sessions\<close>

text \<open>The listeners the server registers on the host: connection, disconnection, capability
  and resource events go to every session, and so do the log events of level \<open>error\<close> or
  \<open>warn\<close>.\<close>

definition relay :: "host_event \<Rightarrow> api_state \<Rightarrow> api_state" where
  "relay ev st =
     (case ev of
        EvServerConnected serverId \<Rightarrow>
          broadcast ''serverConnected'' (JObj [(''serverId'', JStr serverId)]) st
      | EvServerDisconnected serverId error \<Rightarrow>
          broadcast ''serverDisconnected''
            (JObj ([(''serverId'', JStr serverId)]
                   @ opt_member ''error''
                       (map_option (\<lambda>m. JObj [(''message'', JStr m)]) error))) st
      | EvCapabilitiesUpdated \<Rightarrow> broadcast ''capabilitiesUpdated'' (JObj []) st
      | EvResourceUpdated serverId uri \<Rightarrow>
          broadcast ''resourceUpdated''
            (JObj [(''serverId'', JStr serverId), (''uri'', JStr uri)]) st
      | EvLog level message \<Rightarrow>
          if level = ''error'' \<or> level = ''warn''
          then broadcast ''log'' (JObj [(''level'', JStr level), (''message'', JStr message)]) st
          else st
      | EvServerError serverId message \<Rightarrow> st)"

text \<open>The host went from the state the server holds to \<open>h\<close>: the events it emitted on the
  way are relayed.\<close>

definition host_changed :: "host_state \<Rightarrow> api_state \<Rightarrow> api_state" where
  "host_changed h st =
     fold relay (drop (length (emitted (host st))) (emitted h)) (st\<lparr>host := h\<rparr>)"

subsection \<open>HTTP: the roots\<close>

text \<open>The check of the \<open>validateRoots\<close> middleware: the body is an array, and each element
  is a non-null object whose \<open>uri\<close> and \<open>name\<close> are strings. \<open>None\<close> lets the request through,
  otherwise the reply is given.\<close>

definition valid_root :: "json \<Rightarrow> bool" where
  "valid_root r =
     (typeof_object r \<and> r \<noteq> JNull
      \<and> is_string (get_field r ''uri'') \<and> is_string (get_field r ''name''))"

definition validateRoots :: "json \<Rightarrow> http_reply option" where
  "validateRoots roots =
     (case roots of
        JArr rs \<Rightarrow>
          if \<not> list_all valid_root rs
          then Some (error_reply 400 ''invalid_roots''
                       ''Each root must have uri and name properties as strings'')
          else None
      | _ \<Rightarrow>
          Some (error_reply 400 ''invalid_roots''
                  ''Request body must be an array of Root objects''))"

text \<open>\<open>handleHostError\<close> on what \<open>setRoots\<close> throws: both kinds of error are \<open>Error\<close>s and
  none is an \<open>McpError\<close>.\<close>

definition setRoots_error_message :: "setRoots_error \<Rightarrow> string" where
  "setRoots_error_message e =
     (case e of HostError h \<Rightarrow> he_message h | AggregateError errors m \<Rightarrow> m)"

definition post_config_roots :: "json \<Rightarrow> api_state \<Rightarrow> http_reply \<times> api_state" where
  "post_config_roots body st =
     (case validateRoots body of
        Some reply \<Rightarrow> (reply, st)
      | None \<Rightarrow>
          (case setRoots (Some body) (host st) of
             (Inr u, h) \<Rightarrow>
               (Json_reply 200 (JObj [(''message'', JStr ''Roots updated successfully'')]),
                host_changed h st)
           | (Inl e, h) \<Rightarrow>
               (error_reply 500 ''internal_server_error'' (setRoots_error_message e),
                host_changed h st)))"

definition get_config_roots :: "api_state \<Rightarrow> http_reply" where
  "get_config_roots st = Json_reply 200 (JArr (getCurrentRoots (host st)))"

subsection \<open>The server as a machine\<close>

text \<open>
  Everything that can happen to the server: the HTTP requests, the closing of a stream, the
  cleanup interval, what the host reports, a sampling request of a server, a timer that
  fires, and what happens to a WebSocket or to a response object.
\<close>

datatype api_event =
  PostMcp "string option" bool json int "nat \<Rightarrow> string"
| GetMcp "string option" "string option" bool int
| DeleteMcp "string option"
| PostSamplingResponse "string option" json int
| PostSamplingError "string option" json int
| PostConfigRoots json
| GetStreamClosed nat nat
| PostStreamClosed string nat int
| CleanupInterval int
| ServerConnected string Client
| ServerDisconnected string close_info
| ResourceUpdated string string
| SamplingRequest string string json
| TimerFires nat
| WsConnection string
| WsClose nat
| WsMessage nat json
| SocketLeavesOpen nat
| ResponseBecomes nat bool bool

text \<open>One step; \<open>timeout\<close> is \<open>SESSION_TIMEOUT_MS\<close>.\<close>

fun step :: "int option \<Rightarrow> api_event \<Rightarrow> api_state \<Rightarrow> api_state" where
  "step timeout (PostMcp sessionId acceptsSSE body now uuids) st =
     snd (snd (post_mcp sessionId acceptsSSE body now uuids st))"
| "step timeout (GetMcp sessionId lastEventId acceptsSSE now) st =
     snd (get_mcp sessionId lastEventId acceptsSSE now st)"
| "step timeout (DeleteMcp sessionId) st = snd (delete_mcp sessionId st)"
| "step timeout (PostSamplingResponse sessionId body now) st =
     snd (post_sampling_response sessionId body now st)"
| "step timeout (PostSamplingError sessionId body now) st =
     snd (post_sampling_error sessionId body now st)"
| "step timeout (PostConfigRoots body) st = snd (post_config_roots body st)"
| "step timeout (GetStreamClosed a res) st = get_stream_closed a res st"
| "step timeout (PostStreamClosed sessionId res now) st = post_stream_closed sessionId res now st"
| "step timeout (CleanupInterval now) st = cleanup_interval timeout now st"
| "step timeout (ServerConnected serverId client) st =
     host_changed (connectToServer_connected serverId client (host st)) st"
| "step timeout (ServerDisconnected serverId error) st =
     host_changed (handleServerDisconnection serverId error (host st)) st"
| "step timeout (ResourceUpdated serverId uri) st =
     host_changed (on_resourceUpdated serverId uri (host st)) st"
| "step timeout (SamplingRequest requestId serverId params) st =
     on_samplingRequest requestId serverId params st"
| "step timeout (TimerFires i) st = fire_timer i st"
| "step timeout (WsConnection connectionId) st = snd (ws_connection connectionId st)"
| "step timeout (WsClose w) st = ws_close w st"
| "step timeout (WsMessage w data) st = ws_message w data st"
| "step timeout (SocketLeavesOpen w) st = upd_peer w (\<lambda>p. p\<lparr>readyOpen := False\<rparr>) st"
| "step timeout (ResponseBecomes r w f) st =
     st\<lparr>responses := (responses st)[r := (responses st ! r)\<lparr>writable := w, failing := f\<rparr>]\<rparr>"

definition run :: "int option \<Rightarrow> api_event list \<Rightarrow> api_state \<Rightarrow> api_state" where
  "run timeout evs st = foldl (\<lambda>s ev. step timeout ev s) st evs"

text \<open>The request ids \<open>randomUUID()\<close> returned to the sampling broker during a run.\<close>

fun request_ids :: "api_event list \<Rightarrow> string list" where
  "request_ids [] = []"
| "request_ids (SamplingRequest requestId serverId params # evs) = requestId # request_ids evs"
| "request_ids (ev # evs) = request_ids evs"

subsection \<open>Invariants of the event queues\<close>

text \<open>A session's queue holds the events with the ids just below \<open>nextEventId\<close>, without a
  gap, and at most one hundred of them.\<close>

definition queue_ok :: "SessionState \<Rightarrow> bool" where
  "queue_ok s = (1 \<le> nextEventId s
     \<and> map ev_id (eventQueue s) = [nextEventId s - length (eventQueue s) ..< nextEventId s]
     \<and> length (eventQueue s) = min 100 (nextEventId s - 1))"

definition queues_ok :: "api_state \<Rightarrow> bool" where
  "queues_ok st = list_all queue_ok (sessions st)"

text \<open>The events a list of sends produces in a new session, numbered from 1.\<close>

definition numbered :: "(string \<times> json) list \<Rightarrow> sse_event list" where
  "numbered sends = map (\<lambda>(i, (n, d)). \<lparr>ev_id = Suc i, ev_name = n, ev_data = d\<rparr>) (enumerate 0 sends)"

subsection \<open>Inputs used in examples, and the input check of the roots as the specification words it\<close>

text \<open>An \<open>initialize\<close> request, and the pending sampling requests of the session object at
  an address.\<close>

definition initialize_body :: json where
  "initialize_body = JObj [(''jsonrpc'', JStr ''2.0''), (''id'', JStr ''1''), (''method'', JStr ''initialize'')]"

definition samplingRequests_of :: "api_state \<Rightarrow> nat \<Rightarrow> (string \<times> callback) list" where
  "samplingRequests_of st a = (case samplingRequests (sessions st ! a) of None \<Rightarrow> [] | Some m \<Rightarrow> m)"

text \<open>The specification's wording: a non-null array of objects, each with a string \<open>uri\<close>
  and a string \<open>name\<close>.\<close>

definition spec_root_object :: "json \<Rightarrow> bool" where
  "spec_root_object r =
     (case r of
        JObj members \<Rightarrow> is_string (get_field r ''uri'') \<and> is_string (get_field r ''name'')
      | _ \<Rightarrow> False)"

definition spec_roots_input_ok :: "json option \<Rightarrow> bool" where
  "spec_roots_input_ok roots =
     (case roots of Some (JArr rs) \<Rightarrow> list_all spec_root_object rs | _ \<Rightarrow> False)"

subsection \<open>The bookkeeping of the sampling broker\<close>

text \<open>The timer the listener arms for a request, and the requests a sink holds: the
  \<open>samplingRequests\<close> map of a socket's connection object or of a session object, found by
  its address, whether or not \<open>activeConnections\<close> or \<open>activeSessions\<close> still lists it.\<close>

definition the_timer :: "sink \<Rightarrow> string \<Rightarrow> callback \<Rightarrow> timer" where
  "the_timer k rid c = \<lparr>tm_delay = 300000, tm_sink = k, tm_requestId = rid, tm_callback = c\<rparr>"

definition pending :: "api_state \<Rightarrow> sink \<Rightarrow> (string \<times> callback) list" where
  "pending st k =
     (case k of
        WsSink w \<Rightarrow> if w < length (peers st) then ws_samplingRequests (peers st ! w) else []
      | SessionSink a \<Rightarrow> if a < length (sessions st) then samplingRequests_of st a else [])"

text \<open>Every address in \<open>activeConnections\<close>, in \<open>activeSessions\<close> and in a pending timer is the
  address of an object that was created.\<close>

definition sink_ok :: "api_state \<Rightarrow> sink \<Rightarrow> bool" where
  "sink_ok st k =
     (case k of WsSink w \<Rightarrow> w < length (peers st) | SessionSink a \<Rightarrow> a < length (sessions st))"

definition refs_ok :: "api_state \<Rightarrow> bool" where
  "refs_ok st =
     (list_all (\<lambda>w. w < length (peers st)) (activeConnections st)
      \<and> list_all (\<lambda>p. snd p < length (sessions st)) (activeSessions st)
      \<and> list_all (\<lambda>t. sink_ok st (tm_sink t)) (timers st))"

text \<open>The invariant of the broker, on the request ids \<open>R\<close> given out so far, the pending
  requests \<open>P\<close> of every sink, the invocations \<open>C\<close>, the pending timers \<open>T\<close> and the
  number \<open>N\<close> of callbacks created: no callback was invoked twice; every pending request
  holds a callback that was created and not invoked, under an id that was given out, and
  its timer is still pending; no callback is held twice; every callback that was created
  was invoked or is held; and a pending timer whose request is still held carries the
  callback of that request.\<close>

definition binv ::
  "string set \<Rightarrow> (sink \<Rightarrow> (string \<times> callback) list) \<Rightarrow> (callback \<times> callback_arg) list
     \<Rightarrow> timer list \<Rightarrow> nat \<Rightarrow> bool" where
  "binv R P C T N =
     (distinct (map fst C)
      \<and> (\<forall>c\<in>fst ` set C. c < N)
      \<and> (\<forall>k. distinct (map fst (P k)))
      \<and> (\<forall>k rid c. (rid, c) \<in> set (P k) \<longrightarrow>
            c < N \<and> c \<notin> fst ` set C \<and> rid \<in> R \<and> the_timer k rid c \<in> set T)
      \<and> (\<forall>k rid k' rid' c. (rid, c) \<in> set (P k) \<and> (rid', c) \<in> set (P k') \<longrightarrow> k = k' \<and> rid = rid')
      \<and> (\<forall>c<N. c \<in> fst ` set C \<or> (\<exists>k rid. (rid, c) \<in> set (P k)))
      \<and> (\<forall>t\<in>set T. tm_requestId t \<in> R
            \<and> (\<forall>c. (tm_requestId t, c) \<in> set (P (tm_sink t)) \<longrightarrow> c = tm_callback t)))"

text \<open>A handler keeps the broker's data when it leaves all of it as it was.\<close>

definition keeps ::
  "(sink \<Rightarrow> (string \<times> callback) list) \<Rightarrow> (callback \<times> callback_arg) list \<Rightarrow> timer list \<Rightarrow> nat
     \<Rightarrow> api_state \<Rightarrow> bool" where
  "keeps P C T N st =
     (pending st = P \<and> calls st = C \<and> timers st = T \<and> nextCallback st = N \<and> refs_ok st)"

definition broker_inv :: "string set \<Rightarrow> api_state \<Rightarrow> bool" where
  "broker_inv R st =
     (binv R (pending st) (calls st) (timers st) (nextCallback st) \<and> refs_ok st)"

subsection \<open>How a queue changes between two states\<close>

text \<open>The events a list of sends produces when the first of them gets the id \<open>i\<close>.\<close>

definition stamped :: "nat \<Rightarrow> (string \<times> json) list \<Rightarrow> sse_event list" where
  "stamped i sends = map (\<lambda>(k, (n, d)). \<lparr>ev_id = k, ev_name = n, ev_data = d\<rparr>) (enumerate i sends)"

text \<open>A session object \<open>s'\<close> comes from \<open>s\<close> by sends: some events were appended to the queue,
  numbered from the \<open>nextEventId\<close> of \<open>s\<close> on, the counter moved past them, and the queue was
  cut to its last 100 entries.\<close>

definition grows :: "SessionState \<Rightarrow> SessionState \<Rightarrow> bool" where
  "grows s s' =
     (\<exists>sends. nextEventId s' = nextEventId s + length sends
        \<and> eventQueue s' = drop (length (eventQueue s) + length sends - 100)
                            (eventQueue s @ stamped (nextEventId s) sends))"

text \<open>A state of the server that comes from \<open>st0\<close> in this way at every address of \<open>st0\<close>, and
  whose queues are in order.\<close>

definition tracks :: "api_state \<Rightarrow> api_state \<Rightarrow> bool" where
  "tracks st0 st =
     (queues_ok st \<and> length (sessions st0) \<le> length (sessions st)
      \<and> (\<forall>a<length (sessions st0). grows (sessions st0 ! a) (sessions st ! a)))"

section \<open>Properties of the resolver\<close>

lemma sorted_neg_confidence:
  "sorted (map (\<lambda>s. - sg_confidence s) xs) = sorted_wrt (\<lambda>a b. b \<le> a) (map sg_confidence xs)"
  by (induction xs) auto

lemma sort_by_confidence_sorted:
  "sorted_wrt (\<lambda>a b. b \<le> a) (map sg_confidence (sort_by_confidence xs))"
  unfolding sort_by_confidence_def sorted_neg_confidence [symmetric] by (rule sorted_sort_key)

lemma sort_by_confidence_const:
  assumes "\<forall>s\<in>set xs. sg_confidence s = c"
  shows "sort_by_confidence xs = xs"
proof -
  have "sorted (map (\<lambda>s. - sg_confidence s) xs)"
    using assms by (induction xs) auto
  then show ?thesis
    unfolding sort_by_confidence_def by (rule sort_key_id_if_sorted)
qed

lemma exact_matches_confidence: "\<forall>s\<in>set (exact_matches uri rs). sg_confidence s = 1"
  by (auto simp: exact_matches_def)

lemma template_matches_Inr_iff:
  "(\<exists>results. template_matches rx uri ts = Inr results)
     \<longleftrightarrow> (\<forall>t\<in>set ts. tpl_uriTemplate t \<noteq> []
            \<longrightarrow> canMatchTemplate rx uri (tpl_uriTemplate t) \<noteq> None)"
  by (induction ts) (auto split: option.splits sum.splits)

lemma template_matches_Inl:
  "template_matches rx uri ts = Inl e \<Longrightarrow>
   \<exists>t\<in>set ts. tpl_uriTemplate t \<noteq> [] \<and> canMatchTemplate rx uri (tpl_uriTemplate t) = None
      \<and> e = SyntaxError (''^'' @ replace_placeholders (tpl_uriTemplate t) @ ''$'')"
  by (induction ts) (auto split: option.splits sum.splits if_splits)

lemma resolve_returns_iff:
  "(\<exists>results. resolveResourceServer rx uri rs ts = Inr results)
     \<longleftrightarrow> ((\<exists>r\<in>set rs. res_uri r = uri)
          \<or> (\<forall>t\<in>set ts. tpl_uriTemplate t \<noteq> []
                \<longrightarrow> canMatchTemplate rx uri (tpl_uriTemplate t) \<noteq> None))"
proof (cases "\<exists>r\<in>set rs. res_uri r = uri")
  case True
  then have "filter (\<lambda>r. res_uri r = uri) rs \<noteq> []" by (auto simp: filter_empty_conv)
  then have "exact_matches uri rs \<noteq> []" by (simp add: exact_matches_def)
  with True show ?thesis by (simp add: resolveResourceServer_def Let_def)
next
  case False
  then have "filter (\<lambda>r. res_uri r = uri) rs = []" by (auto simp: filter_empty_conv)
  then have e: "exact_matches uri rs = []" by (simp add: exact_matches_def)
  have "(\<exists>results. resolveResourceServer rx uri rs ts = Inr results)
          \<longleftrightarrow> (\<exists>results. template_matches rx uri ts = Inr results)"
    using e by (auto simp: resolveResourceServer_def Let_def split: sum.splits)
  with False show ?thesis by (simp add: template_matches_Inr_iff)
qed

lemma resolve_throws:
  assumes "resolveResourceServer rx uri rs ts = Inl e"
  shows "\<exists>t\<in>set ts. tpl_uriTemplate t \<noteq> [] \<and> canMatchTemplate rx uri (tpl_uriTemplate t) = None
           \<and> e = SyntaxError (''^'' @ replace_placeholders (tpl_uriTemplate t) @ ''$'')"
proof -
  from assms have "template_matches rx uri ts = Inl e"
    by (auto simp: resolveResourceServer_def Let_def split: sum.splits if_splits)
  then show ?thesis by (rule template_matches_Inl)
qed

text \<open>
  Claim C5, amended. Whatever the target URI, the resources and the templates, a list that
  \<open>resolveResourceServer\<close> returns is sorted by non-increasing confidence. If some resource has
  exactly the target URI, the function returns, and the list is made of one entry for each
  such resource, in their order, each of match type \<open>exact\<close> and confidence 1, and of nothing
  else. The function returns a list exactly when some resource has the target URI or the
  regular-expression engine accepts the pattern of every template whose \<open>uriTemplate\<close> is
  not empty; when it does not return, it throws the syntax error of the engine for the
  pattern of such a template.
\<close>

theorem resolveResourceServer_sorted_exact:
  "(\<forall>results. resolveResourceServer rx uri rs ts = Inr results
       \<longrightarrow> sorted_wrt (\<lambda>a b. b \<le> a) (map sg_confidence results))
   \<and> ((\<exists>r\<in>set rs. res_uri r = uri) \<longrightarrow>
        resolveResourceServer rx uri rs ts =
          Inr (map (\<lambda>r. \<lparr>sg_serverId = res_serverId r, sg_confidence = 1, sg_matchType = Exact\<rparr>)
                 (filter (\<lambda>r. res_uri r = uri) rs)))
   \<and> ((\<exists>results. resolveResourceServer rx uri rs ts = Inr results)
        \<longleftrightarrow> ((\<exists>r\<in>set rs. res_uri r = uri)
             \<or> (\<forall>t\<in>set ts. tpl_uriTemplate t \<noteq> []
                   \<longrightarrow> canMatchTemplate rx uri (tpl_uriTemplate t) \<noteq> None)))
   \<and> (\<forall>e. resolveResourceServer rx uri rs ts = Inl e
        \<longrightarrow> (\<exists>t\<in>set ts. tpl_uriTemplate t \<noteq> []
               \<and> canMatchTemplate rx uri (tpl_uriTemplate t) = None
               \<and> e = SyntaxError (''^'' @ replace_placeholders (tpl_uriTemplate t) @ ''$'')))"
proof (intro conjI allI impI)
  fix results
  assume "resolveResourceServer rx uri rs ts = Inr results"
  then show "sorted_wrt (\<lambda>a b. b \<le> a) (map sg_confidence results)"
    by (auto simp: resolveResourceServer_def Let_def sort_by_confidence_sorted
             split: if_splits sum.splits)
next
  assume "\<exists>r\<in>set rs. res_uri r = uri"
  then have "filter (\<lambda>r. res_uri r = uri) rs \<noteq> []"
    by (auto simp: filter_empty_conv)
  then have nonempty: "exact_matches uri rs \<noteq> []"
    by (simp add: exact_matches_def)
  have "sort_by_confidence (exact_matches uri rs) = exact_matches uri rs"
    using exact_matches_confidence by (rule sort_by_confidence_const)
  with nonempty have "resolveResourceServer rx uri rs ts = Inr (exact_matches uri rs)"
    by (simp add: resolveResourceServer_def Let_def)
  then show "resolveResourceServer rx uri rs ts =
          Inr (map (\<lambda>r. \<lparr>sg_serverId = res_serverId r, sg_confidence = 1, sg_matchType = Exact\<rparr>)
                 (filter (\<lambda>r. res_uri r = uri) rs))"
    by (simp add: exact_matches_def)
next
  show "(\<exists>results. resolveResourceServer rx uri rs ts = Inr results)
        \<longleftrightarrow> ((\<exists>r\<in>set rs. res_uri r = uri)
             \<or> (\<forall>t\<in>set ts. tpl_uriTemplate t \<noteq> []
                   \<longrightarrow> canMatchTemplate rx uri (tpl_uriTemplate t) \<noteq> None))"
    by (rule resolve_returns_iff)
next
  fix e
  assume "resolveResourceServer rx uri rs ts = Inl e"
  then show "\<exists>t\<in>set ts. tpl_uriTemplate t \<noteq> []
               \<and> canMatchTemplate rx uri (tpl_uriTemplate t) = None
               \<and> e = SyntaxError (''^'' @ replace_placeholders (tpl_uriTemplate t) @ ''$'')"
    by (rule resolve_throws)
qed

text \<open>The theorem at two servers that both list the target, a template that does not
  match it, and an engine that accepts every pattern.\<close>

theorem resolveResourceServer_sorted_exact_witness:
  "resolveResourceServer (\<lambda>p u. Some False) ''file:///x.txt''
     [\<lparr>res_serverId = ''A'', res_uri = ''file:///x.txt'', res_name = ''x'',
       res_mimeType = None, res_size = None\<rparr>,
      \<lparr>res_serverId = ''B'', res_uri = ''file:///x.txt'', res_name = ''x'',
       res_mimeType = None, res_size = None\<rparr>]
     [\<lparr>tpl_serverId = ''T'', tpl_id = ''t'', tpl_name = ''t'',
       tpl_uriTemplate = ''file:///dynamic/{id}.txt'', tpl_description = None\<rparr>]
   = Inr [\<lparr>sg_serverId = ''A'', sg_confidence = 1, sg_matchType = Exact\<rparr>,
          \<lparr>sg_serverId = ''B'', sg_confidence = 1, sg_matchType = Exact\<rparr>]
   \<and> sorted_wrt (\<lambda>a b. b \<le> a)
       (map sg_confidence [\<lparr>sg_serverId = ''A'', sg_confidence = 1, sg_matchType = Exact\<rparr>,
                           \<lparr>sg_serverId = ''B'', sg_confidence = 1, sg_matchType = Exact\<rparr>])
   \<and> canMatchTemplate (\<lambda>p u. Some False) ''file:///x.txt'' ''file:///dynamic/{id}.txt'' \<noteq> None"
  using resolveResourceServer_sorted_exact
    [of "\<lambda>p u. Some False" "''file:///x.txt''"
        "[\<lparr>res_serverId = ''A'', res_uri = ''file:///x.txt'', res_name = ''x'',
           res_mimeType = None, res_size = None\<rparr>,
          \<lparr>res_serverId = ''B'', res_uri = ''file:///x.txt'', res_name = ''x'',
           res_mimeType = None, res_size = None\<rparr>]"
        "[\<lparr>tpl_serverId = ''T'', tpl_id = ''t'', tpl_name = ''t'',
           tpl_uriTemplate = ''file:///dynamic/{id}.txt'', tpl_description = None\<rparr>]"]
  by (simp add: canMatchTemplate_def)

text \<open>
  Claim C5, as stated, fails where no resource has the target URI and a template is not a
  well-formed regular expression once its placeholders are replaced: the function does not
  return a list, it throws. The template \<open>file:///(\<close> gives the pattern \<open>^file:///($\<close>, whose
  group is never closed.
\<close>

theorem resolveResourceServer_throws:
  "resolveResourceServer (strict_engine (\<lambda>p u. False)) ''file:///x.txt'' []
     [\<lparr>tpl_serverId = ''T'', tpl_id = ''t'', tpl_name = ''t'',
       tpl_uriTemplate = ''file:///('', tpl_description = None\<rparr>]
   = Inl (SyntaxError ''^file:///($'')"
  by (simp add: resolveResourceServer_def exact_matches_def canMatchTemplate_def
        strict_engine_def rejected_pattern_def)

section \<open>Properties of the host library\<close>

lemma notify_roots_currentRoots:
  "currentRoots (fst (notify_roots cs st errors)) = currentRoots st"
  by (induction cs st errors rule: notify_roots.induct)
     (auto simp: host_log_def emit_def Let_def split: outcome.splits)

text \<open>
  Claim C2. For every array \<open>r\<close>, when \<open>setRoots(r)\<close> has returned, \<open>getCurrentRoots()\<close> is
  \<open>r\<close>, and the call either succeeded or threw the aggregate error with at least one
  per-server failure in it; it never threw the host error of the input check.
\<close>

theorem setRoots_replaces_roots:
  "getCurrentRoots (snd (setRoots (Some (JArr r)) st)) = r
   \<and> (case fst (setRoots (Some (JArr r)) st) of
        Inr u \<Rightarrow> True
      | Inl (AggregateError errors m) \<Rightarrow> 0 < length errors
      | Inl (HostError e) \<Rightarrow> False)"
proof -
  obtain st' errors where
    n: "notify_roots (clients st) (st\<lparr>currentRoots := r\<rparr>) [] = (st', errors)"
    by (cases "notify_roots (clients st) (st\<lparr>currentRoots := r\<rparr>) []") auto
  have "currentRoots st' = r"
    using notify_roots_currentRoots [of "clients st" "st\<lparr>currentRoots := r\<rparr>" "[]"] n by simp
  then show ?thesis
    using n by (simp add: setRoots_def getCurrentRoots_def)
qed

text \<open>
  Claim C10. After \<open>setSamplingHandler(h)\<close>, each value the callback of a sampling request
  receives is determined by how \<open>h\<close> ends. A result that is not an error becomes a
  \<open>CreateMessageResult\<close> with role \<open>assistant\<close>, the text content of the result, the model or
  \<open>unknown\<close> when the model is absent (or empty), the stop reason or \<open>endTurn\<close> when it is
  absent (or empty), and the usage. An \<open>McpError\<close> that \<open>h\<close> returns or throws is passed on
  unchanged. Anything else \<open>h\<close> throws becomes an \<open>McpError\<close> with the code \<open>InternalError\<close>.
  The callback receives one value for each time \<open>setSamplingHandler\<close> was called.
\<close>

theorem sampling_bridge_mapping:
  "emit_samplingRequest (setSamplingHandler h st) sid req =
     replicate (Suc (samplingListeners st))
       (case h sid req of
          Resolved (HResult r) \<Rightarrow>
            Reply \<lparr>cmr_role = ''assistant'',
                   cmr_content = \<lparr>tc_type = ''text'', tc_text = slr_content r\<rparr>,
                   cmr_model = (case slr_model r of
                                  None \<Rightarrow> ''unknown''
                                | Some m \<Rightarrow> if m = [] then ''unknown'' else m),
                   cmr_stopReason = (case slr_stopReason r of
                                       None \<Rightarrow> ''endTurn''
                                     | Some m \<Rightarrow> if m = [] then ''endTurn'' else m),
                   cmr_usage = slr_usage r\<rparr>
        | Resolved (HError e) \<Rightarrow> ReplyError e
        | Rejected (ThrownMcpError e) \<Rightarrow> ReplyError e
        | Rejected (ThrownError m) \<Rightarrow>
            ReplyError \<lparr>err_code = ErrorCode_InternalError,
                        err_message = ''Error in sampling handler: '' @ m,
                        err_data = Some (JObj [(''data'', JObj [(''serverId'', JStr sid)])])\<rparr>
        | Rejected (ThrownOther v) \<Rightarrow>
            ReplyError \<lparr>err_code = ErrorCode_InternalError,
                        err_message = ''Unknown error in sampling handler'',
                        err_data = Some (JObj [(''data'', JObj [(''serverId'', JStr sid)])])\<rparr>)"
  by (simp add: emit_samplingRequest_def setSamplingHandler_def sampling_bridge_def
        or_default_def serverId_data_def
      split: outcome.splits handler_result.splits js_thrown.splits option.splits)

section \<open>Properties of the API server: event queues\<close>



lemma queues_ok_sessions_eq: "sessions st' = sessions st \<Longrightarrow> queues_ok st' = queues_ok st"
  by (simp add: queues_ok_def)


lemma queues_ok_res_write [simp]: "queues_ok (snd (res_write r fr st)) = queues_ok st"
  by (simp add: res_write_def queues_ok_def)

lemma queues_ok_res_end [simp]: "queues_ok (snd (res_end r st)) = queues_ok st"
  by (simp add: res_end_def queues_ok_def)

lemma queues_ok_invoke [simp]: "queues_ok (invoke cb arg st) = queues_ok st"
  by (simp add: invoke_def queues_ok_def)

lemma queues_ok_upd_peer [simp]: "queues_ok (upd_peer w f st) = queues_ok st"
  by (simp add: upd_peer_def queues_ok_def)

lemma queues_ok_fields [simp]:
  "queues_ok (st\<lparr>responses := r\<rparr>) = queues_ok st"
  "queues_ok (st\<lparr>timers := t\<rparr>) = queues_ok st"
  "queues_ok (st\<lparr>calls := c\<rparr>) = queues_ok st"
  "queues_ok (st\<lparr>nextCallback := n\<rparr>) = queues_ok st"
  "queues_ok (st\<lparr>activeSessions := a\<rparr>) = queues_ok st"
  "queues_ok (st\<lparr>activeConnections := ac\<rparr>) = queues_ok st"
  "queues_ok (st\<lparr>peers := p\<rparr>) = queues_ok st"
  "queues_ok (st\<lparr>host := h\<rparr>) = queues_ok st"
  by (simp_all add: queues_ok_def)



lemma queue_ok_sseConnection [simp]: "queue_ok (s\<lparr>sseConnection := c\<rparr>) = queue_ok s"
  by (simp add: queue_ok_def)

lemma queue_ok_lastActivity [simp]: "queue_ok (s\<lparr>lastActivity := c\<rparr>) = queue_ok s"
  by (simp add: queue_ok_def)

lemma queue_ok_samplingRequests [simp]: "queue_ok (s\<lparr>samplingRequests := c\<rparr>) = queue_ok s"
  by (simp add: queue_ok_def)











lemma queues_ok_new_response [simp]: "queues_ok (snd (new_response st)) = queues_ok st"
  by (simp add: new_response_def queues_ok_def)





















lemma length_numbered [simp]: "length (numbered sends) = length sends"
  by (simp add: numbered_def)


subsection \<open>The queue of a session between two states of a run\<close>

lemma length_stamped [simp]: "length (stamped i sends) = length sends"
  by (simp add: stamped_def)









lemma grows_sseConnection [simp]: "grows s0 (s\<lparr>sseConnection := c\<rparr>) = grows s0 s"
  by (simp add: grows_def)

lemma grows_lastActivity [simp]: "grows s0 (s\<lparr>lastActivity := c\<rparr>) = grows s0 s"
  by (simp add: grows_def)

lemma grows_samplingRequests [simp]: "grows s0 (s\<lparr>samplingRequests := c\<rparr>) = grows s0 s"
  by (simp add: grows_def)



lemma tracks_sessions_eq: "sessions st' = sessions st \<Longrightarrow> tracks st0 st' = tracks st0 st"
  by (simp add: tracks_def queues_ok_def)

lemma tracks_res_write [simp]: "tracks st0 (snd (res_write r fr st)) = tracks st0 st"
  by (rule tracks_sessions_eq) (simp add: res_write_def)

lemma tracks_res_end [simp]: "tracks st0 (snd (res_end r st)) = tracks st0 st"
  by (rule tracks_sessions_eq) (simp add: res_end_def)

lemma tracks_new_response [simp]: "tracks st0 (snd (new_response st)) = tracks st0 st"
  by (rule tracks_sessions_eq) (simp add: new_response_def)

lemma tracks_invoke [simp]: "tracks st0 (invoke cb arg st) = tracks st0 st"
  by (rule tracks_sessions_eq) (simp add: invoke_def)

lemma tracks_upd_peer [simp]: "tracks st0 (upd_peer w f st) = tracks st0 st"
  by (rule tracks_sessions_eq) (simp add: upd_peer_def)

lemma tracks_fields [simp]:
  "tracks st0 (st\<lparr>responses := r\<rparr>) = tracks st0 st"
  "tracks st0 (st\<lparr>timers := t\<rparr>) = tracks st0 st"
  "tracks st0 (st\<lparr>calls := c\<rparr>) = tracks st0 st"
  "tracks st0 (st\<lparr>nextCallback := n\<rparr>) = tracks st0 st"
  "tracks st0 (st\<lparr>activeSessions := a\<rparr>) = tracks st0 st"
  "tracks st0 (st\<lparr>activeConnections := ac\<rparr>) = tracks st0 st"
  "tracks st0 (st\<lparr>peers := p\<rparr>) = tracks st0 st"
  "tracks st0 (st\<lparr>host := h\<rparr>) = tracks st0 st"
  by (simp_all add: tracks_def queues_ok_def)





























lemmas eval_defs = run_def post_mcp_def processSingleMessage_def isRequest_def present_def
      createSession_def initial_state_def preferSSE_def List.map_filter_def response_payload_def is_array_def
      host_changed_def on_resourceUpdated_def new_host_def emit_def host_log_def relay_def broadcast_def
      sendEventToSession_def upd_session_def Let_def request_id_def


section \<open>Properties of the aggregation\<close>

text \<open>
  Claim C4. Two servers with distinct ids are to keep their entries apart. The keys of the
  aggregated maps are the server id and the name joined by a slash, so the server \<open>a\<close> with a
  tool named \<open>b/c\<close> and the server \<open>a/b\<close> with a tool named \<open>c\<close> use the same key: connecting
  the second server overwrites the tool of the first, and disconnecting the second leaves
  the first server connected with no tool at all.
\<close>

theorem aggregated_key_collision:
  "(let clientA = \<lparr>cl_capabilities = Some \<lparr>cap_tools = True, cap_resources = False,
                       cap_templates = False, cap_prompts = False, cap_roots = None\<rparr>,
                     cl_listTools = Resolved (Some [\<lparr>tool_name = ''b/c'', tool_description = None,
                       tool_inputSchema = JObj [], tool_annotations = None\<rparr>]),
                     cl_listResources = Resolved None, cl_listResourceTemplates = Resolved [],
                     cl_listPrompts = Resolved None, cl_sendRootsListChanged = Resolved (),
                     cl_callTool = (\<lambda>p. Resolved JNull), cl_readResource = (\<lambda>p. Resolved JNull),
                     cl_getPrompt = (\<lambda>p. Resolved JNull)\<rparr>;
        clientB = clientA\<lparr>cl_listTools := Resolved (Some [\<lparr>tool_name = ''c'',
                       tool_description = None, tool_inputSchema = JObj [],
                       tool_annotations = None\<rparr>])\<rparr>;
        both = connectToServer_connected ''a/b'' clientB
                 (connectToServer_connected ''a'' clientA new_host)
    in getTools (connectToServer_connected ''a'' clientA new_host)
         = [\<lparr>at_serverId = ''a'', at_name = ''b/c'', at_description = None,
             at_inputSchema = JObj [], at_annotations = None\<rparr>]
     \<and> getTools both
         = [\<lparr>at_serverId = ''a/b'', at_name = ''c'', at_description = None,
             at_inputSchema = JObj [], at_annotations = None\<rparr>]
     \<and> map fst (clients (handleServerDisconnection ''a/b'' NoError both)) = [''a'']
     \<and> getTools (handleServerDisconnection ''a/b'' NoError both) = [])"
  by (simp add: getTools_def connectToServer_connected_def updateServerCapabilities_def
       new_host_def removeServerCapabilities_def handleServerDisconnection_def
       host_log_def emit_def addTools_def or_empty_def entry_key_def keysToDelete_def
       delete_keys_def Let_def)

section \<open>Properties of the API server: the sampling broker and the sessions\<close>

lemmas eval_more = eval_defs get_mcp_def getSession_def new_response_def res_write_def
  replay_events_def initialState_data_def getTools_def getResources_def getResourceTemplates_def
  getPrompts_def on_samplingRequest_def find_open_socket_def find_sse_session_def
  has_writable_sse_def get_stream_closed_def drop_connection_def delete_mcp_def deleteSession_def
  res_end_def invoke_def fire_timer_def timer_body_def ws_connection_def upd_peer_def
  cleanup_interval_def sweep_one_def update_conv'

text \<open>
  Claim C3. The deadline of a sampling request is to be the configured timeout. The
  configured value is 30000 by default and 1000 when the environment variable says so, but
  the timer is armed with 300000 for a WebSocket sink and for an SSE sink alike, whatever
  the configuration says. When the timer fires on a request that is still pending, the
  callback does receive an error with the code \<open>RequestTimeout\<close>.
\<close>

theorem sampling_deadline_is_fixed:
  "SAMPLING_REQUEST_TIMEOUT_MS (\<lambda>n. None) = Some 30000
   \<and> SAMPLING_REQUEST_TIMEOUT_MS
        (\<lambda>n. if n = ''OMCPH_SAMPLING_TIMEOUT_MS'' then Some ''1000'' else None) = Some 1000
   \<and> timers (run (Some 3600000)
        [WsConnection ''c'', SamplingRequest ''r1'' ''srv'' JNull] (initial_state new_host JNull None))
       = [\<lparr>tm_delay = 300000, tm_sink = WsSink 0, tm_requestId = ''r1'', tm_callback = 0\<rparr>]
   \<and> timers (run (Some 3600000)
        [PostMcp None False initialize_body 0 (\<lambda>k. ''s''),
         GetMcp (Some ''s'') None True 1,
         SamplingRequest ''r1'' ''srv'' JNull] (initial_state new_host JNull None))
       = [\<lparr>tm_delay = 300000, tm_sink = SessionSink 0, tm_requestId = ''r1'', tm_callback = 0\<rparr>]
   \<and> calls (run (Some 3600000)
        [WsConnection ''c'', SamplingRequest ''r1'' ''srv'' JNull, TimerFires 0]
        (initial_state new_host JNull None))
       = [(0, CbError \<lparr>err_code = ErrorCode_RequestTimeout,
                         err_message = ''Sampling request timed out - no response received'',
                         err_data = None\<rparr>)]"
  by (simp add: eval_more initialize_body_def SAMPLING_REQUEST_TIMEOUT_MS_def env_or_def or_default_def
        parseInt10_def parse_digits_def is_space_def is_digit_def digit_of_def digits_value_def
        timeout_error_def)

text \<open>
  Claim C6. A destroyed session is to fail each of its pending sampling callbacks with an
  \<open>InternalError\<close>, with or without an SSE sink. A session whose stream the client has
  closed keeps its pending request; deleting it, by \<open>DELETE\<close> or by the cleanup interval,
  removes the session and invokes no callback. The callback is invoked only when the timer
  fires, with \<open>RequestTimeout\<close>. With the stream still attached, \<open>DELETE\<close> does invoke the
  callback with the \<open>InternalError\<close> of the session closure.
\<close>

theorem deleteSession_without_sink:
  "(let closed = run (Some 3600000)
        [PostMcp None False initialize_body 0 (\<lambda>k. ''s''),
         GetMcp (Some ''s'') None True 1,
         SamplingRequest ''r1'' ''srv'' JNull,
         GetStreamClosed 0 0] (initial_state new_host JNull None)
    in map_of (samplingRequests_of closed 0) ''r1'' = Some 0
     \<and> calls (step (Some 3600000) (DeleteMcp (Some ''s'')) closed) = []
     \<and> activeSessions (step (Some 3600000) (DeleteMcp (Some ''s'')) closed) = []
     \<and> calls (step (Some 3600000) (CleanupInterval 3600002) closed) = []
     \<and> activeSessions (step (Some 3600000) (CleanupInterval 3600002) closed) = []
     \<and> calls (step (Some 3600000) (TimerFires 0)
                (step (Some 3600000) (DeleteMcp (Some ''s'')) closed))
         = [(0, CbError \<lparr>err_code = ErrorCode_RequestTimeout,
                           err_message = ''Sampling request timed out - no response received'',
                           err_data = None\<rparr>)])
   \<and> calls (run (Some 3600000)
        [PostMcp None False initialize_body 0 (\<lambda>k. ''s''),
         GetMcp (Some ''s'') None True 1,
         SamplingRequest ''r1'' ''srv'' JNull,
         DeleteMcp (Some ''s'')] (initial_state new_host JNull None))
       = [(0, CbError \<lparr>err_code = ErrorCode_InternalError,
                         err_message = ''Session closed before sampling request could complete'',
                         err_data = None\<rparr>)]"
  by (simp add: eval_more initialize_body_def samplingRequests_of_def timeout_error_def
        session_closed_error_def)

section \<open>Properties of the roots\<close>

text \<open>
  Claim C7, as stated, fails: \<open>setRoots\<close> accepts an array whose element is the number 42,
  which is not an array of objects with a string \<open>uri\<close> and a string \<open>name\<close>, and makes it the
  current roots.
\<close>

theorem setRoots_accepts_malformed_elements:
  "\<not> spec_roots_input_ok (Some (JArr [JNum 42]))
   \<and> fst (setRoots (Some (JArr [JNum 42])) new_host) = Inr ()
   \<and> currentRoots new_host = []
   \<and> currentRoots (snd (setRoots (Some (JArr [JNum 42])) new_host)) = [JNum 42]"
  by (simp add: spec_roots_input_ok_def spec_root_object_def setRoots_def new_host_def)

text \<open>The check of the \<open>validateRoots\<close> middleware is the one the specification words.\<close>

lemma valid_root_spec: "valid_root r = spec_root_object r"
  by (cases r) (simp_all add: valid_root_def spec_root_object_def)

lemma validateRoots_spec: "(validateRoots body = None) = spec_roots_input_ok (Some body)"
  by (cases body)
     (simp_all add: validateRoots_def spec_roots_input_ok_def valid_root_spec [abs_def] error_reply_def)

lemma host_sendEventToSession [simp]: "host (snd (sendEventToSession sid n d st)) = host st"
  by (simp add: sendEventToSession_def Let_def case_prod_beta bool.case_eq_if upd_session_def
        res_write_def split: option.splits)

lemma host_fold:
  "(\<And>x s. host (f x s) = host s) \<Longrightarrow> host (fold f xs st) = host st"
  by (induction xs arbitrary: st) auto

lemma host_broadcast [simp]: "host (broadcast n d st) = host st"
  unfolding broadcast_def by (rule host_fold) simp

lemma host_relay [simp]: "host (relay ev st) = host st"
  by (simp add: relay_def split: host_event.splits)

lemma host_host_changed [simp]: "host (host_changed h st) = h"
proof -
  have "host (fold relay evs (st\<lparr>host := h\<rparr>)) = host (st\<lparr>host := h\<rparr>)" for evs
    by (rule host_fold) simp
  then show ?thesis by (simp add: host_changed_def)
qed

text \<open>
  Claim C7, amended. \<open>setRoots\<close> rejects every input that is not an array with the host
  error \<open>ROOTS_UPDATE_FAILED\<close> and changes nothing: the roots stay and no server is notified.
  It does not look at the elements of an array. The check of the elements is made by the
  \<open>validateRoots\<close> middleware of \<open>POST /config/roots\<close>: a body that is not an array of objects
  with a string \<open>uri\<close> and a string \<open>name\<close> is answered with status 400 and the server is
  left as it was, and a body that is such an array reaches \<open>setRoots\<close> and becomes the
  current roots.
\<close>

theorem roots_validation_split:
  "((\<forall>rs. roots \<noteq> Some (JArr rs)) \<longrightarrow>
       setRoots roots st =
         (Inl (HostError \<lparr>he_message = ''Roots must be an array'', he_code = ROOTS_UPDATE_FAILED,
                          he_serverId = None, he_cause = None\<rparr>), st))
   \<and> (\<not> spec_roots_input_ok (Some body) \<longrightarrow>
        (\<exists>error. post_config_roots body ast = (Json_reply 400 error, ast)))
   \<and> (spec_roots_input_ok (Some body) \<longrightarrow>
        (\<exists>rs. body = JArr rs \<and> getCurrentRoots (host (snd (post_config_roots body ast))) = rs))"
proof (intro conjI impI)
  assume "\<forall>rs. roots \<noteq> Some (JArr rs)"
  then show "setRoots roots st =
         (Inl (HostError \<lparr>he_message = ''Roots must be an array'', he_code = ROOTS_UPDATE_FAILED,
                          he_serverId = None, he_cause = None\<rparr>), st)"
    by (auto simp: setRoots_def new_McpHostError_def split: option.splits json.splits)
next
  assume "\<not> spec_roots_input_ok (Some body)"
  then have "validateRoots body \<noteq> None" by (simp add: validateRoots_spec)
  then show "\<exists>error. post_config_roots body ast = (Json_reply 400 error, ast)"
    by (auto simp: post_config_roots_def validateRoots_def error_reply_def split: json.splits if_splits)
next
  assume ok: "spec_roots_input_ok (Some body)"
  then obtain rs where b: "body = JArr rs"
    by (auto simp: spec_roots_input_ok_def split: json.splits)
  from ok have v: "validateRoots body = None" by (simp add: validateRoots_spec)
  obtain st' errors where
    n: "notify_roots (clients (host ast)) ((host ast)\<lparr>currentRoots := rs\<rparr>) [] = (st', errors)"
    by (cases "notify_roots (clients (host ast)) ((host ast)\<lparr>currentRoots := rs\<rparr>) []") auto
  have "currentRoots st' = rs"
    using notify_roots_currentRoots
      [of "clients (host ast)" "(host ast)\<lparr>currentRoots := rs\<rparr>" "[]"] n by simp
  then have "getCurrentRoots (host (snd (post_config_roots body ast))) = rs"
    using v n by (simp add: post_config_roots_def b setRoots_def getCurrentRoots_def)
  with b show "\<exists>rs. body = JArr rs \<and> getCurrentRoots (host (snd (post_config_roots body ast))) = rs"
    by simp
qed


text \<open>The amended claim at \<open>null\<close>, at an array holding a number and at an array holding one
  root.\<close>

theorem roots_validation_split_witness:
  "(\<forall>rs. Some JNull \<noteq> Some (JArr rs))
   \<and> setRoots (Some JNull) new_host =
         (Inl (HostError \<lparr>he_message = ''Roots must be an array'', he_code = ROOTS_UPDATE_FAILED,
                          he_serverId = None, he_cause = None\<rparr>), new_host)
   \<and> \<not> spec_roots_input_ok (Some (JArr [JNum 42]))
   \<and> post_config_roots (JArr [JNum 42]) (initial_state new_host JNull None)
       = (Json_reply 400 (JObj [(''error'', JStr ''invalid_roots''),
            (''message'', JStr ''Each root must have uri and name properties as strings'')]),
          initial_state new_host JNull None)
   \<and> spec_roots_input_ok
         (Some (JArr [JObj [(''uri'', JStr ''file:///p''), (''name'', JStr ''P'')]]))
   \<and> getCurrentRoots (host (snd (post_config_roots
          (JArr [JObj [(''uri'', JStr ''file:///p''), (''name'', JStr ''P'')]])
          (initial_state new_host JNull None))))
       = [JObj [(''uri'', JStr ''file:///p''), (''name'', JStr ''P'')]]"
  using roots_validation_split [of "Some JNull" new_host "JArr [JNum 42]"
          "initial_state new_host JNull None"]
        roots_validation_split [of "Some JNull" new_host
          "JArr [JObj [(''uri'', JStr ''file:///p''), (''name'', JStr ''P'')]]"
          "initial_state new_host JNull None"]
  by (simp add: spec_roots_input_ok_def spec_root_object_def post_config_roots_def validateRoots_def
        valid_root_def error_reply_def setRoots_def new_McpHostError_def)

section \<open>Properties of the JSON-RPC endpoint\<close>

lemma get_field_id_error [simp]:
  "get_field (createErrorResponse i code message data) ''id'' = Some i"
  by (simp add: createErrorResponse_def)

lemma handle_request_id:
  "get_field (handle_request h m) ''id'' = Some (request_id m)"
  by (simp add: handle_request_def createErrorResponse_def
      split: outcome.splits js_thrown.splits)

lemma request_id_eq: "isRequest m \<Longrightarrow> Some (request_id m) = get_field m ''id''"
  by (auto simp: isRequest_def request_id_def)

lemma processSingleMessage_request:
  assumes "isRequest m"
  shows "\<exists>r. fst (processSingleMessage sid now u m st) = Some r \<and> get_field r ''id'' = get_field m ''id''"
  using assms request_id_eq [OF assms]
  by (auto simp: processSingleMessage_def case_prod_beta handle_request_id split: option.splits)

lemma handle_request_object: "\<exists>members. handle_request h m = JObj members"
  by (simp add: handle_request_def createErrorResponse_def split: outcome.splits js_thrown.splits)

lemma processSingleMessage_object:
  "fst (processSingleMessage sid now u m st) = Some r \<Longrightarrow> \<exists>members. r = JObj members"
  by (auto simp: processSingleMessage_def case_prod_beta createErrorResponse_def
           split: option.splits if_splits intro: handle_request_object)

lemma set_map_filter_id: "set (List.map_filter id xs) = {r. Some r \<in> set xs}"
  by (induction xs) (auto simp: List.map_filter_def)

lemma process_batch_responses:
  "set (fst (process_batch sid now uuids i ms st)) \<subseteq>
     {r. \<exists>m u s. r = fst (processSingleMessage sid now u m s)}"
  by (induction ms arbitrary: i st) (auto simp: case_prod_beta)

lemma process_batch_request:
  "m \<in> set ms \<Longrightarrow> isRequest m \<Longrightarrow>
   \<exists>r. Some r \<in> set (fst (process_batch sid now uuids i ms st)) \<and> get_field r ''id'' = get_field m ''id''"
proof (induction ms arbitrary: i st)
  case Nil
  then show ?case by simp
next
  case (Cons x ms)
  show ?case
  proof (cases "m = x")
    case True
    with Cons.prems processSingleMessage_request [of x sid now "uuids i" st]
    show ?thesis by (auto simp: case_prod_beta)
  next
    case False
    with Cons.prems have "m \<in> set ms" by simp
    from Cons.IH [OF this Cons.prems(2)] show ?thesis
      by (auto simp: case_prod_beta)
  qed
qed

lemma post_mcp_plain:
  assumes "\<not> (preferSSE acceptsSSE body \<and> present sessionId)"
  shows "fst (post_mcp sessionId acceptsSSE body now uuids st) =
     (let containsRequest = (case body of JArr messages \<Rightarrow> list_ex isRequest messages
                             | _ \<Rightarrow> isRequest body);
          validResponses = List.map_filter id
             (case body of
                JArr messages \<Rightarrow> fst (process_batch sessionId now uuids 0 messages st)
              | _ \<Rightarrow> [fst (processSingleMessage sessionId now (uuids 0) body st)])
      in if \<not> containsRequest then Empty_reply 202
         else if length validResponses = 0 then Empty_reply 204
         else Json_reply 200 (response_payload body validResponses))"
proof (cases "preferSSE acceptsSSE body")
  case True
  with assms have "\<not> present sessionId" by simp
  then show ?thesis
    by (cases body) (simp_all add: post_mcp_def case_prod_beta Let_def)
next
  case False
  then show ?thesis
    by (cases body) (simp_all add: post_mcp_def case_prod_beta Let_def)
qed

lemma post_mcp_not_upgraded:
  assumes "\<not> (preferSSE acceptsSSE body \<and> present sessionId)"
  shows "case body of
           JArr messages \<Rightarrow>
             if list_ex isRequest messages
             then \<exists>rs. fst (post_mcp sessionId acceptsSSE body now uuids st) = Json_reply 200 (JArr rs)
                    \<and> (\<forall>r\<in>set rs. \<exists>members. r = JObj members)
                    \<and> (\<forall>m\<in>set messages. isRequest m \<longrightarrow>
                          (\<exists>r\<in>set rs. get_field r ''id'' = get_field m ''id''))
             else fst (post_mcp sessionId acceptsSSE body now uuids st) = Empty_reply 202
         | _ \<Rightarrow>
             if isRequest body
             then \<exists>members. fst (post_mcp sessionId acceptsSSE body now uuids st)
                      = Json_reply 200 (JObj members)
                    \<and> get_field (JObj members) ''id'' = get_field body ''id''
             else fst (post_mcp sessionId acceptsSSE body now uuids st) = Empty_reply 202"
proof (cases "\<exists>messages. body = JArr messages")
  case True
  then obtain messages where b: "body = JArr messages" by blast
  let ?rs = "List.map_filter id (fst (process_batch sessionId now uuids 0 messages st))"
  show ?thesis
  proof (cases "list_ex isRequest messages")
    case False
    with post_mcp_plain [OF assms, of now uuids st] b show ?thesis
      by (simp add: Let_def)
  next
    case req: True
    then obtain m where m: "m \<in> set messages" "isRequest m"
      by (auto simp: list_ex_iff)
    from process_batch_request [OF m, of sessionId now uuids 0 st]
    have ne: "?rs \<noteq> []"
      using set_map_filter_id [of "fst (process_batch sessionId now uuids 0 messages st)"]
      by (metis (mono_tags, lifting) empty_iff list.set(1) mem_Collect_eq)
    have reply: "fst (post_mcp sessionId acceptsSSE body now uuids st) = Json_reply 200 (JArr ?rs)"
      using post_mcp_plain [OF assms, of now uuids st] b req ne
      by (simp add: Let_def response_payload_def is_array_def)
    have obj: "\<forall>r\<in>set ?rs. \<exists>members. r = JObj members"
    proof
      fix r assume "r \<in> set ?rs"
      then have "Some r \<in> set (fst (process_batch sessionId now uuids 0 messages st))"
        by (simp add: set_map_filter_id)
      with process_batch_responses [of sessionId now uuids 0 messages st]
      obtain m' u s where "Some r = fst (processSingleMessage sessionId now u m' s)" by blast
      then show "\<exists>members. r = JObj members"
        using processSingleMessage_object [of sessionId now u m' s r] by simp
    qed
    have ids: "\<forall>m\<in>set messages. isRequest m \<longrightarrow> (\<exists>r\<in>set ?rs. get_field r ''id'' = get_field m ''id'')"
      using process_batch_request [of _ messages sessionId now uuids 0 st]
      by (auto simp: set_map_filter_id)
    from reply obj ids req b show ?thesis by auto
  qed
next
  case False
  then have na: "\<not> is_array body" by (cases body) (auto simp: is_array_def)
  show ?thesis
  proof (cases "isRequest body")
    case False
    with post_mcp_plain [OF assms, of now uuids st] \<open>\<not> (\<exists>messages. body = JArr messages)\<close>
    show ?thesis
      by (cases body) (simp_all add: Let_def)
  next
    case True
    from processSingleMessage_request [OF True, of sessionId now "uuids 0" st]
    obtain r where r: "fst (processSingleMessage sessionId now (uuids 0) body st) = Some r"
      and rid: "get_field r ''id'' = get_field body ''id''" by blast
    from processSingleMessage_object [OF r] obtain members where mem: "r = JObj members" by blast
    have "fst (post_mcp sessionId acceptsSSE body now uuids st) = Json_reply 200 r"
      using post_mcp_plain [OF assms, of now uuids st] True r na
        \<open>\<not> (\<exists>messages. body = JArr messages)\<close>
      by (cases body)
         (simp_all add: Let_def response_payload_def List.map_filter_def)
    with mem rid True \<open>\<not> (\<exists>messages. body = JArr messages)\<close> show ?thesis
      by (cases body) auto
  qed
qed

lemma preferSSE_not_array: "\<not> preferSSE acceptsSSE (JArr messages)"
  by (simp add: preferSSE_def)

lemma processSingleMessage_frame:
  assumes "present sid"
  shows "activeSessions (snd (snd (processSingleMessage sid now u m st))) = activeSessions st"
    and "responses (snd (snd (processSingleMessage sid now u m st))) = responses st"
  using assms
  by (auto simp: processSingleMessage_def getSession_def upd_session_def split: option.splits)

lemma post_mcp_upgraded:
  assumes p: "preferSSE acceptsSSE body" and s: "present sessionId"
    and k: "map_of (activeSessions st) (case sessionId of None \<Rightarrow> [] | Some v \<Rightarrow> v) \<noteq> None"
  shows "fst (post_mcp sessionId acceptsSSE body now uuids st) = Stream_reply (length (responses st))"
    and "written (responses (snd (snd (post_mcp sessionId acceptsSSE body now uuids st)))
            ! length (responses st))
          = Blank # (case fst (processSingleMessage sessionId now (uuids 0) body st) of
                       None \<Rightarrow> []
                     | Some r \<Rightarrow> [EventFrame None ''response'' r])"
proof -
  from p have na: "\<not> is_array body" and nb: "\<And>ms. body \<noteq> JArr ms"
    using preferSSE_not_array by (auto simp: is_array_def split: json.splits)
  define r where "r = fst (processSingleMessage sessionId now (uuids 0) body st)"
  define st1 where "st1 = snd (snd (processSingleMessage sessionId now (uuids 0) body st))"
  from k obtain a where a: "map_of (activeSessions st) (case sessionId of None \<Rightarrow> [] | Some v \<Rightarrow> v) = Some a"
    by blast
  have f: "activeSessions st1 = activeSessions st" "responses st1 = responses st"
    unfolding st1_def using processSingleMessage_frame [OF s] by simp_all
  have split: "(case body of
              JArr messages \<Rightarrow>
                (list_ex isRequest messages, process_batch sessionId now uuids 0 messages st)
            | _ \<Rightarrow>
                (isRequest body,
                 (case processSingleMessage sessionId now (uuids 0) body st of
                    (r, h, st1) \<Rightarrow> ([r], h, st1))))
          = (isRequest body, [r], fst (snd (processSingleMessage sessionId now (uuids 0) body st)), st1)"
  proof (cases body)
    case (JArr ms)
    with nb show ?thesis by blast
  qed (simp_all add: r_def st1_def case_prod_beta)
  show "fst (post_mcp sessionId acceptsSSE body now uuids st) = Stream_reply (length (responses st))"
    unfolding post_mcp_def split using p s a f
    by (simp add: Let_def case_prod_beta new_response_def res_write_def getSession_def)
  show "written (responses (snd (snd (post_mcp sessionId acceptsSSE body now uuids st)))
            ! length (responses st))
          = Blank # (case fst (processSingleMessage sessionId now (uuids 0) body st) of
                       None \<Rightarrow> []
                     | Some r \<Rightarrow> [EventFrame None ''response'' r])"
    unfolding post_mcp_def split r_def [symmetric] using p s a f na
    by (cases r)
       (simp_all add: Let_def case_prod_beta new_response_def res_write_def getSession_def
          upd_session_def List.map_filter_def response_payload_def nth_append)
qed

text \<open>
  Claim C8, amended. For every \<open>POST\<close> that is not turned into an event stream (the client
  does not accept \<open>text/event-stream\<close>, or the body has neither \<open>params.options.onprogress\<close>
  nor the method \<open>initialize\<close>, or there is no \<open>Mcp-Session-Id\<close> header): if an array body
  contains a request, the status is 200 with an array of response objects that holds, for
  each request of the body, a response with its id; if a single-message body is a request,
  the status is 200 with one response object carrying its id; and if the body contains no
  request, the status is 202 with no body. A \<open>POST\<close> that is turned into an event stream and
  names a session the server knows is answered with status 200 and the head of an event
  stream on a new response object; on it the blank line is written and then, if the message
  has a response, one \<open>response\<close> event that carries it; the message of a request has one, an
  object with the id of the request.
\<close>

theorem post_mcp_status:
  "(\<not> (preferSSE acceptsSSE body \<and> present sessionId) \<longrightarrow>
      (case body of
                  JArr messages \<Rightarrow>
                    if list_ex isRequest messages
                    then \<exists>rs. fst (post_mcp sessionId acceptsSSE body now uuids st) = Json_reply 200 (JArr rs)
                           \<and> (\<forall>r\<in>set rs. \<exists>members. r = JObj members)
                           \<and> (\<forall>m\<in>set messages. isRequest m \<longrightarrow>
                                 (\<exists>r\<in>set rs. get_field r ''id'' = get_field m ''id''))
                    else fst (post_mcp sessionId acceptsSSE body now uuids st) = Empty_reply 202
                | _ \<Rightarrow>
                    if isRequest body
                    then \<exists>members. fst (post_mcp sessionId acceptsSSE body now uuids st)
                             = Json_reply 200 (JObj members)
                           \<and> get_field (JObj members) ''id'' = get_field body ''id''
                    else fst (post_mcp sessionId acceptsSSE body now uuids st) = Empty_reply 202))
   \<and> (preferSSE acceptsSSE body \<and> present sessionId
        \<and> map_of (activeSessions st) (case sessionId of None \<Rightarrow> [] | Some v \<Rightarrow> v) \<noteq> None \<longrightarrow>
        fst (post_mcp sessionId acceptsSSE body now uuids st) = Stream_reply (length (responses st))
      \<and> written (responses (snd (snd (post_mcp sessionId acceptsSSE body now uuids st)))
            ! length (responses st))
          = Blank # (case fst (processSingleMessage sessionId now (uuids 0) body st) of
                       None \<Rightarrow> []
                     | Some r \<Rightarrow> [EventFrame None ''response'' r])
      \<and> (isRequest body \<longrightarrow>
            (\<exists>members. fst (processSingleMessage sessionId now (uuids 0) body st) = Some (JObj members)
                \<and> get_field (JObj members) ''id'' = get_field body ''id'')))"
proof (intro conjI impI)
  assume "\<not> (preferSSE acceptsSSE body \<and> present sessionId)"
  then show "case body of
           JArr messages \<Rightarrow>
             if list_ex isRequest messages
             then \<exists>rs. fst (post_mcp sessionId acceptsSSE body now uuids st) = Json_reply 200 (JArr rs)
                    \<and> (\<forall>r\<in>set rs. \<exists>members. r = JObj members)
                    \<and> (\<forall>m\<in>set messages. isRequest m \<longrightarrow>
                          (\<exists>r\<in>set rs. get_field r ''id'' = get_field m ''id''))
             else fst (post_mcp sessionId acceptsSSE body now uuids st) = Empty_reply 202
         | _ \<Rightarrow>
             if isRequest body
             then \<exists>members. fst (post_mcp sessionId acceptsSSE body now uuids st)
                      = Json_reply 200 (JObj members)
                    \<and> get_field (JObj members) ''id'' = get_field body ''id''
             else fst (post_mcp sessionId acceptsSSE body now uuids st) = Empty_reply 202"
    by (rule post_mcp_not_upgraded)
next
  assume u: "preferSSE acceptsSSE body \<and> present sessionId
        \<and> map_of (activeSessions st) (case sessionId of None \<Rightarrow> [] | Some v \<Rightarrow> v) \<noteq> None"
  then show "fst (post_mcp sessionId acceptsSSE body now uuids st) = Stream_reply (length (responses st))"
    by (simp add: post_mcp_upgraded(1))
  from u show "written (responses (snd (snd (post_mcp sessionId acceptsSSE body now uuids st)))
            ! length (responses st))
          = Blank # (case fst (processSingleMessage sessionId now (uuids 0) body st) of
                       None \<Rightarrow> []
                     | Some r \<Rightarrow> [EventFrame None ''response'' r])"
    by (simp add: post_mcp_upgraded(2))
next
  assume "isRequest body"
  from processSingleMessage_request [OF this, of sessionId now "uuids 0" st]
  obtain r where r: "fst (processSingleMessage sessionId now (uuids 0) body st) = Some r"
    and rid: "get_field r ''id'' = get_field body ''id''" by blast
  from processSingleMessage_object [OF r] obtain members where "r = JObj members" by blast
  with r rid
  show "\<exists>members. fst (processSingleMessage sessionId now (uuids 0) body st) = Some (JObj members)
                \<and> get_field (JObj members) ''id'' = get_field body ''id''"
    by blast
qed

lemmas eval_post = eval_defs getSession_def new_response_def res_write_def
  getTools_def getResources_def getResourceTemplates_def getPrompts_def update_conv'
  isNotification_def isResponse_def handle_request_def dispatch_request_def request_method_def
  part_def createErrorResponse_def opt_member_def

text \<open>
  Claim C8, as stated, fails on the requests the handler turns into an event stream. A
  notification that carries \<open>params.options.onprogress\<close>, from a client that accepts
  \<open>text/event-stream\<close> and names its session, is answered with the head of an event stream,
  status 200, not with 202. An \<open>initialize\<close> request that names a session the server does not
  know is answered with an event stream on which only the opening blank line is written: no
  response object is sent.
\<close>

theorem post_mcp_sse_upgrade:
  "(let notification =
          JObj [(''jsonrpc'', JStr ''2.0''), (''method'', JStr ''notifications/progress''),
                (''params'', JObj [(''options'', JObj [(''onprogress'', JBool True)])])];
        st = snd (createSession ''s'' 0 (initial_state new_host JNull None))
    in \<not> isRequest notification \<and> isNotification notification
     \<and> fst (post_mcp (Some ''s'') True notification 1 (\<lambda>k. ''u'') st) = Stream_reply 0)
   \<and> (let request = JObj [(''jsonrpc'', JStr ''2.0''), (''id'', JStr ''1''),
                           (''method'', JStr ''initialize'')];
            st = initial_state new_host JNull None
        in isRequest request
         \<and> fst (post_mcp (Some ''gone'') True request 1 (\<lambda>k. ''u'') st) = Stream_reply 0
         \<and> written (responses (snd (snd (post_mcp (Some ''gone'') True request 1 (\<lambda>k. ''u'') st))) ! 0)
             = [Blank])"
  by (simp add: eval_post)

text \<open>The amended claim at a batch of two requests and a notification, for a client that
  does not accept event streams, and at a request with \<open>params.options.onprogress\<close> from a
  client that accepts them and names its session.\<close>

theorem post_mcp_status_witness:
  "\<not> (preferSSE False
          (JArr [JObj [(''jsonrpc'', JStr ''2.0''), (''id'', JStr ''1''), (''method'', JStr ''tools/list'')],
                 JObj [(''jsonrpc'', JStr ''2.0''), (''method'', JStr ''x'')],
                 JObj [(''jsonrpc'', JStr ''2.0''), (''id'', JStr ''2''), (''method'', JStr ''resources/list'')]])
        \<and> present (Some ''s''))
   \<and> fst (post_mcp (Some ''s'') False
          (JArr [JObj [(''jsonrpc'', JStr ''2.0''), (''id'', JStr ''1''), (''method'', JStr ''tools/list'')],
                 JObj [(''jsonrpc'', JStr ''2.0''), (''method'', JStr ''x'')],
                 JObj [(''jsonrpc'', JStr ''2.0''), (''id'', JStr ''2''), (''method'', JStr ''resources/list'')]])
          1 (\<lambda>k. ''u'') (snd (createSession ''s'' 0 (initial_state new_host JNull None))))
       = Json_reply 200
           (JArr [JObj [(''jsonrpc'', JStr ''2.0''), (''id'', JStr ''1''), (''result'', JArr [])],
                  JObj [(''jsonrpc'', JStr ''2.0''), (''id'', JStr ''2''), (''result'', JArr [])]])
   \<and> preferSSE True
         (JObj [(''jsonrpc'', JStr ''2.0''), (''id'', JStr ''7''), (''method'', JStr ''tools/list''),
                (''params'', JObj [(''options'', JObj [(''onprogress'', JBool True)])])])
   \<and> present (Some ''s'')
   \<and> map_of (activeSessions (snd (createSession ''s'' 0 (initial_state new_host JNull None)))) ''s''
         \<noteq> None
   \<and> isRequest
         (JObj [(''jsonrpc'', JStr ''2.0''), (''id'', JStr ''7''), (''method'', JStr ''tools/list''),
                (''params'', JObj [(''options'', JObj [(''onprogress'', JBool True)])])])
   \<and> fst (post_mcp (Some ''s'') True
          (JObj [(''jsonrpc'', JStr ''2.0''), (''id'', JStr ''7''), (''method'', JStr ''tools/list''),
                (''params'', JObj [(''options'', JObj [(''onprogress'', JBool True)])])])
          1 (\<lambda>k. ''u'') (snd (createSession ''s'' 0 (initial_state new_host JNull None))))
       = Stream_reply 0
   \<and> written (responses (snd (snd (post_mcp (Some ''s'') True
          (JObj [(''jsonrpc'', JStr ''2.0''), (''id'', JStr ''7''), (''method'', JStr ''tools/list''),
                (''params'', JObj [(''options'', JObj [(''onprogress'', JBool True)])])])
          1 (\<lambda>k. ''u'') (snd (createSession ''s'' 0 (initial_state new_host JNull None)))))) ! 0)
       = [Blank, EventFrame None ''response''
                   (JObj [(''jsonrpc'', JStr ''2.0''), (''id'', JStr ''7''), (''result'', JArr [])])]"
  using post_mcp_status [of False
          "JArr [JObj [(''jsonrpc'', JStr ''2.0''), (''id'', JStr ''1''), (''method'', JStr ''tools/list'')],
                 JObj [(''jsonrpc'', JStr ''2.0''), (''method'', JStr ''x'')],
                 JObj [(''jsonrpc'', JStr ''2.0''), (''id'', JStr ''2''), (''method'', JStr ''resources/list'')]]"
          "Some ''s''" 1 "\<lambda>k. ''u''" "snd (createSession ''s'' 0 (initial_state new_host JNull None))"]
        post_mcp_status [of True
          "JObj [(''jsonrpc'', JStr ''2.0''), (''id'', JStr ''7''), (''method'', JStr ''tools/list''),
                (''params'', JObj [(''options'', JObj [(''onprogress'', JBool True)])])]"
          "Some ''s''" 1 "\<lambda>k. ''u''" "snd (createSession ''s'' 0 (initial_state new_host JNull None))"]
  by (simp add: eval_post)

section \<open>Properties of the sampling broker: every callback once\<close>

subsection \<open>The invariant on plain data\<close>

text \<open>Registering a request, rejecting one when there is no sink, completing one, dropping
  a timer whose request is gone, and failing every request of a sink all keep the
  invariant.\<close>

lemma binvI:
  assumes "distinct (map fst C)"
    and "\<And>c. c \<in> fst ` set C \<Longrightarrow> c < N"
    and "\<And>k. distinct (map fst (P k))"
    and "\<And>k rid c. (rid, c) \<in> set (P k) \<Longrightarrow>
            c < N \<and> c \<notin> fst ` set C \<and> rid \<in> R \<and> the_timer k rid c \<in> set T"
    and "\<And>k rid k' rid' c. (rid, c) \<in> set (P k) \<Longrightarrow> (rid', c) \<in> set (P k') \<Longrightarrow> k = k' \<and> rid = rid'"
    and "\<And>c. c < N \<Longrightarrow> c \<in> fst ` set C \<or> (\<exists>k rid. (rid, c) \<in> set (P k))"
    and "\<And>t. t \<in> set T \<Longrightarrow> tm_requestId t \<in> R
            \<and> (\<forall>c. (tm_requestId t, c) \<in> set (P (tm_sink t)) \<longrightarrow> c = tm_callback t)"
  shows "binv R P C T N"
  unfolding binv_def
proof (intro conjI)
  show "distinct (map fst C)" by fact
  show "\<forall>c\<in>fst ` set C. c < N" using assms(2) by blast
  show "\<forall>k. distinct (map fst (P k))" using assms(3) by blast
  show "\<forall>k rid c. (rid, c) \<in> set (P k) \<longrightarrow>
            c < N \<and> c \<notin> fst ` set C \<and> rid \<in> R \<and> the_timer k rid c \<in> set T"
    using assms(4) by blast
  show "\<forall>k rid k' rid' c. (rid, c) \<in> set (P k) \<and> (rid', c) \<in> set (P k') \<longrightarrow> k = k' \<and> rid = rid'"
    using assms(5) by blast
  show "\<forall>c<N. c \<in> fst ` set C \<or> (\<exists>k rid. (rid, c) \<in> set (P k))"
    using assms(6) by blast
  show "\<forall>t\<in>set T. tm_requestId t \<in> R
            \<and> (\<forall>c. (tm_requestId t, c) \<in> set (P (tm_sink t)) \<longrightarrow> c = tm_callback t)"
    using assms(7) by blast
qed

lemma binv_calls_distinct: "binv R P C T N \<Longrightarrow> distinct (map fst C)"
  by (simp add: binv_def)

lemma binv_calls_issued: "binv R P C T N \<Longrightarrow> c \<in> fst ` set C \<Longrightarrow> c < N"
  unfolding binv_def by blast

lemma binv_keys: "binv R P C T N \<Longrightarrow> distinct (map fst (P k))"
  by (simp add: binv_def)

lemma binv_entry:
  "binv R P C T N \<Longrightarrow> (rid, c) \<in> set (P k) \<Longrightarrow>
     c < N \<and> c \<notin> fst ` set C \<and> rid \<in> R \<and> the_timer k rid c \<in> set T"
  unfolding binv_def by blast

lemma binv_unique:
  "binv R P C T N \<Longrightarrow> (rid, c) \<in> set (P k) \<Longrightarrow> (rid', c) \<in> set (P k') \<Longrightarrow> k = k' \<and> rid = rid'"
  unfolding binv_def by blast

lemma binv_cover:
  "binv R P C T N \<Longrightarrow> c < N \<Longrightarrow> c \<in> fst ` set C \<or> (\<exists>k rid. (rid, c) \<in> set (P k))"
  unfolding binv_def by blast

lemma binv_timer:
  "binv R P C T N \<Longrightarrow> t \<in> set T \<Longrightarrow>
     tm_requestId t \<in> R \<and> (\<forall>c. (tm_requestId t, c) \<in> set (P (tm_sink t)) \<longrightarrow> c = tm_callback t)"
  unfolding binv_def by blast

lemma update_fresh: "k \<notin> fst ` set al \<Longrightarrow> AList.update k v al = al @ [(k, v)]"
  by (induction al) auto

lemma set_delete: "set (AList.delete k al) = {p \<in> set al. fst p \<noteq> k}"
  by (auto simp: AList.delete_eq)

lemma binv_register:
  assumes inv: "binv R P C T N" and fresh: "rid \<notin> R"
  shows "binv (insert rid R) (P(k := AList.update rid N (P k))) C (T @ [the_timer k rid N]) (Suc N)"
proof -
  have nokey: "rid \<notin> fst ` set (P k)"
  proof
    assume "rid \<in> fst ` set (P k)"
    then obtain c where "(rid, c) \<in> set (P k)" by auto
    from binv_entry [OF inv this] fresh show False by simp
  qed
  then have upd: "AList.update rid N (P k) = P k @ [(rid, N)]"
    by (rule update_fresh)
  have noN: "(r, N) \<notin> set (P k')" for r k'
    using binv_entry [OF inv, of r N k'] by auto
  have mem: "(r, c) \<in> set ((P(k := P k @ [(rid, N)])) k') \<longleftrightarrow>
               (r, c) \<in> set (P k') \<or> (k' = k \<and> r = rid \<and> c = N)" for r c k'
    by auto
  show ?thesis
    unfolding upd
  proof (rule binvI)
    show "distinct (map fst C)" by (rule binv_calls_distinct [OF inv])
  next
    fix c assume "c \<in> fst ` set C"
    then show "c < Suc N" using binv_calls_issued [OF inv] by (simp add: less_Suc_eq)
  next
    fix k'
    show "distinct (map fst ((P(k := P k @ [(rid, N)])) k'))"
      using binv_keys [OF inv] nokey by auto
  next
    fix k' r c assume "(r, c) \<in> set ((P(k := P k @ [(rid, N)])) k')"
    then consider "(r, c) \<in> set (P k')" | "k' = k" "r = rid" "c = N" unfolding mem by blast
    then show "c < Suc N \<and> c \<notin> fst ` set C \<and> r \<in> insert rid R
                 \<and> the_timer k' r c \<in> set (T @ [the_timer k rid N])"
    proof cases
      case 1
      with binv_entry [OF inv 1] show ?thesis by auto
    next
      case 2
      with binv_calls_issued [OF inv, of N] show ?thesis by auto
    qed
  next
    fix k1 r1 k2 r2 c
    assume "(r1, c) \<in> set ((P(k := P k @ [(rid, N)])) k1)"
      and "(r2, c) \<in> set ((P(k := P k @ [(rid, N)])) k2)"
    then consider "(r1, c) \<in> set (P k1)" "(r2, c) \<in> set (P k2)"
      | "(r1, c) \<in> set (P k1)" "c = N"
      | "(r2, c) \<in> set (P k2)" "c = N"
      | "k1 = k" "r1 = rid" "k2 = k" "r2 = rid"
      unfolding mem by blast
    then show "k1 = k2 \<and> r1 = r2"
    proof cases
      case 1
      then show ?thesis by (rule binv_unique [OF inv])
    next
      case 2
      with noN show ?thesis by simp
    next
      case 3
      with noN show ?thesis by simp
    next
      case 4
      then show ?thesis by simp
    qed
  next
    fix c assume "c < Suc N"
    then consider "c < N" | "c = N" by (auto simp: less_Suc_eq)
    then show "c \<in> fst ` set C \<or> (\<exists>k' r. (r, c) \<in> set ((P(k := P k @ [(rid, N)])) k'))"
    proof cases
      case 1
      from binv_cover [OF inv 1] show ?thesis unfolding mem by blast
    next
      case 2
      then show ?thesis unfolding mem by blast
    qed
  next
    fix t assume "t \<in> set (T @ [the_timer k rid N])"
    then consider "t \<in> set T" | "t = the_timer k rid N" by auto
    then show "tm_requestId t \<in> insert rid R
          \<and> (\<forall>c. (tm_requestId t, c) \<in> set ((P(k := P k @ [(rid, N)])) (tm_sink t)) \<longrightarrow> c = tm_callback t)"
    proof cases
      case 1
      from binv_timer [OF inv 1] have r: "tm_requestId t \<in> R"
        and u: "\<And>c. (tm_requestId t, c) \<in> set (P (tm_sink t)) \<Longrightarrow> c = tm_callback t"
        by auto
      from r fresh have "tm_requestId t \<noteq> rid" by auto
      with r u show ?thesis unfolding mem by simp
    next
      case 2
      have "(rid, c) \<notin> set (P k)" for c
      proof
        assume "(rid, c) \<in> set (P k)"
        then have "rid \<in> fst ` set (P k)" by force
        with nokey show False by simp
      qed
      with 2 show ?thesis unfolding mem by (simp add: the_timer_def)
    qed
  qed
qed

lemma binv_reject:
  assumes inv: "binv R P C T N"
  shows "binv (insert rid R) P (C @ [(N, arg)]) T (Suc N)"
proof (rule binvI)
  show "distinct (map fst (C @ [(N, arg)]))"
    using binv_calls_distinct [OF inv] binv_calls_issued [OF inv, of N] by auto
next
  fix c assume "c \<in> fst ` set (C @ [(N, arg)])"
  then show "c < Suc N" using binv_calls_issued [OF inv, of c] by (auto simp: less_Suc_eq)
next
  fix k show "distinct (map fst (P k))" by (rule binv_keys [OF inv])
next
  fix k r c assume e: "(r, c) \<in> set (P k)"
  from binv_entry [OF inv e]
  show "c < Suc N \<and> c \<notin> fst ` set (C @ [(N, arg)]) \<and> r \<in> insert rid R \<and> the_timer k r c \<in> set T"
    by auto
next
  fix k1 r1 k2 r2 c
  assume "(r1, c) \<in> set (P k1)" "(r2, c) \<in> set (P k2)"
  then show "k1 = k2 \<and> r1 = r2" by (rule binv_unique [OF inv])
next
  fix c assume "c < Suc N"
  then consider "c < N" | "c = N" by (auto simp: less_Suc_eq)
  then show "c \<in> fst ` set (C @ [(N, arg)]) \<or> (\<exists>k r. (r, c) \<in> set (P k))"
  proof cases
    case 1
    from binv_cover [OF inv 1] show ?thesis by auto
  next
    case 2
    then show ?thesis by simp
  qed
next
  fix t assume "t \<in> set T"
  from binv_timer [OF inv this]
  show "tm_requestId t \<in> insert rid R
          \<and> (\<forall>c. (tm_requestId t, c) \<in> set (P (tm_sink t)) \<longrightarrow> c = tm_callback t)"
    by auto
qed


lemma binv_complete:
  assumes inv: "binv R P C T N" and e: "(rid, c) \<in> set (P k)"
  shows "binv R (P(k := AList.delete rid (P k))) (C @ [(c, arg)]) T N"
proof -
  have mem: "(r, c') \<in> set ((P(k := AList.delete rid (P k))) k') \<longleftrightarrow>
               (r, c') \<in> set (P k') \<and> \<not> (k' = k \<and> r = rid)" for r c' k'
    by (auto simp: set_delete)
  note ec = binv_entry [OF inv e]
  show ?thesis
  proof (rule binvI)
    show "distinct (map fst (C @ [(c, arg)]))"
      using binv_calls_distinct [OF inv] ec by auto
  next
    fix c' assume "c' \<in> fst ` set (C @ [(c, arg)])"
    then show "c' < N" using binv_calls_issued [OF inv, of c'] ec by auto
  next
    fix k' show "distinct (map fst ((P(k := AList.delete rid (P k))) k'))"
      using binv_keys [OF inv] by (simp add: distinct_delete)
  next
    fix k' r c' assume "(r, c') \<in> set ((P(k := AList.delete rid (P k))) k')"
    then have in': "(r, c') \<in> set (P k')" and ne: "\<not> (k' = k \<and> r = rid)"
      unfolding mem by auto
    have "c' \<noteq> c"
    proof
      assume "c' = c"
      with in' e binv_unique [OF inv, of r c k' rid k] ne show False by auto
    qed
    with binv_entry [OF inv in']
    show "c' < N \<and> c' \<notin> fst ` set (C @ [(c, arg)]) \<and> r \<in> R \<and> the_timer k' r c' \<in> set T"
      by auto
  next
    fix k1 r1 k2 r2 c'
    assume "(r1, c') \<in> set ((P(k := AList.delete rid (P k))) k1)"
      and "(r2, c') \<in> set ((P(k := AList.delete rid (P k))) k2)"
    then have "(r1, c') \<in> set (P k1)" "(r2, c') \<in> set (P k2)" unfolding mem by auto
    then show "k1 = k2 \<and> r1 = r2" by (rule binv_unique [OF inv])
  next
    fix c' assume "c' < N"
    from binv_cover [OF inv this]
    consider "c' \<in> fst ` set C" | k' r where "(r, c') \<in> set (P k')" by blast
    then show "c' \<in> fst ` set (C @ [(c, arg)])
                \<or> (\<exists>k' r. (r, c') \<in> set ((P(k := AList.delete rid (P k))) k'))"
    proof cases
      case 1
      then show ?thesis by auto
    next
      case 2
      show ?thesis
      proof (cases "k' = k \<and> r = rid")
        case True
        with 2 have e': "(rid, c') \<in> set (P k)" by simp
        have "map_of (P k) rid = Some c'"
          using binv_keys [OF inv, of k] e' by simp
        moreover have "map_of (P k) rid = Some c"
          using binv_keys [OF inv, of k] e by simp
        ultimately have "c' = c" by simp
        then show ?thesis by simp
      next
        case False
        with 2 have "(r, c') \<in> set ((P(k := AList.delete rid (P k))) k')" unfolding mem by simp
        then show ?thesis by blast
      qed
    qed
  next
    fix t assume "t \<in> set T"
    from binv_timer [OF inv this]
    show "tm_requestId t \<in> R
          \<and> (\<forall>c'. (tm_requestId t, c') \<in> set ((P(k := AList.delete rid (P k))) (tm_sink t))
                 \<longrightarrow> c' = tm_callback t)"
      unfolding mem by simp
  qed
qed

lemma in_set_remove_nth:
  assumes "x \<in> set xs" and "x \<noteq> xs ! i"
  shows "x \<in> set (take i xs @ drop (Suc i) xs)"
proof -
  from assms(1) obtain j where j: "j < length xs" "xs ! j = x"
    by (auto simp: in_set_conv_nth)
  with assms(2) have "j \<noteq> i" by auto
  then consider "j < i" | "i < j" by arith
  then show ?thesis
  proof cases
    case 1
    with j have "x \<in> set (take i xs)"
      by (auto simp: in_set_conv_nth intro!: exI [of _ j])
    then show ?thesis by simp
  next
    case 2
    with j have "x = drop (Suc i) xs ! (j - Suc i)" "j - Suc i < length (drop (Suc i) xs)"
      by auto
    then have "x \<in> set (drop (Suc i) xs)" by (metis nth_mem)
    then show ?thesis by simp
  qed
qed

lemma binv_timer_remove:
  assumes inv: "binv R P C T N" and i: "i < length T"
    and gone: "\<And>c. (tm_requestId (T ! i), c) \<notin> set (P (tm_sink (T ! i)))"
  shows "binv R P C (take i T @ drop (Suc i) T) N"
proof (rule binvI)
  show "distinct (map fst C)" by (rule binv_calls_distinct [OF inv])
next
  fix c assume "c \<in> fst ` set C" then show "c < N" by (rule binv_calls_issued [OF inv])
next
  fix k show "distinct (map fst (P k))" by (rule binv_keys [OF inv])
next
  fix k r c assume e: "(r, c) \<in> set (P k)"
  note ec = binv_entry [OF inv e]
  have "the_timer k r c \<noteq> T ! i"
  proof
    assume eq: "the_timer k r c = T ! i"
    have "tm_sink (T ! i) = k"
      using arg_cong [OF eq, of tm_sink] by (simp add: the_timer_def)
    moreover have "tm_requestId (T ! i) = r"
      using arg_cong [OF eq, of tm_requestId] by (simp add: the_timer_def)
    ultimately show False using gone [of c] e by simp
  qed
  with ec have "the_timer k r c \<in> set (take i T @ drop (Suc i) T)"
    by (intro in_set_remove_nth) auto
  with ec show "c < N \<and> c \<notin> fst ` set C \<and> r \<in> R
                 \<and> the_timer k r c \<in> set (take i T @ drop (Suc i) T)" by simp
next
  fix k1 r1 k2 r2 c
  assume "(r1, c) \<in> set (P k1)" "(r2, c) \<in> set (P k2)"
  then show "k1 = k2 \<and> r1 = r2" by (rule binv_unique [OF inv])
next
  fix c assume "c < N"
  then show "c \<in> fst ` set C \<or> (\<exists>k r. (r, c) \<in> set (P k))" by (rule binv_cover [OF inv])
next
  fix t assume "t \<in> set (take i T @ drop (Suc i) T)"
  then have "t \<in> set T"
    using set_take_subset [of i T] set_drop_subset [of "Suc i" T] by auto
  then show "tm_requestId t \<in> R
          \<and> (\<forall>c. (tm_requestId t, c) \<in> set (P (tm_sink t)) \<longrightarrow> c = tm_callback t)"
    by (rule binv_timer [OF inv])
qed

lemma distinct_values:
  "distinct (map fst m) \<Longrightarrow> (\<And>r r' c. (r, c) \<in> set m \<Longrightarrow> (r', c) \<in> set m \<Longrightarrow> r = r')
     \<Longrightarrow> distinct (map snd m)"
proof (induction m)
  case Nil
  then show ?case by simp
next
  case (Cons p m)
  obtain r c where p: "p = (r, c)" by (cases p)
  have "c \<notin> snd ` set m"
  proof
    assume "c \<in> snd ` set m"
    then obtain r' where r': "(r', c) \<in> set m" by force
    with Cons.prems(2) [of r c r'] p have "r = r'" by simp
    with r' Cons.prems(1) p show False by force
  qed
  moreover have "distinct (map snd m)"
    using Cons.prems by (intro Cons.IH) auto
  ultimately show ?case using p by simp
qed

lemma binv_close_all:
  assumes inv: "binv R P C T N"
  shows "binv R (P(k := [])) (C @ map (\<lambda>(rid, c). (c, arg)) (P k)) T N"
proof -
  have fsts: "fst ` set (C @ map (\<lambda>(rid, c). (c, arg)) (P k)) = fst ` set C \<union> snd ` set (P k)"
    by force
  have mapfst: "fst \<circ> (\<lambda>(rid, c). (c, arg)) = snd"
    by (rule ext) (simp add: case_prod_beta)
  have dv: "distinct (map snd (P k))"
    using binv_keys [OF inv, of k] binv_unique [OF inv, of _ _ k _ k]
    by (intro distinct_values) auto
  show ?thesis
  proof (rule binvI)
    have "fst ` set C \<inter> snd ` set (P k) = {}"
      using binv_entry [OF inv, of _ _ k] by force
    then show "distinct (map fst (C @ map (\<lambda>(rid, c). (c, arg)) (P k)))"
      using binv_calls_distinct [OF inv] dv by (simp add: mapfst case_prod_beta)
  next
    fix c assume "c \<in> fst ` set (C @ map (\<lambda>(rid, c). (c, arg)) (P k))"
    then consider "c \<in> fst ` set C" | "c \<in> snd ` set (P k)" unfolding fsts by blast
    then show "c < N"
    proof cases
      case 1
      then show ?thesis by (rule binv_calls_issued [OF inv])
    next
      case 2
      then obtain r where "(r, c) \<in> set (P k)" by force
      from binv_entry [OF inv this] show ?thesis by simp
    qed
  next
    fix k' show "distinct (map fst ((P(k := [])) k'))"
      using binv_keys [OF inv] by simp
  next
    fix k' r c assume "(r, c) \<in> set ((P(k := [])) k')"
    then have ne: "k' \<noteq> k" and e: "(r, c) \<in> set (P k')" by (auto split: if_splits)
    have "c \<notin> snd ` set (P k)"
    proof
      assume "c \<in> snd ` set (P k)"
      then obtain r' where "(r', c) \<in> set (P k)" by force
      from binv_unique [OF inv e this] ne show False by simp
    qed
    with binv_entry [OF inv e]
    show "c < N \<and> c \<notin> fst ` set (C @ map (\<lambda>(rid, c). (c, arg)) (P k)) \<and> r \<in> R
            \<and> the_timer k' r c \<in> set T"
      unfolding fsts by simp
  next
    fix k1 r1 k2 r2 c
    assume "(r1, c) \<in> set ((P(k := [])) k1)" "(r2, c) \<in> set ((P(k := [])) k2)"
    then have "(r1, c) \<in> set (P k1)" "(r2, c) \<in> set (P k2)" by (auto split: if_splits)
    then show "k1 = k2 \<and> r1 = r2" by (rule binv_unique [OF inv])
  next
    fix c assume "c < N"
    from binv_cover [OF inv this]
    consider "c \<in> fst ` set C" | k' r where "(r, c) \<in> set (P k')" by blast
    then show "c \<in> fst ` set (C @ map (\<lambda>(rid, c). (c, arg)) (P k))
                \<or> (\<exists>k' r. (r, c) \<in> set ((P(k := [])) k'))"
    proof cases
      case 1
      then show ?thesis unfolding fsts by simp
    next
      case 2
      show ?thesis
      proof (cases "k' = k")
        case True
        with 2 have "c \<in> snd ` set (P k)" by force
        then show ?thesis unfolding fsts by simp
      next
        case False
        with 2 have "(r, c) \<in> set ((P(k := [])) k')" by simp
        then show ?thesis by blast
      qed
    qed
  next
    fix t assume "t \<in> set T"
    from binv_timer [OF inv this]
    show "tm_requestId t \<in> R
          \<and> (\<forall>c. (tm_requestId t, c) \<in> set ((P(k := [])) (tm_sink t)) \<longrightarrow> c = tm_callback t)"
      by simp
  qed
qed

lemma binv_mono:
  assumes inv: "binv R P C T N" and sub: "R \<subseteq> R'"
  shows "binv R' P C T N"
proof (rule binvI)
  show "distinct (map fst C)" by (rule binv_calls_distinct [OF inv])
next
  fix c assume "c \<in> fst ` set C" then show "c < N" by (rule binv_calls_issued [OF inv])
next
  fix k show "distinct (map fst (P k))" by (rule binv_keys [OF inv])
next
  fix k r c assume e: "(r, c) \<in> set (P k)"
  from binv_entry [OF inv e] sub
  show "c < N \<and> c \<notin> fst ` set C \<and> r \<in> R' \<and> the_timer k r c \<in> set T" by auto
next
  fix k1 r1 k2 r2 c
  assume "(r1, c) \<in> set (P k1)" "(r2, c) \<in> set (P k2)"
  then show "k1 = k2 \<and> r1 = r2" by (rule binv_unique [OF inv])
next
  fix c assume "c < N"
  then show "c \<in> fst ` set C \<or> (\<exists>k r. (r, c) \<in> set (P k))" by (rule binv_cover [OF inv])
next
  fix t assume "t \<in> set T"
  from binv_timer [OF inv this] sub
  show "tm_requestId t \<in> R'
          \<and> (\<forall>c. (tm_requestId t, c) \<in> set (P (tm_sink t)) \<longrightarrow> c = tm_callback t)"
    by auto
qed

subsection \<open>The invariant on the state of the server\<close>

lemma keeps_self: "refs_ok st \<Longrightarrow> keeps (pending st) (calls st) (timers st) (nextCallback st) st"
  by (simp add: keeps_def)

lemma broker_inv_keeps:
  "broker_inv R st \<Longrightarrow> keeps (pending st) (calls st) (timers st) (nextCallback st) st'
     \<Longrightarrow> broker_inv R st'"
  by (simp add: keeps_def broker_inv_def)

lemma nth_update_proj:
  assumes "p (g (xs ! a)) = p (xs ! a)"
  shows "p (xs[a := g (xs ! a)] ! j) = p (xs ! j)"
proof (cases "j = a")
  case True
  show ?thesis
  proof (cases "a < length xs")
    case True
    with \<open>j = a\<close> assms show ?thesis by simp
  next
    case False
    then have "xs[a := g (xs ! a)] = xs" by (simp add: list_update_beyond)
    then show ?thesis by simp
  qed
next
  case False
  then show ?thesis by simp
qed

lemma sink_ok_simps [simp]:
  "sink_ok (upd_session a f st) k = sink_ok st k"
  "sink_ok (upd_peer w g st) k = sink_ok st k"
  "sink_ok (st\<lparr>responses := r\<rparr>) k = sink_ok st k"
  "sink_ok (st\<lparr>host := h\<rparr>) k = sink_ok st k"
  "sink_ok (st\<lparr>calls := c\<rparr>) k = sink_ok st k"
  "sink_ok (st\<lparr>timers := t\<rparr>) k = sink_ok st k"
  "sink_ok (st\<lparr>nextCallback := n\<rparr>) k = sink_ok st k"
  "sink_ok (st\<lparr>activeSessions := as\<rparr>) k = sink_ok st k"
  "sink_ok (st\<lparr>activeConnections := ac\<rparr>) k = sink_ok st k"
  by (cases k; simp add: sink_ok_def upd_session_def upd_peer_def)+

lemma pending_fields [simp]:
  "pending (st\<lparr>responses := r\<rparr>) = pending st"
  "pending (st\<lparr>host := h\<rparr>) = pending st"
  "pending (st\<lparr>calls := c\<rparr>) = pending st"
  "pending (st\<lparr>timers := t\<rparr>) = pending st"
  "pending (st\<lparr>nextCallback := n\<rparr>) = pending st"
  "pending (st\<lparr>activeSessions := as\<rparr>) = pending st"
  "pending (st\<lparr>activeConnections := ac\<rparr>) = pending st"
  by (rule ext, case_tac x, simp_all add: pending_def samplingRequests_of_def)+

lemma pending_upd_session_same:
  assumes "samplingRequests (f (sessions st ! a)) = samplingRequests (sessions st ! a)"
  shows "pending (upd_session a f st) = pending st"
proof
  fix k show "pending (upd_session a f st) k = pending st k"
    using nth_update_proj [of samplingRequests f "sessions st" a, OF assms]
    by (cases k) (auto simp: pending_def upd_session_def samplingRequests_of_def)
qed

lemma pending_upd_session_set:
  assumes "a < length (sessions st)"
  shows "pending (upd_session a (\<lambda>s. s\<lparr>samplingRequests := Some m\<rparr>) st)
           = (pending st)(SessionSink a := m)"
proof
  fix k show "pending (upd_session a (\<lambda>s. s\<lparr>samplingRequests := Some m\<rparr>) st) k
                = ((pending st)(SessionSink a := m)) k"
    using assms
    by (cases k)
       (auto simp: pending_def upd_session_def samplingRequests_of_def nth_list_update)
qed

lemma pending_upd_peer_same:
  assumes "ws_samplingRequests (f (peers st ! w)) = ws_samplingRequests (peers st ! w)"
  shows "pending (upd_peer w f st) = pending st"
proof
  fix k show "pending (upd_peer w f st) k = pending st k"
    using nth_update_proj [of ws_samplingRequests f "peers st" w, OF assms]
    by (cases k) (auto simp: pending_def upd_peer_def samplingRequests_of_def)
qed

lemma pending_upd_peer_set:
  assumes "w < length (peers st)"
  shows "pending (upd_peer w (\<lambda>p. p\<lparr>ws_samplingRequests := m\<rparr>) st) = (pending st)(WsSink w := m)"
proof
  fix k show "pending (upd_peer w (\<lambda>p. p\<lparr>ws_samplingRequests := m\<rparr>) st) k
                = ((pending st)(WsSink w := m)) k"
    using assms
    by (cases k) (auto simp: pending_def upd_peer_def samplingRequests_of_def nth_list_update)
qed

lemma refs_ok_upd_session [simp]: "refs_ok (upd_session a f st) = refs_ok st"
  by (simp add: refs_ok_def) (simp add: upd_session_def)

lemma refs_ok_upd_peer [simp]: "refs_ok (upd_peer w f st) = refs_ok st"
  by (simp add: refs_ok_def) (simp add: upd_peer_def)

lemma keeps_upd_session:
  "keeps P C T N st \<Longrightarrow> samplingRequests (f (sessions st ! a)) = samplingRequests (sessions st ! a)
     \<Longrightarrow> keeps P C T N (upd_session a f st)"
  using pending_upd_session_same [of f st a]
  by (simp add: keeps_def) (simp add: upd_session_def)

lemma keeps_upd_peer:
  "keeps P C T N st \<Longrightarrow> ws_samplingRequests (f (peers st ! w)) = ws_samplingRequests (peers st ! w)
     \<Longrightarrow> keeps P C T N (upd_peer w f st)"
  using pending_upd_peer_same [of f st w]
  by (simp add: keeps_def) (simp add: upd_peer_def)

lemma keeps_fields [simp]:
  "keeps P C T N (st\<lparr>responses := r\<rparr>) = keeps P C T N st"
  "keeps P C T N (st\<lparr>host := h\<rparr>) = keeps P C T N st"
  by (simp_all add: keeps_def refs_ok_def)

lemma keeps_res_write [simp]: "keeps P C T N (snd (res_write r fr st)) = keeps P C T N st"
  by (simp add: res_write_def)

lemma keeps_res_end [simp]: "keeps P C T N (snd (res_end r st)) = keeps P C T N st"
  by (simp add: res_end_def)

lemma keeps_new_response [simp]: "keeps P C T N (snd (new_response st)) = keeps P C T N st"
  by (simp add: new_response_def)

subsection \<open>Handlers that leave the broker alone\<close>

lemma keeps_sendEventToSession:
  "keeps P C T N st \<Longrightarrow> keeps P C T N (snd (sendEventToSession sid n d st))"
  by (auto simp: sendEventToSession_def Let_def case_prod_beta bool.case_eq_if
           split: option.splits intro!: keeps_upd_session)

lemma keeps_fold:
  "(\<And>x s. keeps P C T N s \<Longrightarrow> keeps P C T N (f x s)) \<Longrightarrow> keeps P C T N st
     \<Longrightarrow> keeps P C T N (fold f xs st)"
  by (induction xs arbitrary: st) auto

lemma keeps_broadcast: "keeps P C T N st \<Longrightarrow> keeps P C T N (broadcast n d st)"
  unfolding broadcast_def by (rule keeps_fold) (auto intro: keeps_sendEventToSession)

lemma keeps_relay: "keeps P C T N st \<Longrightarrow> keeps P C T N (relay ev st)"
  by (auto simp: relay_def split: host_event.splits intro: keeps_broadcast)

lemma keeps_host_changed: "keeps P C T N st \<Longrightarrow> keeps P C T N (host_changed h st)"
  unfolding host_changed_def by (rule keeps_fold) (auto intro: keeps_relay)

lemma keeps_getSession: "keeps P C T N st \<Longrightarrow> keeps P C T N (snd (getSession sid now st))"
  by (auto simp: getSession_def split: option.splits intro!: keeps_upd_session)

lemma snd_set_update: "snd ` set (AList.update k v al) \<subseteq> insert v (snd ` set al)"
  by (induction al) auto

lemma keeps_createSession:
  assumes "keeps P C T N st"
  shows "keeps P C T N (snd (createSession sid now st))"
proof -
  let ?st = "snd (createSession sid now st)"
  have p: "pending ?st = pending st"
  proof
    fix k show "pending ?st k = pending st k"
      by (cases k)
         (auto simp: pending_def createSession_def samplingRequests_of_def nth_append)
  qed
  have s: "sink_ok ?st k" if "sink_ok st k" for k
    using that by (cases k) (auto simp: sink_ok_def createSession_def)
  have a: "snd p < length (sessions ?st)" if "p \<in> set (activeSessions ?st)" for p
  proof -
    from that have "snd p \<in> snd ` set (AList.update sid (length (sessions st)) (activeSessions st))"
      by (simp add: createSession_def)
    with snd_set_update [of sid "length (sessions st)" "activeSessions st"]
    have "snd p = length (sessions st) \<or> snd p \<in> snd ` set (activeSessions st)" by auto
    with assms show ?thesis
      by (auto simp: keeps_def refs_ok_def list_all_iff createSession_def)
  qed
  from assms have "refs_ok ?st"
    using s a by (auto simp: keeps_def refs_ok_def list_all_iff) (simp add: createSession_def)+
  with assms p show ?thesis
    by (simp add: keeps_def) (simp add: createSession_def)
qed


lemma keeps_processSingleMessage:
  "keeps P C T N st \<Longrightarrow> keeps P C T N (snd (snd (processSingleMessage sid now uuid m st)))"
  using keeps_getSession [of P C T N st "case sid of None \<Rightarrow> [] | Some v \<Rightarrow> v" now]
        keeps_createSession [of P C T N st uuid now]
  by (auto simp: processSingleMessage_def case_prod_beta split: option.splits)

lemma keeps_process_batch:
  "keeps P C T N st \<Longrightarrow> keeps P C T N (snd (snd (process_batch sid now uuids i ms st)))"
proof (induction ms arbitrary: i st)
  case Nil
  then show ?case by simp
next
  case (Cons m ms)
  from Cons.prems have "keeps P C T N (snd (snd (processSingleMessage sid now (uuids i) m st)))"
    by (rule keeps_processSingleMessage)
  from Cons.IH [OF this, of "Suc i"] show ?case
    by (simp add: case_prod_beta)
qed

lemma keeps_post_mcp:
  assumes "keeps P C T N st"
  shows "keeps P C T N (snd (snd (post_mcp sid acc body now uuids st)))"
proof -
  define st1 where "st1 = (case body of
       JArr messages \<Rightarrow> snd (snd (process_batch sid now uuids 0 messages st))
     | _ \<Rightarrow> snd (snd (processSingleMessage sid now (uuids 0) body st)))"
  have ok1: "keeps P C T N st1"
    using assms unfolding st1_def
    by (auto split: json.splits intro: keeps_process_batch keeps_processSingleMessage)
  have g: "keeps P C T N (snd (getSession x now (snd (res_write r Blank (snd (new_response st1))))))"
    for x r
    by (rule keeps_getSession) (simp add: ok1)
  show ?thesis
    using ok1 g
    by (cases body)
       (auto simp: post_mcp_def st1_def Let_def case_prod_beta
             split: option.splits intro!: keeps_upd_session)
qed

lemma keeps_replay: "keeps P C T N (replay_events r l q st) = keeps P C T N st"
proof -
  have "keeps P C T N (fold (\<lambda>event s. if F event then snd (res_write r (G event) s) else s) q st)
          = keeps P C T N st" for F G
    by (induction q arbitrary: st) auto
  then show ?thesis by (auto simp: replay_events_def split: option.splits)
qed

lemma keeps_get_mcp:
  assumes "keeps P C T N st"
  shows "keeps P C T N (snd (get_mcp sid l acc now st))"
proof -
  have g: "keeps P C T N (snd (getSession x now st))" for x
    using assms by (rule keeps_getSession)
  show ?thesis
    using g assms
    by (auto simp: get_mcp_def Let_def case_prod_beta keeps_replay
             split: option.splits intro!: keeps_sendEventToSession keeps_upd_session)
qed

lemma keeps_post_config_roots:
  "keeps P C T N st \<Longrightarrow> keeps P C T N (snd (post_config_roots body st))"
  by (auto simp: post_config_roots_def case_prod_beta split: option.splits sum.splits
           intro: keeps_host_changed)

lemma keeps_drop_connection: "keeps P C T N st \<Longrightarrow> keeps P C T N (drop_connection a r st)"
  by (auto simp: drop_connection_def split: option.splits intro!: keeps_upd_session)

lemma keeps_post_stream_closed:
  "keeps P C T N st \<Longrightarrow> keeps P C T N (post_stream_closed sid r now st)"
  using keeps_getSession [of P C T N st sid now]
  by (auto simp: post_stream_closed_def case_prod_beta split: option.splits
           intro: keeps_drop_connection)

lemma keeps_ws_connection:
  assumes "keeps P C T N st"
  shows "keeps P C T N (snd (ws_connection cid st))"
proof -
  let ?st = "snd (ws_connection cid st)"
  have p: "pending ?st = pending st"
  proof
    fix k show "pending ?st k = pending st k"
      by (cases k) (auto simp: pending_def ws_connection_def samplingRequests_of_def nth_append)
  qed
  have s: "sink_ok ?st k" if "sink_ok st k" for k
    using that by (cases k) (auto simp: sink_ok_def ws_connection_def)
  from assms have "refs_ok ?st"
    using s by (auto simp: keeps_def refs_ok_def list_all_iff) (auto simp: ws_connection_def)
  with assms p show ?thesis
    by (simp add: keeps_def) (simp add: ws_connection_def)
qed

lemma keeps_ws_close: "keeps P C T N st \<Longrightarrow> keeps P C T N (ws_close w st)"
proof -
  assume k: "keeps P C T N st"
  then have "keeps P C T N (upd_peer w (\<lambda>p. p\<lparr>readyOpen := False\<rparr>) st)"
    by (rule keeps_upd_peer) simp
  then show ?thesis
    by (auto simp: ws_close_def keeps_def refs_ok_def list_all_iff) (simp add: upd_peer_def)+
qed

lemma keeps_subscribe: "keeps P C T N st \<Longrightarrow> keeps P C T N (handleSubscribeMessage w data st)"
  by (auto simp: handleSubscribeMessage_def split: option.splits json.splits
           intro!: keeps_upd_peer)

lemma keeps_unsubscribe: "keeps P C T N st \<Longrightarrow> keeps P C T N (handleUnsubscribeMessage w data st)"
  by (auto simp: handleUnsubscribeMessage_def split: option.splits json.splits
           intro!: keeps_upd_peer)

lemma keeps_response_becomes:
  "keeps P C T N st \<Longrightarrow> keeps P C T N (st\<lparr>responses := r\<rparr>)"
  by simp

subsection \<open>Completion by a response or an error\<close>

lemma broker_invI:
  "binv R P C T N \<Longrightarrow> pending st = P \<Longrightarrow> calls st = C \<Longrightarrow> timers st = T
     \<Longrightarrow> nextCallback st = N \<Longrightarrow> refs_ok st \<Longrightarrow> broker_inv R st"
  by (simp add: broker_inv_def)

lemma pending_upd_session:
  assumes "a < length (sessions st)"
  shows "pending (upd_session a f st)
           = (pending st)(SessionSink a :=
                (case samplingRequests (f (sessions st ! a)) of None \<Rightarrow> [] | Some m \<Rightarrow> m))"
proof
  fix k show "pending (upd_session a f st) k
                = ((pending st)(SessionSink a :=
                     (case samplingRequests (f (sessions st ! a)) of None \<Rightarrow> [] | Some m \<Rightarrow> m))) k"
    using assms
    by (cases k) (auto simp: pending_def upd_session_def samplingRequests_of_def)
qed

lemma pending_upd_peer:
  assumes "w < length (peers st)"
  shows "pending (upd_peer w f st)
           = (pending st)(WsSink w := ws_samplingRequests (f (peers st ! w)))"
proof
  fix k show "pending (upd_peer w f st) k
                = ((pending st)(WsSink w := ws_samplingRequests (f (peers st ! w)))) k"
    using assms
    by (cases k) (auto simp: pending_def upd_peer_def samplingRequests_of_def)
qed

lemma pending_invoke [simp]: "pending (invoke cb arg st) = pending st"
  by (simp add: invoke_def)

lemma refs_ok_invoke [simp]: "refs_ok (invoke cb arg st) = refs_ok st"
  by (simp add: invoke_def refs_ok_def)

lemma invoke_fields [simp]:
  "calls (invoke cb arg st) = calls st @ [(cb, arg)]"
  "timers (invoke cb arg st) = timers st"
  "nextCallback (invoke cb arg st) = nextCallback st"
  "sessions (invoke cb arg st) = sessions st"
  "peers (invoke cb arg st) = peers st"
  "activeSessions (invoke cb arg st) = activeSessions st"
  "activeConnections (invoke cb arg st) = activeConnections st"
  by (simp_all add: invoke_def)

lemma upd_session_fields [simp]:
  "calls (upd_session a f st) = calls st"
  "timers (upd_session a f st) = timers st"
  "nextCallback (upd_session a f st) = nextCallback st"
  "peers (upd_session a f st) = peers st"
  "activeSessions (upd_session a f st) = activeSessions st"
  "activeConnections (upd_session a f st) = activeConnections st"
  "length (sessions (upd_session a f st)) = length (sessions st)"
  by (simp_all add: upd_session_def)

lemma upd_peer_fields [simp]:
  "calls (upd_peer w f st) = calls st"
  "timers (upd_peer w f st) = timers st"
  "nextCallback (upd_peer w f st) = nextCallback st"
  "sessions (upd_peer w f st) = sessions st"
  "activeSessions (upd_peer w f st) = activeSessions st"
  "activeConnections (upd_peer w f st) = activeConnections st"
  "length (peers (upd_peer w f st)) = length (peers st)"
  by (simp_all add: upd_peer_def)

lemma complete_session:
  assumes inv: "broker_inv R st" and a: "a < length (sessions st)"
    and m: "samplingRequests (sessions st ! a) = Some m" and e: "map_of m rid = Some cb"
  shows "broker_inv R (upd_session a (\<lambda>s. s\<lparr>samplingRequests := Some (AList.delete rid m)\<rparr>)
                         (invoke cb arg st))"
proof -
  have p: "pending st (SessionSink a) = m"
    using a m by (simp add: pending_def samplingRequests_of_def)
  from e have "(rid, cb) \<in> set (pending st (SessionSink a))"
    unfolding p by (rule map_of_SomeD)
  with inv have "binv R ((pending st)(SessionSink a := AList.delete rid (pending st (SessionSink a))))
                   (calls st @ [(cb, arg)]) (timers st) (nextCallback st)"
    unfolding broker_inv_def by (intro binv_complete) auto
  then show ?thesis
  proof (rule broker_invI)
    show "refs_ok (upd_session a (\<lambda>s. s\<lparr>samplingRequests := Some (AList.delete rid m)\<rparr>)
                     (invoke cb arg st))"
      using inv by (simp add: broker_inv_def)
  qed (use a p in \<open>simp_all add: pending_upd_session\<close>)
qed

lemma complete_peer:
  assumes inv: "broker_inv R st" and w: "w < length (peers st)"
    and e: "map_of (ws_samplingRequests (peers st ! w)) rid = Some cb"
  shows "broker_inv R (upd_peer w (\<lambda>p. p\<lparr>ws_samplingRequests :=
                                           AList.delete rid (ws_samplingRequests p)\<rparr>)
                         (invoke cb arg st))"
proof -
  have p: "pending st (WsSink w) = ws_samplingRequests (peers st ! w)"
    using w by (simp add: pending_def)
  from e have "(rid, cb) \<in> set (pending st (WsSink w))"
    unfolding p by (rule map_of_SomeD)
  with inv have "binv R ((pending st)(WsSink w := AList.delete rid (pending st (WsSink w))))
                   (calls st @ [(cb, arg)]) (timers st) (nextCallback st)"
    unfolding broker_inv_def by (intro binv_complete) auto
  then show ?thesis
  proof (rule broker_invI)
    show "refs_ok (upd_peer w (\<lambda>p. p\<lparr>ws_samplingRequests :=
                                     AList.delete rid (ws_samplingRequests p)\<rparr>)
                     (invoke cb arg st))"
      using inv by (simp add: broker_inv_def)
  qed (use w p in \<open>simp_all add: pending_upd_peer\<close>)
qed

lemma lookup_request_Some:
  "lookup_request m rq = Some (rid, cb) \<Longrightarrow> map_of m rid = Some cb"
  by (auto simp: lookup_request_def split: option.splits json.splits)

lemma broker_inv_frame:
  assumes "broker_inv R st"
    and "keeps (pending st) (calls st) (timers st) (nextCallback st) st
           \<Longrightarrow> keeps (pending st) (calls st) (timers st) (nextCallback st) st'"
  shows "broker_inv R st'"
proof -
  from assms(1) have "refs_ok st" by (simp add: broker_inv_def)
  then have "keeps (pending st) (calls st) (timers st) (nextCallback st) st" by (rule keeps_self)
  then have "keeps (pending st) (calls st) (timers st) (nextCallback st) st'" by (rule assms(2))
  with assms(1) show ?thesis by (rule broker_inv_keeps)
qed

lemma broker_inv_getSession:
  "broker_inv R st \<Longrightarrow> broker_inv R (snd (getSession sid now st))"
  by (erule broker_inv_frame) (rule keeps_getSession)

lemma getSession_address:
  assumes "broker_inv R st" and "fst (getSession sid now st) = Some a"
  shows "a < length (sessions (snd (getSession sid now st)))"
proof -
  from assms(2) have "map_of (activeSessions st) sid = Some a"
    by (auto simp: getSession_def split: option.splits)
  then have "(sid, a) \<in> set (activeSessions st)" by (rule map_of_SomeD)
  with assms(1) have "a < length (sessions st)"
    by (auto simp: broker_inv_def refs_ok_def list_all_iff)
  then show ?thesis by (auto simp: getSession_def split: option.splits)
qed

lemma broker_inv_post_sampling_response:
  assumes "broker_inv R st"
  shows "broker_inv R (snd (post_sampling_response sid body now st))"
proof -
  let ?st1 = "snd (getSession (case sid of None \<Rightarrow> [] | Some v \<Rightarrow> v) now st)"
  have inv1: "broker_inv R ?st1" using assms by (rule broker_inv_getSession)
  show ?thesis
    using assms inv1 getSession_address [OF assms, of "case sid of None \<Rightarrow> [] | Some v \<Rightarrow> v" now]
    by (auto simp: post_sampling_response_def case_prod_beta
          split: option.splits dest!: lookup_request_Some intro!: complete_session)
qed

lemma broker_inv_post_sampling_error:
  assumes "broker_inv R st"
  shows "broker_inv R (snd (post_sampling_error sid body now st))"
proof -
  let ?st1 = "snd (getSession (case sid of None \<Rightarrow> [] | Some v \<Rightarrow> v) now st)"
  have inv1: "broker_inv R ?st1" using assms by (rule broker_inv_getSession)
  show ?thesis
    using assms inv1 getSession_address [OF assms, of "case sid of None \<Rightarrow> [] | Some v \<Rightarrow> v" now]
    by (auto simp: post_sampling_error_def case_prod_beta
          split: option.splits dest!: lookup_request_Some intro!: complete_session)
qed

lemma broker_inv_ws_message:
  assumes "broker_inv R st"
  shows "broker_inv R (ws_message w data st)"
proof -
  have frame: "broker_inv R st'" if "keeps (pending st) (calls st) (timers st) (nextCallback st) st'" for st'
    using assms that by (rule broker_inv_keeps)
  have self: "keeps (pending st) (calls st) (timers st) (nextCallback st) st"
    using assms by (simp add: keeps_def broker_inv_def)
  have sub: "broker_inv R (handleSubscribeMessage w data st)"
    by (rule frame) (rule keeps_subscribe [OF self])
  have unsub: "broker_inv R (handleUnsubscribeMessage w data st)"
    by (rule frame) (rule keeps_unsubscribe [OF self])
  have valid: "w < length (peers st)" if "w \<in> set (activeConnections st)"
    using assms that by (auto simp: broker_inv_def refs_ok_def list_all_iff)
  have resp: "broker_inv R (handleSamplingResponseMessage w data st)"
    using assms valid
    by (auto simp: handleSamplingResponseMessage_def split: option.splits
          dest!: lookup_request_Some intro!: complete_peer)
  have err: "broker_inv R (handleSamplingErrorMessage w data st)"
    using assms valid
    by (auto simp: handleSamplingErrorMessage_def split: option.splits
          dest!: lookup_request_Some intro!: complete_peer)
  show ?thesis
    using assms sub unsub resp err
    by (auto simp: ws_message_def split: option.splits json.splits)
qed

subsection \<open>Registration, timeouts and the end of a session\<close>

lemma refs_ok_fields [simp]:
  "refs_ok (st\<lparr>nextCallback := n\<rparr>) = refs_ok st"
  "refs_ok (st\<lparr>calls := c\<rparr>) = refs_ok st"
  by (simp_all add: refs_ok_def)

lemma refs_ok_add_timer:
  "refs_ok st \<Longrightarrow> sink_ok st (tm_sink t) \<Longrightarrow> refs_ok (st\<lparr>timers := timers st @ [t]\<rparr>)"
  by (simp add: refs_ok_def)

lemma refs_ok_remove_timer:
  "refs_ok st \<Longrightarrow> refs_ok (st\<lparr>timers := take i (timers st) @ drop (Suc i) (timers st)\<rparr>)"
  by (auto simp: refs_ok_def list_all_iff dest: in_set_takeD in_set_dropD)

lemma refs_ok_delete_session:
  "refs_ok st \<Longrightarrow> refs_ok (st\<lparr>activeSessions := AList.delete sid (activeSessions st)\<rparr>)"
  by (auto simp: refs_ok_def list_all_iff set_delete)

lemma find_in_set: "find P xs = Some x \<Longrightarrow> x \<in> set xs"
  by (induction xs) (auto split: if_splits)

lemma broker_inv_on_samplingRequest:
  assumes inv: "broker_inv R st0" and fresh: "rid \<notin> R"
  shows "broker_inv (insert rid R) (on_samplingRequest rid sid params st0)"
proof -
  define N where "N = nextCallback st0"
  define st where "st = st0\<lparr>nextCallback := Suc N\<rparr>"
  have b: "binv R (pending st0) (calls st0) (timers st0) N" and r: "refs_ok st0"
    using inv by (simp_all add: broker_inv_def N_def)
  have st_simps: "pending st = pending st0" "calls st = calls st0" "timers st = timers st0"
    "nextCallback st = Suc N" "refs_ok st" "peers st = peers st0" "sessions st = sessions st0"
    "activeConnections st = activeConnections st0" "activeSessions st = activeSessions st0"
    using r by (simp_all add: st_def)
  show ?thesis
  proof (cases "find_open_socket st")
    case (Some w)
    then have "w \<in> set (activeConnections st0)"
      by (auto simp: find_open_socket_def st_simps dest: find_in_set)
    with r have w: "w < length (peers st)" by (auto simp: refs_ok_def list_all_iff st_simps)
    define st1 where "st1 = upd_peer w
        (\<lambda>p. p\<lparr>ws_samplingRequests := AList.update rid N (ws_samplingRequests p)\<rparr>) st"
    define st2 where "st2 = st1\<lparr>timers := timers st1 @ [the_timer (WsSink w) rid N]\<rparr>"
    define st3 where "st3 = upd_peer w
        (\<lambda>p. p\<lparr>ws_sent := ws_sent p @ [sampling_request_message rid sid params]\<rparr>) st2"
    have eq: "on_samplingRequest rid sid params st0 = st3"
      using Some
      by (simp add: on_samplingRequest_def Let_def st3_def st2_def st1_def st_def N_def
            the_timer_def)
    have p0: "pending st (WsSink w) = ws_samplingRequests (peers st ! w)"
      using w by (simp add: pending_def)
    have p1: "pending st1 = (pending st0)(WsSink w := AList.update rid N (pending st0 (WsSink w)))"
      unfolding st1_def using w p0 by (simp add: pending_upd_peer st_simps)
    have p3: "pending st3 = pending st1"
      unfolding st3_def st2_def by (simp add: pending_upd_peer_same)
    have c3: "calls st3 = calls st0" "timers st3 = timers st0 @ [the_timer (WsSink w) rid N]"
      "nextCallback st3 = Suc N"
      by (simp_all add: st3_def st2_def st1_def st_def)
    have "refs_ok st1" unfolding st1_def by (simp add: st_simps)
    moreover have "sink_ok st1 (tm_sink (the_timer (WsSink w) rid N))"
      unfolding st1_def using w by (simp add: the_timer_def) (simp add: sink_ok_def)
    ultimately have "refs_ok st2" unfolding st2_def by (rule refs_ok_add_timer)
    then have r3: "refs_ok st3" unfolding st3_def by simp
    from binv_register [OF b fresh, of "WsSink w"] show ?thesis
      unfolding eq by (rule broker_invI) (simp_all add: p3 p1 c3 r3)
  next
    case None
    note no_socket = this
    show ?thesis
    proof (cases "find_sse_session st")
      case None
      have eq: "on_samplingRequest rid sid params st0 = invoke N (CbError no_client_error) st"
        using None no_socket by (simp add: on_samplingRequest_def Let_def st_def N_def)
      from binv_reject [OF b, of rid "CbError no_client_error"] show ?thesis
        unfolding eq by (rule broker_invI) (simp_all add: st_simps)
    next
      case (Some found)
      obtain sessionId a where found: "found = (sessionId, a)" by (cases found)
      from Some have "(sessionId, a) \<in> set (activeSessions st0)"
        by (auto simp: find_sse_session_def st_simps found dest: find_in_set)
      with r have a: "a < length (sessions st)" by (auto simp: refs_ok_def list_all_iff st_simps)
      define st1 where "st1 = upd_session a
          (\<lambda>s. s\<lparr>samplingRequests :=
                    Some (AList.update rid N
                            (case samplingRequests s of None \<Rightarrow> [] | Some m \<Rightarrow> m))\<rparr>) st"
      define st2 where "st2 = st1\<lparr>timers := timers st1 @ [the_timer (SessionSink a) rid N]\<rparr>"
      have eq: "on_samplingRequest rid sid params st0
                  = snd (sendEventToSession (ss_id (sessions st2 ! a)) ''sampling_request''
                           (JObj [(''requestId'', JStr rid), (''serverId'', JStr sid),
                                  (''params'', params)]) st2)"
        using Some no_socket
        by (simp add: on_samplingRequest_def Let_def st2_def st1_def st_def N_def the_timer_def found)
      have p0: "pending st (SessionSink a)
                  = (case samplingRequests (sessions st ! a) of None \<Rightarrow> [] | Some m \<Rightarrow> m)"
        using a by (simp add: pending_def samplingRequests_of_def)
      have p1: "pending st1
                  = (pending st0)(SessionSink a := AList.update rid N (pending st0 (SessionSink a)))"
        unfolding st1_def using a p0 by (simp add: pending_upd_session st_simps)
      have c2: "pending st2 = pending st1" "calls st2 = calls st0"
        "timers st2 = timers st0 @ [the_timer (SessionSink a) rid N]" "nextCallback st2 = Suc N"
        by (simp_all add: st2_def st1_def st_def)
      have "refs_ok st1" unfolding st1_def by (simp add: st_simps)
      moreover have "sink_ok st1 (tm_sink (the_timer (SessionSink a) rid N))"
        unfolding st1_def using a by (simp add: the_timer_def) (simp add: sink_ok_def)
      ultimately have r2: "refs_ok st2" unfolding st2_def by (rule refs_ok_add_timer)
      from binv_register [OF b fresh, of "SessionSink a"] have "broker_inv (insert rid R) st2"
        by (rule broker_invI) (simp_all add: p1 c2 r2)
      then show ?thesis unfolding eq by (rule broker_inv_frame) (rule keeps_sendEventToSession)
    qed
  qed
qed

lemma binv_fire:
  assumes inv: "binv R P C T N" and i: "i < length T"
    and e: "map_of (P (tm_sink (T ! i))) (tm_requestId (T ! i)) = Some c"
  shows "binv R (P(tm_sink (T ! i) := AList.delete (tm_requestId (T ! i)) (P (tm_sink (T ! i)))))
           (C @ [(tm_callback (T ! i), arg)]) (take i T @ drop (Suc i) T) N"
proof -
  let ?t = "T ! i"
  from e have m: "(tm_requestId ?t, c) \<in> set (P (tm_sink ?t))" by (rule map_of_SomeD)
  from i have "?t \<in> set T" by simp
  from binv_timer [OF inv this] m have c: "tm_callback ?t = c" by blast
  from binv_complete [OF inv m, of arg]
  have 1: "binv R (P(tm_sink ?t := AList.delete (tm_requestId ?t) (P (tm_sink ?t))))
             (C @ [(c, arg)]) T N" .
  show ?thesis unfolding c
    by (rule binv_timer_remove [OF 1 i]) (simp add: set_delete)
qed

lemma binv_expire:
  assumes inv: "binv R P C T N" and i: "i < length T"
    and e: "map_of (P (tm_sink (T ! i))) (tm_requestId (T ! i)) = None"
  shows "binv R P C (take i T @ drop (Suc i) T) N"
proof (rule binv_timer_remove [OF inv i])
  fix c show "(tm_requestId (T ! i), c) \<notin> set (P (tm_sink (T ! i)))"
    using e by (auto dest: weak_map_of_SomeI)
qed

lemma invoke_upd_session: "invoke cb arg (upd_session a f st) = upd_session a f (invoke cb arg st)"
  by (simp add: invoke_def upd_session_def)

lemma invoke_upd_peer: "invoke cb arg (upd_peer w f st) = upd_peer w f (invoke cb arg st)"
  by (simp add: invoke_def upd_peer_def)

lemma broker_inv_fire_timer:
  assumes inv: "broker_inv R st"
  shows "broker_inv R (fire_timer i st)"
proof (cases "i < length (timers st)")
  case False
  then show ?thesis using inv by (simp add: fire_timer_def)
next
  case True
  define t where "t = timers st ! i"
  define T' where "T' = take i (timers st) @ drop (Suc i) (timers st)"
  define st' where "st' = st\<lparr>timers := T'\<rparr>"
  have b: "binv R (pending st) (calls st) (timers st) (nextCallback st)" and r: "refs_ok st"
    using inv by (simp_all add: broker_inv_def)
  have eq: "fire_timer i st = timer_body t st'"
    using True by (simp add: fire_timer_def t_def st'_def T'_def)
  have r': "refs_ok st'" unfolding st'_def T'_def using r by (rule refs_ok_remove_timer)
  have st'_simps: "pending st' = pending st" "calls st' = calls st" "timers st' = T'"
    "nextCallback st' = nextCallback st" "peers st' = peers st" "sessions st' = sessions st"
    by (simp_all add: st'_def)
  have sk: "sink_ok st (tm_sink t)"
    using r True by (auto simp: refs_ok_def list_all_iff t_def)
  have expire: "broker_inv R st'" if "map_of (pending st (tm_sink t)) (tm_requestId t) = None"
    using binv_expire [OF b True that [unfolded t_def]]
    by (rule broker_invI) (simp_all add: st'_simps T'_def r')
  have fire: "binv R ((pending st)(tm_sink t := AList.delete (tm_requestId t) (pending st (tm_sink t))))
                (calls st @ [(tm_callback t, arg)]) T' (nextCallback st)"
    if "map_of (pending st (tm_sink t)) (tm_requestId t) = Some c" for c arg
    using binv_fire [OF b True that [unfolded t_def]] by (simp add: t_def T'_def)
  show ?thesis
  proof (cases "tm_sink t")
    case (WsSink w)
    with sk have w: "w < length (peers st)" by (simp add: sink_ok_def)
    have p: "pending st (WsSink w) = ws_samplingRequests (peers st ! w)"
      using w by (simp add: pending_def)
    show ?thesis
    proof (cases "map_of (ws_samplingRequests (peers st ! w)) (tm_requestId t)")
      case None
      then have "timer_body t st' = st'" using WsSink by (simp add: timer_body_def st'_simps)
      with expire None p WsSink show ?thesis by (simp add: eq)
    next
      case (Some c)
      have body: "timer_body t st' = invoke (tm_callback t) (CbError timeout_error)
                    (upd_peer w (\<lambda>p. p\<lparr>ws_samplingRequests :=
                        AList.delete (tm_requestId t) (ws_samplingRequests p)\<rparr>) st')"
        using WsSink Some by (simp add: timer_body_def st'_simps)
      from Some p WsSink
      have "map_of (pending st (tm_sink t)) (tm_requestId t) = Some c" by simp
      from fire [OF this, of "CbError timeout_error"] show ?thesis
        unfolding eq body
        by (rule broker_invI)
           (use w p WsSink r' in \<open>simp_all add: pending_upd_peer st'_simps\<close>)
    qed
  next
    case (SessionSink a)
    with sk have a: "a < length (sessions st)" by (simp add: sink_ok_def)
    have p: "pending st (SessionSink a)
               = (case samplingRequests (sessions st ! a) of None \<Rightarrow> [] | Some m \<Rightarrow> m)"
      using a by (simp add: pending_def samplingRequests_of_def)
    show ?thesis
    proof (cases "samplingRequests (sessions st ! a)")
      case None
      then have "timer_body t st' = st'" using SessionSink by (simp add: timer_body_def st'_simps)
      with expire None p SessionSink show ?thesis by (simp add: eq)
    next
      case (Some m)
      note m = this
      show ?thesis
      proof (cases "map_of m (tm_requestId t)")
        case None
        then have "timer_body t st' = st'"
          using SessionSink m by (simp add: timer_body_def st'_simps)
        with expire None p SessionSink m show ?thesis by (simp add: eq)
      next
        case (Some c)
        have body: "timer_body t st' = invoke (tm_callback t) (CbError timeout_error)
                      (upd_session a (\<lambda>s. s\<lparr>samplingRequests :=
                          Some (AList.delete (tm_requestId t) m)\<rparr>) st')"
          using SessionSink Some m by (simp add: timer_body_def st'_simps)
        from Some p SessionSink m
        have "map_of (pending st (tm_sink t)) (tm_requestId t) = Some c" by simp
        from fire [OF this, of "CbError timeout_error"] show ?thesis
          unfolding eq body
          by (rule broker_invI)
             (use a p m SessionSink r' in \<open>simp_all add: pending_upd_session st'_simps\<close>)
      qed
    qed
  qed
qed

lemma fold_invoke:
  "fold (\<lambda>(requestId, cb). invoke cb arg) m st
     = st\<lparr>calls := calls st @ map (\<lambda>(rid, cb). (cb, arg)) m\<rparr>"
  by (induction m arbitrary: st) (auto simp: invoke_def)

lemma res_end_fields [simp]:
  "sessions (snd (res_end r st)) = sessions st"
  "pending (snd (res_end r st)) = pending st"
  "calls (snd (res_end r st)) = calls st"
  "timers (snd (res_end r st)) = timers st"
  "nextCallback (snd (res_end r st)) = nextCallback st"
  "activeSessions (snd (res_end r st)) = activeSessions st"
  "refs_ok (snd (res_end r st)) = refs_ok st"
  by (simp_all add: res_end_def refs_ok_def)

lemma broker_inv_deleteSession:
  assumes inv: "broker_inv R st"
  shows "broker_inv R (snd (deleteSession sid st))"
proof (cases "map_of (activeSessions st) sid")
  case None
  then show ?thesis using inv by (simp add: deleteSession_def)
next
  case (Some a)
  have b: "binv R (pending st) (calls st) (timers st) (nextCallback st)" and r: "refs_ok st"
    using inv by (simp_all add: broker_inv_def)
  from Some have "(sid, a) \<in> set (activeSessions st)" by (rule map_of_SomeD)
  with r have a: "a < length (sessions st)" by (auto simp: refs_ok_def list_all_iff)
  have p: "pending st (SessionSink a)
             = (case samplingRequests (sessions st ! a) of None \<Rightarrow> [] | Some m \<Rightarrow> m)"
    using a by (simp add: pending_def samplingRequests_of_def)
  define st1 where "st1 =
     (case sseConnection (sessions st ! a) of
        None \<Rightarrow> st
      | Some conn \<Rightarrow>
          (let st2 = snd (res_end (sse_res conn) st) in
           case samplingRequests (sessions st2 ! a) of
             None \<Rightarrow> st2
           | Some m \<Rightarrow>
               upd_session a (\<lambda>s. s\<lparr>samplingRequests := Some []\<rparr>)
                 (fold (\<lambda>(requestId, cb). invoke cb (CbError session_closed_error))
                    m st2)))"
  have eq: "snd (deleteSession sid st)
              = st1\<lparr>activeSessions := AList.delete sid (activeSessions st1)\<rparr>"
    using Some by (simp add: deleteSession_def st1_def Let_def)
  have "broker_inv R st1"
  proof (cases "sseConnection (sessions st ! a)")
    case None
    then show ?thesis using inv by (simp add: st1_def)
  next
    case (Some conn)
    let ?st2 = "snd (res_end (sse_res conn) st)"
    have inv2: "broker_inv R ?st2" using inv by (simp add: broker_inv_def)
    show ?thesis
    proof (cases "samplingRequests (sessions st ! a)")
      case None
      then show ?thesis using inv2 Some by (simp add: st1_def)
    next
      case (Some m)
      have eq1: "st1 = upd_session a (\<lambda>s. s\<lparr>samplingRequests := Some []\<rparr>)
                   (?st2\<lparr>calls := calls st @ map (\<lambda>(rid, cb). (cb, CbError session_closed_error)) m\<rparr>)"
        using Some \<open>sseConnection (sessions st ! a) = Some conn\<close>
        by (simp add: st1_def fold_invoke)
      from binv_close_all [OF b, of "SessionSink a" "CbError session_closed_error"] show ?thesis
        unfolding eq1
        by (rule broker_invI) (use a p Some r in \<open>simp_all add: pending_upd_session_set\<close>)
    qed
  qed
  then show ?thesis
    unfolding eq by (simp add: broker_inv_def refs_ok_delete_session)
qed

lemma broker_inv_fold:
  "(\<And>x s. broker_inv R s \<Longrightarrow> broker_inv R (f x s)) \<Longrightarrow> broker_inv R st
     \<Longrightarrow> broker_inv R (fold f xs st)"
  by (induction xs arbitrary: st) auto

lemma broker_inv_cleanup_interval:
  "broker_inv R st \<Longrightarrow> broker_inv R (cleanup_interval timeout now st)"
  unfolding cleanup_interval_def
  by (rule broker_inv_fold)
     (auto simp: sweep_one_def split: option.splits intro: broker_inv_deleteSession)

lemma broker_inv_delete_mcp:
  "broker_inv R st \<Longrightarrow> broker_inv R (snd (delete_mcp sid st))"
  by (auto simp: delete_mcp_def case_prod_beta bool.case_eq_if intro: broker_inv_deleteSession)

subsection \<open>Steps of the server\<close>

lemma request_ids_append: "request_ids (xs @ ys) = request_ids xs @ request_ids ys"
  by (induction xs rule: request_ids.induct) simp_all

lemma broker_inv_mono: "broker_inv R st \<Longrightarrow> R \<subseteq> R' \<Longrightarrow> broker_inv R' st"
  by (auto simp: broker_inv_def intro: binv_mono)

lemma pending_initial: "pending (initial_state h i c) = (\<lambda>k. [])"
  by (rule ext) (simp add: pending_def initial_state_def split: sink.splits)

lemma broker_inv_initial: "broker_inv {} (initial_state h i c)"
proof -
  have "binv {} (\<lambda>k. []) [] [] 0" by (rule binvI) simp_all
  then show ?thesis
    by (rule broker_invI) (simp_all add: pending_initial, simp_all add: initial_state_def refs_ok_def)
qed

text \<open>The events that leave the broker's data alone.\<close>

lemma keeps_step:
  assumes k: "keeps P C T N st"
  shows "keeps P C T N (step t (PostMcp sessionId acceptsSSE body now uuids) st)"
    and "keeps P C T N (step t (GetMcp sessionId lastEventId acceptsSSE now) st)"
    and "keeps P C T N (step t (PostConfigRoots body) st)"
    and "keeps P C T N (step t (GetStreamClosed a res) st)"
    and "keeps P C T N (step t (PostStreamClosed sid res now) st)"
    and "keeps P C T N (step t (ServerConnected serverId client) st)"
    and "keeps P C T N (step t (ServerDisconnected serverId error) st)"
    and "keeps P C T N (step t (ResourceUpdated serverId uri) st)"
    and "keeps P C T N (step t (WsConnection connectionId) st)"
    and "keeps P C T N (step t (WsClose w) st)"
    and "keeps P C T N (step t (SocketLeavesOpen w) st)"
    and "keeps P C T N (step t (ResponseBecomes r wr f) st)"
  using k
  by (simp_all add: keeps_post_mcp keeps_get_mcp keeps_post_config_roots get_stream_closed_def
        keeps_drop_connection keeps_post_stream_closed keeps_host_changed keeps_ws_connection
        keeps_ws_close keeps_upd_peer)

lemma broker_inv_step:
  assumes inv: "broker_inv R st" and fresh: "set (request_ids [ev]) \<inter> R = {}"
  shows "broker_inv (R \<union> set (request_ids [ev])) (step t ev st)"
proof -
  have frame: "broker_inv R st'" if "\<And>P C T N. keeps P C T N st \<Longrightarrow> keeps P C T N st'" for st'
    using inv by (rule broker_inv_frame) (rule that)
  show ?thesis
  proof (cases ev)
    case (SamplingRequest rid sid params)
    with fresh have "rid \<notin> R" by simp
    from broker_inv_on_samplingRequest [OF inv this] show ?thesis
      by (simp add: SamplingRequest)
  next
    case (PostMcp sessionId acceptsSSE body now uuids)
    have "broker_inv R (step t ev st)" unfolding PostMcp by (rule frame) (rule keeps_step)
    then show ?thesis by (simp add: PostMcp)
  next
    case (GetMcp sessionId lastEventId acceptsSSE now)
    have "broker_inv R (step t ev st)" unfolding GetMcp by (rule frame) (rule keeps_step)
    then show ?thesis by (simp add: GetMcp)
  next
    case (PostConfigRoots body)
    have "broker_inv R (step t ev st)" unfolding PostConfigRoots by (rule frame) (rule keeps_step)
    then show ?thesis by (simp add: PostConfigRoots)
  next
    case (GetStreamClosed a res)
    have "broker_inv R (step t ev st)" unfolding GetStreamClosed by (rule frame) (rule keeps_step)
    then show ?thesis by (simp add: GetStreamClosed)
  next
    case (PostStreamClosed sid res now)
    have "broker_inv R (step t ev st)" unfolding PostStreamClosed by (rule frame) (rule keeps_step)
    then show ?thesis by (simp add: PostStreamClosed)
  next
    case (ServerConnected serverId client)
    have "broker_inv R (step t ev st)" unfolding ServerConnected by (rule frame) (rule keeps_step)
    then show ?thesis by (simp add: ServerConnected)
  next
    case (ServerDisconnected serverId error)
    have "broker_inv R (step t ev st)" unfolding ServerDisconnected by (rule frame) (rule keeps_step)
    then show ?thesis by (simp add: ServerDisconnected)
  next
    case (ResourceUpdated serverId uri)
    have "broker_inv R (step t ev st)" unfolding ResourceUpdated by (rule frame) (rule keeps_step)
    then show ?thesis by (simp add: ResourceUpdated)
  next
    case (WsConnection connectionId)
    have "broker_inv R (step t ev st)" unfolding WsConnection by (rule frame) (rule keeps_step)
    then show ?thesis by (simp add: WsConnection)
  next
    case (WsClose w)
    have "broker_inv R (step t ev st)" unfolding WsClose by (rule frame) (rule keeps_step)
    then show ?thesis by (simp add: WsClose)
  next
    case (SocketLeavesOpen w)
    have "broker_inv R (step t ev st)" unfolding SocketLeavesOpen by (rule frame) (rule keeps_step)
    then show ?thesis by (simp add: SocketLeavesOpen)
  next
    case (ResponseBecomes r wr f)
    have "broker_inv R (step t ev st)" unfolding ResponseBecomes by (rule frame) (rule keeps_step)
    then show ?thesis by (simp add: ResponseBecomes)
  next
    case (DeleteMcp sessionId)
    then show ?thesis using inv by (simp add: broker_inv_delete_mcp)
  next
    case (PostSamplingResponse sessionId body now)
    then show ?thesis using inv by (simp add: broker_inv_post_sampling_response)
  next
    case (PostSamplingError sessionId body now)
    then show ?thesis using inv by (simp add: broker_inv_post_sampling_error)
  next
    case (CleanupInterval now)
    then show ?thesis using inv by (simp add: broker_inv_cleanup_interval)
  next
    case (TimerFires i)
    then show ?thesis using inv by (simp add: broker_inv_fire_timer)
  next
    case (WsMessage w data)
    then show ?thesis using inv by (simp add: broker_inv_ws_message)
  qed
qed

subsection \<open>The callback counter\<close>

lemma counter_sendEventToSession [simp]:
  "nextCallback (snd (sendEventToSession sid n d st)) = nextCallback st"
  by (simp add: sendEventToSession_def Let_def case_prod_beta bool.case_eq_if res_write_def
        split: option.splits)

lemma counter_on_samplingRequest:
  "nextCallback (on_samplingRequest rid sid params st) = Suc (nextCallback st)"
  by (simp add: on_samplingRequest_def Let_def split: option.splits prod.splits)

lemma timers_timer_body [simp]: "timers (timer_body t st) = timers st"
  by (simp add: timer_body_def split: sink.splits option.splits)

lemma counter_timer_body [simp]: "nextCallback (timer_body t st) = nextCallback st"
  by (simp add: timer_body_def split: sink.splits option.splits)

lemma counter_fire_timer [simp]: "nextCallback (fire_timer i st) = nextCallback st"
  by (simp add: fire_timer_def)

lemma counter_deleteSession [simp]: "nextCallback (snd (deleteSession sid st)) = nextCallback st"
  by (simp add: deleteSession_def Let_def fold_invoke split: option.splits)

lemma fold_same:
  "(\<And>x s. g (f x s) = g s) \<Longrightarrow> g (fold f xs st) = g st"
  by (induction xs arbitrary: st) auto

lemma counter_cleanup_interval [simp]:
  "nextCallback (cleanup_interval timeout now st) = nextCallback st"
  unfolding cleanup_interval_def
  by (rule fold_same) (simp add: sweep_one_def split: option.splits)

lemma counter_delete_mcp [simp]: "nextCallback (snd (delete_mcp sid st)) = nextCallback st"
  by (simp add: delete_mcp_def case_prod_beta bool.case_eq_if)

lemma counter_getSession [simp]: "nextCallback (snd (getSession sid now st)) = nextCallback st"
  by (simp add: getSession_def split: option.splits)

lemma counter_post_sampling_response [simp]:
  "nextCallback (snd (post_sampling_response sid body now st)) = nextCallback st"
  by (simp add: post_sampling_response_def case_prod_beta split: option.splits)

lemma counter_post_sampling_error [simp]:
  "nextCallback (snd (post_sampling_error sid body now st)) = nextCallback st"
  by (simp add: post_sampling_error_def case_prod_beta split: option.splits)

lemma counter_ws_message [simp]: "nextCallback (ws_message w data st) = nextCallback st"
  by (simp add: ws_message_def handleSubscribeMessage_def handleUnsubscribeMessage_def
        handleSamplingResponseMessage_def handleSamplingErrorMessage_def
        split: option.splits json.splits)

lemma counter_step:
  assumes inv: "broker_inv R st"
  shows "nextCallback (step t ev st) = nextCallback st + length (request_ids [ev])"
proof -
  from inv have "refs_ok st" by (simp add: broker_inv_def)
  then have k: "keeps (pending st) (calls st) (timers st) (nextCallback st) st" by (rule keeps_self)
  note ks = keeps_step [OF k, unfolded keeps_def, THEN conjunct2, THEN conjunct2, THEN conjunct2,
      THEN conjunct1]
  show ?thesis
    by (cases ev) (simp_all add: ks del: step.simps, simp_all add: counter_on_samplingRequest)
qed

subsection \<open>Runs\<close>

lemma run_snoc: "run t (evs @ [ev]) st = step t ev (run t evs st)"
  by (simp add: run_def)

lemma run_Cons: "run t (ev # evs) st = run t evs (step t ev st)"
  by (simp add: run_def)

lemma broker_inv_run:
  assumes "broker_inv R st" and "distinct (request_ids evs)" and "set (request_ids evs) \<inter> R = {}"
  shows "broker_inv (R \<union> set (request_ids evs)) (run t evs st)
       \<and> nextCallback (run t evs st) = nextCallback st + length (request_ids evs)"
  using assms(2,3)
proof (induction evs rule: rev_induct)
  case Nil
  show ?case using assms(1) by (simp add: run_def)
next
  case (snoc ev evs)
  from snoc.prems have d: "distinct (request_ids evs)" and f: "set (request_ids evs) \<inter> R = {}"
    and f': "set (request_ids [ev]) \<inter> (R \<union> set (request_ids evs)) = {}"
    by (auto simp: request_ids_append)
  from snoc.IH [OF d f]
  have inv: "broker_inv (R \<union> set (request_ids evs)) (run t evs st)"
    and n: "nextCallback (run t evs st) = nextCallback st + length (request_ids evs)" by simp_all
  from broker_inv_step [OF inv f', of t] counter_step [OF inv, of t ev] n
  show ?case by (simp add: run_snoc request_ids_append Un_assoc)
qed

lemma timers_fire_all:
  "timers (run t (replicate n (TimerFires 0)) st) = drop n (timers st)"
proof (induction n arbitrary: st)
  case 0
  show ?case by (simp add: run_def)
next
  case (Suc n)
  have "timers (fire_timer 0 st) = tl (timers st)"
    by (cases "timers st") (simp_all add: fire_timer_def)
  with Suc [of "fire_timer 0 st"] show ?case
    by (simp add: run_Cons drop_Suc)
qed

lemma request_ids_fire_all [simp]: "request_ids (replicate n (TimerFires i)) = []"
  by (induction n) simp_all

lemma count_distinct: "distinct xs \<Longrightarrow> count_list xs x = (if x \<in> set xs then 1 else 0)"
  by (induction xs) auto

lemma broker_inv_calls:
  assumes "broker_inv R st"
  shows "count_list (map fst (calls st)) cb \<le> 1"
    and "cb \<in> fst ` set (calls st) \<Longrightarrow> cb < nextCallback st"
    and "cb < nextCallback st \<Longrightarrow> count_list (map fst (calls st)) cb = 1
           \<or> (\<exists>t\<in>set (timers st). tm_callback t = cb
                 \<and> map_of (pending st (tm_sink t)) (tm_requestId t) = Some cb)"
    and "timers st = [] \<Longrightarrow> cb < nextCallback st \<Longrightarrow> count_list (map fst (calls st)) cb = 1"
proof -
  from assms have b: "binv R (pending st) (calls st) (timers st) (nextCallback st)"
    by (simp add: broker_inv_def)
  have d: "distinct (map fst (calls st))" by (rule binv_calls_distinct [OF b])
  show "count_list (map fst (calls st)) cb \<le> 1" by (simp add: count_distinct [OF d])
  show "cb \<in> fst ` set (calls st) \<Longrightarrow> cb < nextCallback st" by (rule binv_calls_issued [OF b])
  have cover: "count_list (map fst (calls st)) cb = 1
           \<or> (\<exists>t\<in>set (timers st). tm_callback t = cb
                 \<and> map_of (pending st (tm_sink t)) (tm_requestId t) = Some cb)"
    if lt: "cb < nextCallback st"
  proof (cases "cb \<in> fst ` set (calls st)")
    case True
    then show ?thesis by (simp add: count_distinct [OF d])
  next
    case False
    with binv_cover [OF b lt] obtain k rid where e: "(rid, cb) \<in> set (pending st k)" by auto
    from binv_entry [OF b e] have t: "the_timer k rid cb \<in> set (timers st)" by simp
    from binv_keys [OF b, of k] e have "map_of (pending st k) rid = Some cb" by simp
    with t show ?thesis by (auto simp: the_timer_def intro!: bexI [of _ "the_timer k rid cb"])
  qed
  then show "cb < nextCallback st \<Longrightarrow> count_list (map fst (calls st)) cb = 1
           \<or> (\<exists>t\<in>set (timers st). tm_callback t = cb
                 \<and> map_of (pending st (tm_sink t)) (tm_requestId t) = Some cb)" .
  show "timers st = [] \<Longrightarrow> cb < nextCallback st \<Longrightarrow> count_list (map fst (calls st)) cb = 1"
    using cover by auto
qed

text \<open>
  Claim C1. The callback of a sampling request is invoked exactly once, by one of the
  response, error, timeout and session-close paths, never by two. In any run of the server
  from its start in which \<open>randomUUID()\<close> never returns the same request id twice: every
  sampling request got a callback of its own; no callback was invoked twice; only callbacks
  that were created were invoked; a callback that was created has been invoked once, or its
  request is still held by its sink and the timer of that request is still pending; and once
  the pending timers have fired, every callback that was created has been invoked exactly
  once.
\<close>

theorem sampling_callback_once:
  assumes "distinct (request_ids evs)"
  shows "(let st = run timeout evs (initial_state h info caps);
              fin = run timeout (replicate (length (timers st)) (TimerFires 0)) st
          in nextCallback st = length (request_ids evs)
           \<and> (\<forall>cb. count_list (map fst (calls st)) cb \<le> 1)
           \<and> (\<forall>cb. cb \<in> fst ` set (calls st) \<longrightarrow> cb < nextCallback st)
           \<and> (\<forall>cb<nextCallback st. count_list (map fst (calls st)) cb = 1
                 \<or> (\<exists>t\<in>set (timers st). tm_callback t = cb
                       \<and> map_of (pending st (tm_sink t)) (tm_requestId t) = Some cb))
           \<and> nextCallback fin = nextCallback st
           \<and> (\<forall>cb<nextCallback fin. count_list (map fst (calls fin)) cb = 1))"
proof -
  define st where "st = run timeout evs (initial_state h info caps)"
  define fin where "fin = run timeout (replicate (length (timers st)) (TimerFires 0)) st"
  from broker_inv_run [OF broker_inv_initial assms, of timeout h info caps]
  have inv: "broker_inv (set (request_ids evs)) st"
    and n: "nextCallback st = length (request_ids evs)"
    by (simp_all add: st_def initial_state_def)
  from broker_inv_run [OF inv, of "replicate (length (timers st)) (TimerFires 0)" timeout]
  have inv': "broker_inv (set (request_ids evs)) fin" and n': "nextCallback fin = nextCallback st"
    by (simp_all add: fin_def)
  have fired: "timers fin = []" by (simp add: fin_def timers_fire_all)
  show ?thesis
    unfolding Let_def st_def [symmetric] fin_def [symmetric]
    using n n' broker_inv_calls(1,2,3) [OF inv] broker_inv_calls(4) [OF inv' fired]
    by blast
qed

text \<open>The theorem at a run where a socket answers the first request, the timer of that
  request then finds nothing to do, and the second request is left to its timer.\<close>

theorem sampling_callback_once_witness:
  "distinct (request_ids
       [WsConnection ''c'',
        SamplingRequest ''r1'' ''srv'' JNull,
        WsMessage 0 (JObj [(''type'', JStr ''sampling_response''), (''requestId'', JStr ''r1''),
                           (''result'', JObj [])]),
        SamplingRequest ''r2'' ''srv'' JNull,
        TimerFires 0])
   \<and> calls (run None
       [WsConnection ''c'',
        SamplingRequest ''r1'' ''srv'' JNull,
        WsMessage 0 (JObj [(''type'', JStr ''sampling_response''), (''requestId'', JStr ''r1''),
                           (''result'', JObj [])]),
        SamplingRequest ''r2'' ''srv'' JNull,
        TimerFires 0]
       (initial_state new_host JNull None)) = [(0, CbResult (JObj []))]
   \<and> calls (run None [TimerFires 0] (run None
       [WsConnection ''c'',
        SamplingRequest ''r1'' ''srv'' JNull,
        WsMessage 0 (JObj [(''type'', JStr ''sampling_response''), (''requestId'', JStr ''r1''),
                           (''result'', JObj [])]),
        SamplingRequest ''r2'' ''srv'' JNull,
        TimerFires 0]
       (initial_state new_host JNull None)))
       = [(0, CbResult (JObj [])), (1, CbError timeout_error)]"
  using sampling_callback_once [of
       "[WsConnection ''c'',
        SamplingRequest ''r1'' ''srv'' JNull,
        WsMessage 0 (JObj [(''type'', JStr ''sampling_response''), (''requestId'', JStr ''r1''),
                           (''result'', JObj [])]),
        SamplingRequest ''r2'' ''srv'' JNull,
        TimerFires 0]" None new_host JNull None]
  by (simp add: eval_more ws_message_def handleSamplingResponseMessage_def lookup_request_def
        truthy_def)

end
